theory Spec2Isabelle
  imports Complex_Main "HOL-Library.Multiset"
begin

section \<open>Rayleigh-Taylor instability example: particle setup and equation list\<close>

text \<open>
  A shallow embedding of \<^verbatim>\<open>examples/TransportVelocity/rayleigh_taylor.py\<close>.
  Python floats are idealised as real numbers, with one exception: the two arrays that
  \<^verbatim>\<open>np.arange\<close> builds, whose length and values depend on the rounding of doubles, are
  parameters of the model, and their values in the run are given as tables. Integer
  constants that only take part in float arithmetic (\<^verbatim>\<open>Re\<close>, \<^verbatim>\<open>nx\<close>) are embedded into the
  reals where they are used.
\<close>

subsection \<open>Module-level constants (lines 21-37)\<close>

definition gy :: real where "gy = - 1.0"

definition Lx :: real where "Lx = 1.0"

definition Ly :: real where "Ly = 2.0"

text \<open>\<^verbatim>\<open>Re\<close> of the source; renamed because \<open>Re\<close> is the real part of a complex number.\<close>
definition Re_number :: int where "Re_number = 420"

definition Umax :: real where "Umax = sqrt (2 * \<bar>gy\<bar> * Ly)"

definition nu :: real where "nu = Umax * Ly / real_of_int Re_number"

definition rho1 :: real where "rho1 = 1.8"

definition rho2 :: real where "rho2 = 1.0"

definition c0 :: real where "c0 = 10 * Umax"

definition p0 :: real where "p0 = c0 ^ 2"

definition nx :: int where "nx = 50"

definition dx :: real where "dx = Lx / real_of_int nx"

definition ghost_extent :: real where "ghost_extent = 5 * dx"

definition hdx :: real where "hdx = 1.2"

subsection \<open>Particle sets\<close>

datatype error =
    DuplicatePropertyError
  | IndexOutOfRangeError
  | AttributeError
  | ValueError
  | IndexError
  | UnboundLocalError

text \<open>
  A particle set: a name, the particle count and the registry of property arrays
  (property name to array of per-particle values).
\<close>
record particle_array =
  name :: string
  num_particles :: nat
  properties :: "string \<rightharpoonup> real list"

text \<open>The invariant of the data model: every property array has as many entries as the
  set has particles.\<close>
definition consistent :: "particle_array \<Rightarrow> bool" where
  "consistent p \<longleftrightarrow> (\<forall>k arr. properties p k = Some arr \<longrightarrow> length arr = num_particles p)"

text \<open>
  Modelled from the spec: \<^verbatim>\<open>get_particle_array\<close> of \<^verbatim>\<open>pysph.base.utils\<close> is not among the
  sources. It builds a set called \<open>nm\<close> from the arrays passed by keyword (\<open>given\<close>); all of
  them must have one length, which is the particle count. The table \<open>base\<close> of the
  properties every set starts with, each with the value that fills it, is not in the sources
  either and is a parameter. A keyword array takes the place of the fill of its property.
\<close>
definition get_particle_array ::
  "(string \<times> real) list \<Rightarrow> string \<Rightarrow> (string \<times> real list) list \<Rightarrow> error + particle_array" where
  "get_particle_array base nm given =
     (let n = (case given of [] \<Rightarrow> 0 | (k, arr) # rest \<Rightarrow> length arr) in
      if list_all (\<lambda>(k, arr). length arr = n) given
      then Inr \<lparr> name = nm, num_particles = n,
                 properties = (\<lambda>k. map_option (replicate n) (map_of base k)) ++ map_of given \<rparr>
      else Inl ValueError)"

text \<open>
  Modelled from the spec: \<^verbatim>\<open>add_property\<close> (section 4.1, \<^verbatim>\<open>addProperty(name, default=0)\<close>)
  is not among the sources. It adds a new array, back-filled with zero for the particles
  the set already holds, and fails with \<open>DuplicatePropertyError\<close> if the name exists.
\<close>
definition add_property :: "string \<Rightarrow> particle_array \<Rightarrow> error + particle_array" where
  "add_property k p =
     (case properties p k of
        Some arr \<Rightarrow> Inl DuplicatePropertyError
      | None \<Rightarrow> Inr (p\<lparr>properties := (properties p)(k \<mapsto> replicate (num_particles p) 0)\<rparr>))"

text \<open>
  Modelled from the spec: \<^verbatim>\<open>extract_particles\<close> (section 4.1, \<^verbatim>\<open>extract(indices)\<close>) is not
  among the sources. It returns a new set holding copies of the rows at \<open>idx\<close>, in the order
  of \<open>idx\<close>; an index that is not an offset into the set fails with \<open>IndexOutOfRangeError\<close>.
  The spec does not name the new set; the source names it right away (line 62). Indices
  are offsets, hence natural numbers; on a consistent set every index that passes the
  check is in range of every array.
\<close>
definition extract_particles :: "nat list \<Rightarrow> particle_array \<Rightarrow> error + particle_array" where
  "extract_particles idx p =
     (if list_all (\<lambda>i. i < num_particles p) idx
      then Inr \<lparr> name = [], num_particles = length idx,
                 properties = (\<lambda>k. map_option (\<lambda>arr. map (\<lambda>i. arr ! i) idx) (properties p k)) \<rparr>
      else Inl IndexOutOfRangeError)"

text \<open>The rows of one array that stay when the rows at \<open>idx\<close> are deleted.\<close>
definition remaining :: "nat list \<Rightarrow> 'a list \<Rightarrow> 'a list" where
  "remaining idx arr = map (\<lambda>i. arr ! i) (filter (\<lambda>i. i \<notin> set idx) [0..<length arr])"

text \<open>
  Modelled from the spec: \<^verbatim>\<open>remove_particles\<close> (section 4.1, \<^verbatim>\<open>remove(indices)\<close>) is not
  among the sources. It deletes the rows at \<open>idx\<close> in place; the rows that stay keep their
  order and are renumbered contiguously. An index out of range fails with
  \<open>IndexOutOfRangeError\<close>.
\<close>
definition remove_particles :: "nat list \<Rightarrow> particle_array \<Rightarrow> error + particle_array" where
  "remove_particles idx p =
     (if list_all (\<lambda>i. i < num_particles p) idx
      then Inr (p\<lparr> num_particles := length (filter (\<lambda>i. i \<notin> set idx) [0..<num_particles p]),
                  properties := (\<lambda>k. map_option (remaining idx) (properties p k)) \<rparr>)
      else Inl IndexOutOfRangeError)"

definition set_name :: "string \<Rightarrow> particle_array \<Rightarrow> error + particle_array" where
  "set_name nm p = Inr (p\<lparr>name := nm\<rparr>)"

definition get_number_of_particles :: "particle_array \<Rightarrow> nat" where
  "get_number_of_particles p = num_particles p"

text \<open>Reading a property as an attribute (\<^verbatim>\<open>fluid.rho\<close>).\<close>
definition get_attr :: "string \<Rightarrow> particle_array \<Rightarrow> error + real list" where
  "get_attr k p = (case properties p k of None \<Rightarrow> Inl AttributeError | Some arr \<Rightarrow> Inr arr)"

text \<open>
  The slice assignment \<^verbatim>\<open>p.k[:] = vals\<close> of numpy: the array keeps its length; the
  right-hand side has that length, or is one value that is repeated; any other shape is a
  \<open>ValueError\<close>.
\<close>
definition set_slice :: "string \<Rightarrow> real list \<Rightarrow> particle_array \<Rightarrow> error + particle_array" where
  "set_slice k vals p =
     (case properties p k of
        None \<Rightarrow> Inl AttributeError
      | Some old \<Rightarrow>
          if length vals = length old
          then Inr (p\<lparr>properties := (properties p)(k \<mapsto> vals)\<rparr>)
          else if length vals = 1
          then Inr (p\<lparr>properties := (properties p)(k \<mapsto> map (\<lambda>_. hd vals) old)\<rparr>)
          else Inl ValueError)"

text \<open>The slice assignment of a scalar, \<^verbatim>\<open>p.k[:] = c\<close>.\<close>
definition fill_slice :: "string \<Rightarrow> real \<Rightarrow> particle_array \<Rightarrow> error + particle_array" where
  "fill_slice k c p =
     (case properties p k of
        None \<Rightarrow> Inl AttributeError
      | Some old \<Rightarrow> Inr (p\<lparr>properties := (properties p)(k \<mapsto> map (\<lambda>_. c) old)\<rparr>))"

subsection \<open>The padded grid (lines 45-47)\<close>

text \<open>
  Lines 45 and 46 build the arrays \<^verbatim>\<open>_x\<close> and \<^verbatim>\<open>_y\<close> with \<^verbatim>\<open>np.arange\<close>. That function is
  numpy's, and it works in double precision: the number of values is the ceiling of the
  rounded quotient \<open>(stop - start) / step\<close> (for \<^verbatim>\<open>_x\<close> the quotient comes out just above 61
  and there are 62 values, where exact arithmetic would give 61), and the values carry the
  rounding of each operation. The two arrays are therefore parameters, \<open>ax\<close> and \<open>ay\<close>, of
  everything below, and every statement holds for all arrays. The arrays of the run itself
  are given further down, as \<open>axis_x\<close> and \<open>axis_y\<close>.
\<close>

text \<open>\<^verbatim>\<open>np.meshgrid(xs, ys)\<close> followed by \<^verbatim>\<open>ravel\<close> of both results: row by row, one row
  for each value of \<open>ys\<close>, each row running through \<open>xs\<close>.\<close>
definition meshgrid :: "real list \<Rightarrow> real list \<Rightarrow> real list \<times> real list" where
  "meshgrid xs ys = (concat (map (\<lambda>yv. xs) ys), concat (map (\<lambda>yv. map (\<lambda>xv. yv) xs) ys))"

text \<open>\<^verbatim>\<open>x\<close> and \<^verbatim>\<open>y\<close> of the source after \<^verbatim>\<open>ravel\<close> (line 47).\<close>
definition grid_x :: "real list \<Rightarrow> real list \<Rightarrow> real list" where
  "grid_x ax ay = fst (meshgrid ax ay)"

definition grid_y :: "real list \<Rightarrow> real list \<Rightarrow> real list" where
  "grid_y ax ay = snd (meshgrid ax ay)"

text \<open>
  The arrays \<^verbatim>\<open>_x\<close> and \<^verbatim>\<open>_y\<close> of the run in IEEE double arithmetic, every operation rounded
  to nearest and none fused: \<^verbatim>\<open>np.arange\<close> takes \<open>\<lceil>(stop - start) / step\<rceil>\<close> values, the first
  \<open>start\<close>, the second \<open>start + step\<close>, and the one of index \<open>i\<close> is \<open>start + i * delta\<close> with
  \<open>delta\<close> the second minus the first. Every value is a multiple of \<open>2\<^sup>-\<^sup>5\<^sup>9\<close> and is given
  as such; they lie within \<open>10\<^sup>-\<^sup>1\<^sup>5\<close> of \<open>-0.11 + 0.02 * i\<close>. There are 62 values of \<^verbatim>\<open>_x\<close>,
  from \<open>-0.11\<close> to \<open>1.11\<close>, and 111 of \<^verbatim>\<open>_y\<close>, from \<open>-0.11\<close> to \<open>2.09\<close>. No definition of the
  program uses these two tables; they are the arrays at which the statements about all
  arrays are read for this run.
\<close>
definition axis_x :: "real list" where
  "axis_x = map (\<lambda>n. real_of_int n / 2 ^ 59)
     [
       -63410682753376584, -51881467707308112, -40352252661239640, -28823037615171168,
       -17293822569102696, -5764607523034224, 5764607523034248, 17293822569102712,
       28823037615171192, 40352252661239672, 51881467707308136, 63410682753376600,
       74939897799445088, 86469112845513568, 97998327891582016, 109527542937650496,
       121056757983718976, 132585973029787456, 144115188075855936, 155644403121924384,
       167173618167992864, 178702833214061344, 190232048260129792, 201761263306198272,
       213290478352266752, 224819693398335232, 236348908444403712, 247878123490472192,
       259407338536540608, 270936553582609088, 282465768628677568, 293994983674746048,
       305524198720814528, 317053413766883008, 328582628812951488, 340111843859019968,
       351641058905088448, 363170273951156864, 374699488997225344, 386228704043293824,
       397757919089362304, 409287134135430784, 420816349181499264, 432345564227567744,
       443874779273636160, 455403994319704640, 466933209365773120, 478462424411841600,
       489991639457910080, 501520854503978560, 513050069550047040, 524579284596115520,
       536108499642184000, 547637714688252480, 559166929734320960, 570696144780389440,
       582225359826457728, 593754574872526208, 605283789918594688, 616813004964663168,
       628342220010731648, 639871435056800128 ]"

definition axis_y :: "real list" where
  "axis_y = map (\<lambda>n. real_of_int n / 2 ^ 59)
     [
       -63410682753376584, -51881467707308112, -40352252661239640, -28823037615171168,
       -17293822569102696, -5764607523034224, 5764607523034248, 17293822569102712,
       28823037615171192, 40352252661239672, 51881467707308136, 63410682753376600,
       74939897799445088, 86469112845513568, 97998327891582016, 109527542937650496,
       121056757983718976, 132585973029787456, 144115188075855936, 155644403121924384,
       167173618167992864, 178702833214061344, 190232048260129792, 201761263306198272,
       213290478352266752, 224819693398335232, 236348908444403712, 247878123490472192,
       259407338536540608, 270936553582609088, 282465768628677568, 293994983674746048,
       305524198720814528, 317053413766883008, 328582628812951488, 340111843859019968,
       351641058905088448, 363170273951156864, 374699488997225344, 386228704043293824,
       397757919089362304, 409287134135430784, 420816349181499264, 432345564227567744,
       443874779273636160, 455403994319704640, 466933209365773120, 478462424411841600,
       489991639457910080, 501520854503978560, 513050069550047040, 524579284596115520,
       536108499642184000, 547637714688252480, 559166929734320960, 570696144780389440,
       582225359826457728, 593754574872526208, 605283789918594688, 616813004964663168,
       628342220010731648, 639871435056800128, 651400650102868608, 662929865148937088,
       674459080195005568, 685988295241074048, 697517510287142528, 709046725333211008,
       720575940379279488, 732105155425347968, 743634370471416448, 755163585517484928,
       766692800563553408, 778222015609621760, 789751230655690240, 801280445701758720,
       812809660747827200, 824338875793895680, 835868090839964160, 847397305886032640,
       858926520932101120, 870455735978169600, 881984951024238080, 893514166070306560,
       905043381116375040, 916572596162443520, 928101811208512000, 939631026254580480,
       951160241300648832, 962689456346717312, 974218671392785792, 985747886438854272,
       997277101484922752, 1008806316530991232, 1020335531577059712, 1031864746623128192,
       1043393961669196672, 1054923176715265152, 1066452391761333632, 1077981606807402112,
       1089510821853470592, 1101040036899539072, 1112569251945607552, 1124098466991676032,
       1135627682037744512, 1147156897083812992, 1158686112129881600, 1170215327175950080,
       1181744542222018560, 1193273757268087040, 1204802972314155520 ]"

subsection \<open>Sorting out the fluid and the solid (lines 50-71)\<close>

text \<open>The test of lines 52-53.\<close>
definition inside :: "real \<Rightarrow> real \<Rightarrow> bool" where
  "inside xv yv \<longleftrightarrow> (xv > 0.0 \<and> xv < Lx) \<and> (yv > 0.0 \<and> yv < Ly)"

text \<open>The loop of lines 50-54: the indices of the points inside the domain, in
  increasing order. The loop runs over the length of \<open>x\<close> and reads \<open>y\<close> at the same index;
  the two arrays come from one \<^verbatim>\<open>meshgrid\<close> and have one length. Line 56 copies this
  list into the array \<^verbatim>\<open>to_extract\<close> that lines 62 and 63 pass to \<^verbatim>\<open>extract_particles\<close>
  and \<^verbatim>\<open>remove_particles\<close>.\<close>
definition indices :: "real list \<Rightarrow> real list \<Rightarrow> nat list" where
  "indices x y = filter (\<lambda>i. inside (x ! i) (y ! i)) [0..<length x]"

text \<open>The test of line 68: the point lies above the interface.\<close>
definition heavy :: "real \<Rightarrow> real \<Rightarrow> bool" where
  "heavy xv yv \<longleftrightarrow> yv > 1 - 0.15 * sin (2 * pi * xv)"

text \<open>The loop of lines 67-71 over the indices \<open>js\<close>, on the arrays \<open>x\<close>, \<open>y\<close> and \<open>rho\<close>.\<close>
fun seed_loop :: "nat list \<Rightarrow> real list \<Rightarrow> real list \<Rightarrow> real list \<Rightarrow> real list" where
  "seed_loop [] x y rho = rho"
| "seed_loop (i # js) x y rho =
     seed_loop js x y (rho[i := (if heavy (x ! i) (y ! i) then rho1 else rho2)])"

text \<open>Lines 67-71 on a particle set. An array shorter than the particle count makes the
  loop read or write out of range, an \<open>IndexError\<close>.\<close>
definition seed_density :: "particle_array \<Rightarrow> error + particle_array" where
  "seed_density p =
     (let n = get_number_of_particles p in
      case (properties p ''x'', properties p ''y'', properties p ''rho'') of
        (Some x, Some y, Some rho) \<Rightarrow>
          if n \<le> length x \<and> n \<le> length y \<and> n \<le> length rho
          then Inr (p\<lparr>properties := (properties p)(''rho'' \<mapsto> seed_loop [0..<n] x y rho)\<rparr>)
          else Inl IndexError
      | _ \<Rightarrow> Inl AttributeError)"

subsection \<open>The local variables of \<^verbatim>\<open>create_particles\<close>\<close>

text \<open>The two local variables that hold particle sets; \<open>None\<close> before the first assignment.
  No two variables ever hold the same set (\<^verbatim>\<open>extract_particles\<close> returns a new one), so
  each variable carries its set by value.\<close>
record frame =
  fluid :: "particle_array option"
  solid :: "particle_array option"

type_synonym step = "frame \<Rightarrow> error + frame"

text \<open>\<^verbatim>\<open>fluid = e\<close> and \<^verbatim>\<open>solid = e\<close> for an expression \<open>e\<close> that does not read the frame.\<close>
definition new_fluid :: "error + particle_array \<Rightarrow> step" where
  "new_fluid r s = (case r of Inl e \<Rightarrow> Inl e | Inr p \<Rightarrow> Inr (s\<lparr>fluid := Some p\<rparr>))"

definition new_solid :: "error + particle_array \<Rightarrow> step" where
  "new_solid r s = (case r of Inl e \<Rightarrow> Inl e | Inr p \<Rightarrow> Inr (s\<lparr>solid := Some p\<rparr>))"

text \<open>\<^verbatim>\<open>fluid = solid.f(...)\<close> for a method \<open>f\<close> that returns a new set and leaves its
  receiver as it is. Frames by value cannot say otherwise; the model on references
  further down can, and the run of lines 59-71 there has these frames as its views.\<close>
definition fluid_from_solid :: "(particle_array \<Rightarrow> error + particle_array) \<Rightarrow> step" where
  "fluid_from_solid f s =
     (case solid s of
        None \<Rightarrow> Inl UnboundLocalError
      | Some p \<Rightarrow> (case f p of Inl e \<Rightarrow> Inl e | Inr q \<Rightarrow> Inr (s\<lparr>fluid := Some q\<rparr>)))"

text \<open>A statement that updates the set held by \<^verbatim>\<open>fluid\<close> (or \<^verbatim>\<open>solid\<close>) in place.\<close>
definition on_fluid :: "(particle_array \<Rightarrow> error + particle_array) \<Rightarrow> step" where
  "on_fluid f s =
     (case fluid s of
        None \<Rightarrow> Inl UnboundLocalError
      | Some p \<Rightarrow> (case f p of Inl e \<Rightarrow> Inl e | Inr q \<Rightarrow> Inr (s\<lparr>fluid := Some q\<rparr>)))"

definition on_solid :: "(particle_array \<Rightarrow> error + particle_array) \<Rightarrow> step" where
  "on_solid f s =
     (case solid s of
        None \<Rightarrow> Inl UnboundLocalError
      | Some p \<Rightarrow> (case f p of Inl e \<Rightarrow> Inl e | Inr q \<Rightarrow> Inr (s\<lparr>solid := Some q\<rparr>)))"

text \<open>\<^verbatim>\<open>p.k[:] = f(p.src)\<close>, with \<open>f\<close> applied to each entry.\<close>
definition assign_from :: "string \<Rightarrow> (real \<Rightarrow> real) \<Rightarrow> string \<Rightarrow> particle_array \<Rightarrow> error + particle_array" where
  "assign_from k f src p =
     (case get_attr src p of Inl e \<Rightarrow> Inl e | Inr arr \<Rightarrow> set_slice k (map f arr) p)"

text \<open>Running statements in order; the first error ends the run.\<close>
fun run :: "step list \<Rightarrow> frame \<Rightarrow> error + frame" where
  "run [] s = Inr s"
| "run (st # sts) s = (case st s of Inl e \<Rightarrow> Inl e | Inr s' \<Rightarrow> run sts s')"

text \<open>The frames a run goes through: the one it starts from and the one after each
  statement, up to the first error.\<close>
fun trace :: "step list \<Rightarrow> frame \<Rightarrow> frame list" where
  "trace [] s = [s]"
| "trace (st # sts) s = s # (case st s of Inl e \<Rightarrow> [] | Inr s' \<Rightarrow> trace sts s')"

subsection \<open>\<^verbatim>\<open>create_particles\<close> (lines 39-126)\<close>

text \<open>Lines 40-71. The argument \<^verbatim>\<open>empty\<close> of the source is \<open>is_empty\<close> here; \<open>ax\<close> and \<open>ay\<close> are
  the arrays \<^verbatim>\<open>_x\<close> and \<^verbatim>\<open>_y\<close> that lines 45 and 46 get from \<^verbatim>\<open>np.arange\<close>, which only the
  branch for \<open>empty = False\<close> builds and uses. The \<^verbatim>\<open>print\<close> of line 73 writes to the terminal
  only.\<close>
definition make_sets :: "(string \<times> real) list \<Rightarrow> real list \<Rightarrow> real list \<Rightarrow> bool \<Rightarrow> step list" where
  "make_sets base ax ay is_empty =
     (if is_empty then
        [ new_fluid (get_particle_array base ''fluid'' []),
          new_solid (get_particle_array base ''solid'' []) ]
      else
        [ new_solid (get_particle_array base ''solid'' [(''x'', grid_x ax ay), (''y'', grid_y ax ay)]),
          fluid_from_solid (extract_particles (indices (grid_x ax ay) (grid_y ax ay))),
          on_fluid (set_name ''fluid''),
          on_solid (remove_particles (indices (grid_x ax ay) (grid_y ax ay))),
          on_fluid seed_density ])"

text \<open>Lines 79-108. The division of line 101 is by a density; the densities it meets are
  \<open>rho1\<close> and \<open>rho2\<close> (or none at all when the sets are empty), never zero.\<close>
definition add_properties :: "step list" where
  "add_properties =
     [ on_fluid (add_property ''V''),
       on_solid (add_property ''V''),
       on_fluid (add_property ''uhat''),
       on_fluid (add_property ''vhat''),
       on_solid (add_property ''uhat''),
       on_solid (add_property ''vhat''),
       on_fluid (add_property ''auhat''),
       on_fluid (add_property ''avhat''),
       on_fluid (add_property ''au''),
       on_fluid (add_property ''av''),
       on_fluid (add_property ''aw''),
       on_fluid (add_property ''rho0''),
       on_fluid (assign_from ''rho0'' (\<lambda>r. r) ''rho''),
       on_fluid (add_property ''p0''),
       on_fluid (assign_from ''p0'' (\<lambda>r. c0 ^ 2 / r) ''rho''),
       on_solid (add_property ''wij''),
       on_solid (add_property ''u0''),
       on_solid (add_property ''v0'') ]"

text \<open>Lines 112-123.\<close>
definition set_values :: "step list" where
  "set_values =
     (let volume = dx * dx in
      [ on_fluid (assign_from ''m'' (\<lambda>r. volume * r) ''rho''),
        on_fluid (fill_slice ''V'' (1 / volume)),
        on_solid (fill_slice ''V'' (1 / volume)),
        on_fluid (fill_slice ''h'' (hdx * dx)),
        on_solid (fill_slice ''h'' (hdx * dx)) ])"

definition program :: "(string \<times> real) list \<Rightarrow> real list \<Rightarrow> real list \<Rightarrow> bool \<Rightarrow> step list" where
  "program base ax ay is_empty =
     make_sets base ax ay is_empty @ add_properties @ (if \<not> is_empty then set_values else [])"

text \<open>The frame at entry: no local variable is bound yet.\<close>
definition init :: frame where
  "init = \<lparr>fluid = None, solid = None\<rparr>"

text \<open>Line 126 returns the list \<^verbatim>\<open>[fluid, solid]\<close>.\<close>
definition create_particles ::
  "(string \<times> real) list \<Rightarrow> real list \<Rightarrow> real list \<Rightarrow> bool \<Rightarrow> error + particle_array list" where
  "create_particles base ax ay is_empty =
     (case run (program base ax ay is_empty) init of
        Inl e \<Rightarrow> Inl e
      | Inr s \<Rightarrow>
          (case (fluid s, solid s) of
             (Some f, Some b) \<Rightarrow> Inr [f, b]
           | _ \<Rightarrow> Inl UnboundLocalError))"

subsection \<open>The equation list (lines 142-165)\<close>

text \<open>The rules, each with the keyword arguments the source passes to it.\<close>
datatype equation =
    TransportVelocitySummationDensity (dest: string) (sources: "string list option") (arg_c0: real)
  | TransportVelocitySolidWall (dest: string) (sources: "string list option")
      (arg_p0: real) (arg_gy: real)
  | BodyForce (dest: string) (sources: "string list option") (arg_fy: real)
  | TransportVelocityMomentumEquation (dest: string) (sources: "string list option")
      (arg_nu: real) (arg_pb: real)

datatype group = Group (group_equations: "equation list")

definition equations :: "group list" where
  "equations =
     [ Group [ TransportVelocitySummationDensity ''fluid'' (Some [''fluid'', ''solid'']) c0 ],
       Group [ TransportVelocitySolidWall ''solid'' (Some [''fluid'']) p0 gy ],
       Group [ BodyForce ''fluid'' None gy,
               TransportVelocityMomentumEquation ''fluid'' (Some [''fluid'', ''solid'']) nu p0 ] ]"

text \<open>
  Modelled from the spec: an instance of the table of base properties, for concrete runs.
  It has the properties of the particle row of section 3 that \<^verbatim>\<open>create_particles\<close> does not
  add itself (position, velocity, density, mass, smoothing length), each filled with the
  default of the spec, zero.
\<close>
definition zero_base :: "(string \<times> real) list" where
  "zero_base = map (\<lambda>k. (k, 0)) [''x'', ''y'', ''z'', ''u'', ''v'', ''w'', ''rho'', ''m'', ''h'']"

subsection \<open>Particle sets as objects (lines 59-71)\<close>

text \<open>
  The frames above hold the particle sets by value. Python holds them by reference: a
  variable names an object, a method may change its receiver in place, and two variables
  may name one object, or two objects share an array. Lines 59-71 are modelled a second
  time at that level, with a store of objects and arrays and with variables that hold
  references. What a method computes is taken from the definitions above; what is added
  is where the result is put: in a new object with new arrays, or in the receiver.
\<close>

text \<open>A particle set in the store: its name, its particle count, and for each property the
  address of its array.\<close>
record pset =
  obj_name :: string
  obj_count :: nat
  obj_arrays :: "(string \<times> nat) list"

text \<open>The store: the objects and the arrays, each addressed by its position.\<close>
record store =
  objects :: "pset list"
  arrays :: "real list list"

text \<open>The value of the object at reference \<open>r\<close>.\<close>
definition deref :: "store \<Rightarrow> nat \<Rightarrow> particle_array" where
  "deref st r =
     (let ob = objects st ! r in
      \<lparr>name = obj_name ob, num_particles = obj_count ob,
       properties = (\<lambda>k. map_option (\<lambda>a. arrays st ! a) (map_of (obj_arrays ob) k))\<rparr>)"

text \<open>A new object with arrays of its own: the object and one array for each property of
  the list \<open>ks\<close> are appended to the store, which is otherwise left as it is. The result is
  the reference of the new object and the new store.\<close>
definition alloc :: "string list \<Rightarrow> particle_array \<Rightarrow> store \<Rightarrow> nat \<times> store" where
  "alloc ks p st =
     (length (objects st),
      \<lparr>objects = objects st @
         [\<lparr>obj_name = name p, obj_count = num_particles p,
           obj_arrays = zip ks [length (arrays st)..<length (arrays st) + length ks]\<rparr>],
       arrays = arrays st @ map (\<lambda>k. case properties p k of None \<Rightarrow> [] | Some arr \<Rightarrow> arr) ks\<rparr>)"

text \<open>The object at \<open>r\<close> takes the value \<open>p\<close> in place: its name and its count are overwritten,
  and so is each of its arrays, at the address it has. Whatever else holds one of these
  addresses sees the new array.\<close>
definition store_back :: "nat \<Rightarrow> particle_array \<Rightarrow> store \<Rightarrow> store" where
  "store_back r p st =
     (let ob = objects st ! r in
      \<lparr>objects = (objects st)[r := ob\<lparr>obj_name := name p, obj_count := num_particles p\<rparr>],
       arrays = fold (\<lambda>(k, a) arrs. case properties p k of None \<Rightarrow> arrs | Some arr \<Rightarrow> arrs[a := arr])
                  (obj_arrays ob) (arrays st)\<rparr>)"

text \<open>A method that changes its receiver in place and keeps its list of properties:
  \<^verbatim>\<open>set_name\<close>, \<^verbatim>\<open>remove_particles\<close>, and the element assignments of lines 67-71.\<close>
definition in_place ::
  "(particle_array \<Rightarrow> error + particle_array) \<Rightarrow> nat \<Rightarrow> store \<Rightarrow> error + store" where
  "in_place f r st = (case f (deref st r) of Inl e \<Rightarrow> Inl e | Inr q \<Rightarrow> Inr (store_back r q st))"

text \<open>
  Modelled from the spec: \<^verbatim>\<open>get_particle_array\<close> builds a particle set (section 3); the set
  is a new object, with one new array for each keyword array and each base property.
\<close>
definition get_particle_array_obj ::
  "(string \<times> real) list \<Rightarrow> string \<Rightarrow> (string \<times> real list) list \<Rightarrow> store \<Rightarrow> error + nat \<times> store" where
  "get_particle_array_obj base nm given st =
     (case get_particle_array base nm given of
        Inl e \<Rightarrow> Inl e
      | Inr p \<Rightarrow> Inr (alloc (remdups (map fst given @ map fst base)) p st))"

text \<open>
  Modelled from the spec: \<^verbatim>\<open>extract_particles\<close> (section 4.1, \<^verbatim>\<open>extract(indices)\<close>) "returns a
  new set holding copies of rows at indices": the rows are read from the receiver as it
  is in the store and put into a new object, with a new array for each property of the
  receiver.
\<close>
definition extract_particles_obj :: "nat list \<Rightarrow> nat \<Rightarrow> store \<Rightarrow> error + nat \<times> store" where
  "extract_particles_obj idx r st =
     (case extract_particles idx (deref st r) of
        Inl e \<Rightarrow> Inl e
      | Inr q \<Rightarrow> Inr (alloc (map fst (obj_arrays (objects st ! r))) q st))"

text \<open>
  Modelled from the spec: \<^verbatim>\<open>remove_particles\<close> (section 4.1, \<^verbatim>\<open>remove(indices)\<close>) "deletes
  rows in place": the receiver and its arrays are overwritten.
\<close>
definition remove_particles_obj :: "nat list \<Rightarrow> nat \<Rightarrow> store \<Rightarrow> error + store" where
  "remove_particles_obj idx = in_place (remove_particles idx)"

text \<open>The local variables \<^verbatim>\<open>fluid\<close> and \<^verbatim>\<open>solid\<close> as references, and the store.\<close>
record env =
  fluid_var :: "nat option"
  solid_var :: "nat option"
  heap :: store

type_synonym ostep = "env \<Rightarrow> error + env"

text \<open>\<^verbatim>\<open>solid = g(...)\<close> for a function that returns a reference.\<close>
definition bind_solid :: "(store \<Rightarrow> error + nat \<times> store) \<Rightarrow> ostep" where
  "bind_solid g e =
     (case g (heap e) of
        Inl err \<Rightarrow> Inl err
      | Inr (r, st) \<Rightarrow> Inr (e\<lparr>solid_var := Some r, heap := st\<rparr>))"

text \<open>\<^verbatim>\<open>fluid = solid.m(...)\<close> for a method that returns a reference; the method is given its
  receiver and the store, and may return the receiver itself or change it.\<close>
definition bind_fluid_from_solid :: "(nat \<Rightarrow> store \<Rightarrow> error + nat \<times> store) \<Rightarrow> ostep" where
  "bind_fluid_from_solid m e =
     (case solid_var e of
        None \<Rightarrow> Inl UnboundLocalError
      | Some r \<Rightarrow>
          (case m r (heap e) of
             Inl err \<Rightarrow> Inl err
           | Inr (r', st) \<Rightarrow> Inr (e\<lparr>fluid_var := Some r', heap := st\<rparr>)))"

text \<open>\<^verbatim>\<open>fluid.m(...)\<close> and \<^verbatim>\<open>solid.m(...)\<close> for a method that returns nothing.\<close>
definition call_fluid :: "(nat \<Rightarrow> store \<Rightarrow> error + store) \<Rightarrow> ostep" where
  "call_fluid m e =
     (case fluid_var e of
        None \<Rightarrow> Inl UnboundLocalError
      | Some r \<Rightarrow> (case m r (heap e) of Inl err \<Rightarrow> Inl err | Inr st \<Rightarrow> Inr (e\<lparr>heap := st\<rparr>)))"

definition call_solid :: "(nat \<Rightarrow> store \<Rightarrow> error + store) \<Rightarrow> ostep" where
  "call_solid m e =
     (case solid_var e of
        None \<Rightarrow> Inl UnboundLocalError
      | Some r \<Rightarrow> (case m r (heap e) of Inl err \<Rightarrow> Inl err | Inr st \<Rightarrow> Inr (e\<lparr>heap := st\<rparr>)))"

text \<open>Running statements in order; the first error ends the run.\<close>
fun run_obj :: "ostep list \<Rightarrow> env \<Rightarrow> error + env" where
  "run_obj [] e = Inr e"
| "run_obj (st # sts) e = (case st e of Inl err \<Rightarrow> Inl err | Inr e' \<Rightarrow> run_obj sts e')"

text \<open>Lines 59-71: the statements of \<open>make_sets\<close> for \<open>empty = False\<close>, on references.\<close>
definition make_sets_obj :: "(string \<times> real) list \<Rightarrow> real list \<Rightarrow> real list \<Rightarrow> ostep list" where
  "make_sets_obj base ax ay =
     [ bind_solid (get_particle_array_obj base ''solid'' [(''x'', grid_x ax ay), (''y'', grid_y ax ay)]),
       bind_fluid_from_solid (extract_particles_obj (indices (grid_x ax ay) (grid_y ax ay))),
       call_fluid (in_place (set_name ''fluid'')),
       call_solid (remove_particles_obj (indices (grid_x ax ay) (grid_y ax ay))),
       call_fluid (in_place seed_density) ]"

text \<open>At entry no variable is bound and the store holds nothing of the function's.\<close>
definition init_obj :: env where
  "init_obj = \<lparr>fluid_var = None, solid_var = None, heap = \<lparr>objects = [], arrays = []\<rparr>\<rparr>"

text \<open>The frame by value that the variables and the store stand for.\<close>
definition view :: "env \<Rightarrow> frame" where
  "view e = \<lparr>fluid = map_option (deref (heap e)) (fluid_var e),
            solid = map_option (deref (heap e)) (solid_var e)\<rparr>"

section \<open>Auxiliary definitions\<close>

text \<open>The invariant on a frame: each set that a variable holds is consistent.\<close>
definition frame_consistent :: "frame \<Rightarrow> bool" where
  "frame_consistent s \<longleftrightarrow>
     (case fluid s of None \<Rightarrow> True | Some p \<Rightarrow> consistent p) \<and>
     (case solid s of None \<Rightarrow> True | Some p \<Rightarrow> consistent p)"

text \<open>A method keeps the invariant: from a consistent set it returns a consistent set, if it returns one.\<close>
definition keeps_consistent :: "(particle_array \<Rightarrow> error + particle_array) \<Rightarrow> bool" where
  "keeps_consistent f \<longleftrightarrow> (\<forall>p q. consistent p \<longrightarrow> f p = Inr q \<longrightarrow> consistent q)"

text \<open>A statement keeps the invariant on frames.\<close>
definition keeps_frame :: "step \<Rightarrow> bool" where
  "keeps_frame st \<longleftrightarrow> (\<forall>s t. frame_consistent s \<longrightarrow> st s = Inr t \<longrightarrow> frame_consistent t)"

text \<open>The names that lines 79-100 add to the fluid set, and lines 80-108 to the solid set.\<close>
definition fluid_extras :: "string list" where
  "fluid_extras = [''V'', ''uhat'', ''vhat'', ''auhat'', ''avhat'', ''au'', ''av'', ''aw'', ''rho0'', ''p0'']"

definition solid_extras :: "string list" where
  "solid_extras = [''V'', ''uhat'', ''vhat'', ''wij'', ''u0'', ''v0'']"

text \<open>What \<^verbatim>\<open>create_particles\<close> needs of the table of base properties: it has the properties
  that the source reads or assigns without adding them (\<open>rho\<close>, \<open>m\<close>, \<open>h\<close>), and none of those
  that the source adds, since adding an existing name is an error.\<close>
definition base_ok :: "(string \<times> real) list \<Rightarrow> bool" where
  "base_ok base \<longleftrightarrow>
     list_all (\<lambda>k. map_of base k \<noteq> None) [''rho'', ''m'', ''h''] \<and>
     list_all (\<lambda>k. map_of base k = None) (fluid_extras @ solid_extras)"

text \<open>A new array of a set: one zero for each particle.\<close>
definition zeros :: "particle_array \<Rightarrow> real list" where
  "zeros p = replicate (num_particles p) 0"

text \<open>The sets after lines 79-108, from the sets \<open>F\<close> and \<open>S\<close> before them; \<open>rho\<close> is the density
  array of \<open>F\<close>.\<close>
definition fluid_added :: "particle_array \<Rightarrow> real list \<Rightarrow> particle_array" where
  "fluid_added F rho =
     F\<lparr>properties := (properties F)(''V'' \<mapsto> zeros F, ''uhat'' \<mapsto> zeros F, ''vhat'' \<mapsto> zeros F,
          ''auhat'' \<mapsto> zeros F, ''avhat'' \<mapsto> zeros F, ''au'' \<mapsto> zeros F, ''av'' \<mapsto> zeros F,
          ''aw'' \<mapsto> zeros F, ''rho0'' \<mapsto> rho, ''p0'' \<mapsto> map (\<lambda>r. c0 ^ 2 / r) rho)\<rparr>"

definition solid_added :: "particle_array \<Rightarrow> particle_array" where
  "solid_added S =
     S\<lparr>properties := (properties S)(''V'' \<mapsto> zeros S, ''uhat'' \<mapsto> zeros S, ''vhat'' \<mapsto> zeros S,
          ''wij'' \<mapsto> zeros S, ''u0'' \<mapsto> zeros S, ''v0'' \<mapsto> zeros S)\<rparr>"

text \<open>The sets after lines 112-123.\<close>
definition fluid_valued :: "particle_array \<Rightarrow> real list \<Rightarrow> particle_array" where
  "fluid_valued F rho =
     F\<lparr>properties := (properties F)(''m'' \<mapsto> map (\<lambda>r. dx * dx * r) rho,
          ''V'' \<mapsto> replicate (num_particles F) (1 / (dx * dx)),
          ''h'' \<mapsto> replicate (num_particles F) (hdx * dx))\<rparr>"

definition solid_valued :: "particle_array \<Rightarrow> particle_array" where
  "solid_valued S =
     S\<lparr>properties := (properties S)(
          ''V'' \<mapsto> replicate (num_particles S) (1 / (dx * dx)),
          ''h'' \<mapsto> replicate (num_particles S) (hdx * dx))\<rparr>"

text \<open>The set that \<^verbatim>\<open>get_particle_array\<close> builds from no arrays: the base properties, all empty.\<close>
definition empty_set :: "(string \<times> real) list \<Rightarrow> string \<Rightarrow> particle_array" where
  "empty_set base nm =
     \<lparr>name = nm, num_particles = 0, properties = (\<lambda>k. map_option (\<lambda>d. []) (map_of base k))\<rparr>"

text \<open>The set that line 59 builds.\<close>
definition orig_solid :: "(string \<times> real) list \<Rightarrow> real list \<Rightarrow> real list \<Rightarrow> particle_array" where
  "orig_solid base ax ay =
     \<lparr>name = ''solid'', num_particles = length (grid_x ax ay),
      properties = (\<lambda>k. map_option (replicate (length (grid_x ax ay))) (map_of base k))
                     ++ map_of [(''x'', grid_x ax ay), (''y'', grid_y ax ay)]\<rparr>"

text \<open>\<^verbatim>\<open>to_extract\<close> of line 56.\<close>
definition to_extract :: "real list \<Rightarrow> real list \<Rightarrow> nat list" where
  "to_extract ax ay = indices (grid_x ax ay) (grid_y ax ay)"

text \<open>The set that \<^verbatim>\<open>extract_particles\<close> returns at line 62.\<close>
definition extracted :: "(string \<times> real) list \<Rightarrow> real list \<Rightarrow> real list \<Rightarrow> particle_array" where
  "extracted base ax ay =
     \<lparr>name = [], num_particles = length (to_extract ax ay),
      properties = (\<lambda>k. map_option (\<lambda>arr. map (\<lambda>i. arr ! i) (to_extract ax ay)) (properties (orig_solid base ax ay) k))\<rparr>"

text \<open>The solid set after \<^verbatim>\<open>remove_particles\<close> of line 63.\<close>
definition made_solid :: "(string \<times> real) list \<Rightarrow> real list \<Rightarrow> real list \<Rightarrow> particle_array" where
  "made_solid base ax ay =
     (orig_solid base ax ay)\<lparr>
        num_particles := length (filter (\<lambda>i. i \<notin> set (to_extract ax ay)) [0..<length (grid_x ax ay)]),
        properties := (\<lambda>k. map_option (remaining (to_extract ax ay)) (properties (orig_solid base ax ay) k))\<rparr>"

text \<open>The densities that the loop of lines 67-71 leaves, point by point.\<close>
definition seeded :: "real list \<Rightarrow> real list \<Rightarrow> real list" where
  "seeded ax ay = map (\<lambda>(a, b). if heavy a b then rho1 else rho2)
              (filter (\<lambda>(a, b). inside a b) (zip (grid_x ax ay) (grid_y ax ay)))"

text \<open>The fluid set after line 71.\<close>
definition made_fluid :: "(string \<times> real) list \<Rightarrow> real list \<Rightarrow> real list \<Rightarrow> particle_array" where
  "made_fluid base ax ay =
     (extracted base ax ay)\<lparr>name := ''fluid'',
        properties := (properties (extracted base ax ay))(''rho'' \<mapsto> seeded ax ay)\<rparr>"

text \<open>The sets that \<^verbatim>\<open>create_particles\<close> returns when \<^verbatim>\<open>empty\<close> is \<open>False\<close>.\<close>
definition final_fluid :: "(string \<times> real) list \<Rightarrow> real list \<Rightarrow> real list \<Rightarrow> particle_array" where
  "final_fluid base ax ay = fluid_valued (fluid_added (made_fluid base ax ay) (seeded ax ay)) (seeded ax ay)"

definition final_solid :: "(string \<times> real) list \<Rightarrow> real list \<Rightarrow> real list \<Rightarrow> particle_array" where
  "final_solid base ax ay = solid_valued (solid_added (made_solid base ax ay))"

text \<open>Lines 79-108 without the two slice assignments of lines 98 and 101: the properties are
  declared and nothing is assigned. This is the reading of the spec for the empty case,
  to compare the source with.\<close>
definition declare_properties :: "step list" where
  "declare_properties =
     [ on_fluid (add_property ''V''),
       on_solid (add_property ''V''),
       on_fluid (add_property ''uhat''),
       on_fluid (add_property ''vhat''),
       on_solid (add_property ''uhat''),
       on_solid (add_property ''vhat''),
       on_fluid (add_property ''auhat''),
       on_fluid (add_property ''avhat''),
       on_fluid (add_property ''au''),
       on_fluid (add_property ''av''),
       on_fluid (add_property ''aw''),
       on_fluid (add_property ''rho0''),
       on_fluid (add_property ''p0''),
       on_solid (add_property ''wij''),
       on_solid (add_property ''u0''),
       on_solid (add_property ''v0'') ]"

text \<open>A store is well formed when the properties of each object have distinct names, every
  address is the address of an array, and no address is held twice, by one object or by
  two.\<close>
definition store_ok :: "store \<Rightarrow> bool" where
  "store_ok st \<longleftrightarrow>
     list_all (\<lambda>ob. distinct (map fst (obj_arrays ob)) \<and>
                     list_all (\<lambda>a. a < length (arrays st)) (map snd (obj_arrays ob))) (objects st) \<and>
     distinct (concat (map (\<lambda>ob. map snd (obj_arrays ob)) (objects st)))"

text \<open>Two sets have the same properties.\<close>
definition same_keys :: "particle_array \<Rightarrow> particle_array \<Rightarrow> bool" where
  "same_keys p q \<longleftrightarrow> (\<forall>k. properties q k = None \<longleftrightarrow> properties p k = None)"

text \<open>The store after line 59, after the call of \<^verbatim>\<open>extract_particles\<close> and after the call of
  \<^verbatim>\<open>set_name\<close> of line 62, after line 63, and after line 71.\<close>
definition heap1 :: "(string \<times> real) list \<Rightarrow> real list \<Rightarrow> real list \<Rightarrow> store" where
  "heap1 base ax ay =
     snd (alloc (remdups (''x'' # ''y'' # map fst base)) (orig_solid base ax ay) \<lparr>objects = [], arrays = []\<rparr>)"

definition heap2 :: "(string \<times> real) list \<Rightarrow> real list \<Rightarrow> real list \<Rightarrow> store" where
  "heap2 base ax ay =
     snd (alloc (remdups (''x'' # ''y'' # map fst base)) (extracted base ax ay) (heap1 base ax ay))"

definition heap3 :: "(string \<times> real) list \<Rightarrow> real list \<Rightarrow> real list \<Rightarrow> store" where
  "heap3 base ax ay = store_back 1 ((extracted base ax ay)\<lparr>name := ''fluid''\<rparr>) (heap2 base ax ay)"

definition heap4 :: "(string \<times> real) list \<Rightarrow> real list \<Rightarrow> real list \<Rightarrow> store" where
  "heap4 base ax ay = store_back 0 (made_solid base ax ay) (heap3 base ax ay)"

definition heap5 :: "(string \<times> real) list \<Rightarrow> real list \<Rightarrow> real list \<Rightarrow> store" where
  "heap5 base ax ay = store_back 1 (made_fluid base ax ay) (heap4 base ax ay)"

section \<open>Lemmas\<close>

subsection \<open>Every method and statement keeps the invariant\<close>

lemma consistent_get_particle_array:
  "get_particle_array base nm given = Inr p \<Longrightarrow> consistent p"
  by (auto simp: get_particle_array_def consistent_def Let_def map_add_def list_all_iff
           split: if_splits option.splits dest!: map_of_SomeD)

lemma consistent_add_property: "keeps_consistent (add_property k)"
  by (auto simp: keeps_consistent_def add_property_def consistent_def split: option.splits if_splits)

lemma consistent_extract_particles: "extract_particles idx p = Inr q \<Longrightarrow> consistent q"
  by (auto simp: extract_particles_def consistent_def split: if_splits)

lemma length_remaining:
  "length (remaining idx arr) = length (filter (\<lambda>i. i \<notin> set idx) [0..<length arr])"
  by (simp add: remaining_def)

lemma consistent_remove_particles: "keeps_consistent (remove_particles idx)"
  by (auto simp: keeps_consistent_def remove_particles_def consistent_def length_remaining split: if_splits)

lemma consistent_set_name: "keeps_consistent (set_name nm)"
  by (auto simp: keeps_consistent_def set_name_def consistent_def)

lemma length_seed_loop: "length (seed_loop js x y rho) = length rho"
  by (induction js arbitrary: rho) simp_all

lemma consistent_seed_density: "keeps_consistent seed_density"
  by (auto simp: keeps_consistent_def seed_density_def consistent_def Let_def length_seed_loop
           split: option.splits if_splits)

lemma consistent_set_slice: "keeps_consistent (set_slice k vals)"
  by (auto simp: keeps_consistent_def set_slice_def consistent_def split: option.splits if_splits)

lemma consistent_fill_slice: "keeps_consistent (fill_slice k c)"
  by (auto simp: keeps_consistent_def fill_slice_def consistent_def split: option.splits if_splits)

lemma consistent_assign_from: "keeps_consistent (assign_from k f src)"
  using consistent_set_slice
  by (auto simp: keeps_consistent_def assign_from_def get_attr_def split: option.splits sum.splits)

lemma keeps_frame_new_fluid: "(\<And>p. r = Inr p \<Longrightarrow> consistent p) \<Longrightarrow> keeps_frame (new_fluid r)"
  by (auto simp: keeps_frame_def new_fluid_def frame_consistent_def split: sum.splits option.splits)

lemma keeps_frame_new_solid: "(\<And>p. r = Inr p \<Longrightarrow> consistent p) \<Longrightarrow> keeps_frame (new_solid r)"
  by (auto simp: keeps_frame_def new_solid_def frame_consistent_def split: sum.splits option.splits)

lemma keeps_frame_fluid_from_solid:
  "(\<And>p q. f p = Inr q \<Longrightarrow> consistent q) \<Longrightarrow> keeps_frame (fluid_from_solid f)"
  by (auto simp: keeps_frame_def fluid_from_solid_def frame_consistent_def split: sum.splits option.splits)

lemma keeps_frame_on_fluid: "keeps_consistent f \<Longrightarrow> keeps_frame (on_fluid f)"
  by (auto simp: keeps_frame_def keeps_consistent_def on_fluid_def frame_consistent_def
           split: sum.splits option.splits)

lemma keeps_frame_on_solid: "keeps_consistent f \<Longrightarrow> keeps_frame (on_solid f)"
  by (auto simp: keeps_frame_def keeps_consistent_def on_solid_def frame_consistent_def
           split: sum.splits option.splits)

lemma trace_consistent:
  "list_all keeps_frame sts \<Longrightarrow> frame_consistent s \<Longrightarrow> list_all frame_consistent (trace sts s)"
proof (induction sts arbitrary: s)
  case Nil
  then show ?case by simp
next
  case (Cons st sts)
  show ?case
  proof (cases "st s")
    case (Inl e)
    with Cons.prems show ?thesis by simp
  next
    case (Inr t)
    with Cons.prems have "frame_consistent t" by (auto simp: keeps_frame_def)
    with Cons Inr show ?thesis by simp
  qed
qed

lemma keeps_frame_get_fluid: "keeps_frame (new_fluid (get_particle_array base nm given))"
  by (rule keeps_frame_new_fluid) (rule consistent_get_particle_array)

lemma keeps_frame_get_solid: "keeps_frame (new_solid (get_particle_array base nm given))"
  by (rule keeps_frame_new_solid) (rule consistent_get_particle_array)

lemma keeps_frame_extract: "keeps_frame (fluid_from_solid (extract_particles idx))"
  by (rule keeps_frame_fluid_from_solid) (rule consistent_extract_particles)

lemmas keeps_intros =
  keeps_frame_on_fluid keeps_frame_on_solid keeps_frame_get_fluid keeps_frame_get_solid
  keeps_frame_extract consistent_add_property
  consistent_remove_particles consistent_set_name
  consistent_seed_density consistent_fill_slice consistent_assign_from

lemma program_keeps_frame: "list_all keeps_frame (program base ax ay is_empty)"
  by (auto simp: program_def make_sets_def add_properties_def set_values_def Let_def
           intro!: keeps_intros)

subsection \<open>The loops in closed form\<close>

lemma seed_loop_snoc:
  "seed_loop (js @ [j]) x y rho =
     (seed_loop js x y rho)[j := (if heavy (x ! j) (y ! j) then rho1 else rho2)]"
  by (induction js arbitrary: rho) simp_all

lemma seed_loop_upt:
  "n \<le> length rho \<Longrightarrow>
   seed_loop [0..<n] x y rho =
     map (\<lambda>i. if heavy (x ! i) (y ! i) then rho1 else rho2) [0..<n] @ drop n rho"
proof (induction n)
  case 0
  then show ?case by simp
next
  case (Suc n)
  then have n: "n < length rho" by simp
  have "seed_loop [0..<Suc n] x y rho =
        (seed_loop [0..<n] x y rho)[n := (if heavy (x ! n) (y ! n) then rho1 else rho2)]"
    by (simp add: seed_loop_snoc)
  also have "\<dots> = (map (\<lambda>i. if heavy (x ! i) (y ! i) then rho1 else rho2) [0..<n] @ drop n rho)
                     [n := (if heavy (x ! n) (y ! n) then rho1 else rho2)]"
    using Suc by simp
  also have "\<dots> = map (\<lambda>i. if heavy (x ! i) (y ! i) then rho1 else rho2) [0..<Suc n] @ drop (Suc n) rho"
  proof -
    have d: "drop n rho = rho ! n # drop (Suc n) rho"
      using n by (simp add: Cons_nth_drop_Suc)
    show ?thesis by (simp add: list_update_append d)
  qed
  finally show ?case .
qed

lemma map_upt_zip:
  "length x = n \<Longrightarrow> length y = n \<Longrightarrow> map (\<lambda>i. f (x ! i) (y ! i)) [0..<n] = map (\<lambda>(a, b). f a b) (zip x y)"
  by (rule nth_equalityI) simp_all

lemma map_nth_filter:
  "map (\<lambda>i. xs ! i) (filter (\<lambda>i. P (xs ! i)) [0..<length xs]) = filter P xs"
proof -
  have "filter P (map (\<lambda>i. xs ! i) [0..<length xs]) = map (\<lambda>i. xs ! i) (filter (P \<circ> (\<lambda>i. xs ! i)) [0..<length xs])"
    by (rule filter_map)
  then show ?thesis by (simp add: map_nth comp_def)
qed

lemma set_indices: "set (indices x y) = {i. i < length x \<and> inside (x ! i) (y ! i)}"
  by (auto simp: indices_def)

lemma distinct_indices: "distinct (indices x y)"
  by (simp add: indices_def)

lemma indices_in_range: "list_all (\<lambda>i. i < length x) (indices x y)"
  by (simp add: indices_def list_all_iff)

lemma zip_extracted:
  "length x = length y \<Longrightarrow>
   zip (map (\<lambda>i. x ! i) (indices x y)) (map (\<lambda>i. y ! i) (indices x y)) =
     filter (\<lambda>(a, b). inside a b) (zip x y)"
proof -
  assume len: "length x = length y"
  have "zip (map (\<lambda>i. x ! i) (indices x y)) (map (\<lambda>i. y ! i) (indices x y)) =
        map (\<lambda>i. (x ! i, y ! i)) (indices x y)"
    by (simp add: zip_map_map) (simp add: zip_same_conv_map)
  also have "\<dots> = map (\<lambda>i. zip x y ! i) (filter (\<lambda>i. (\<lambda>(a, b). inside a b) (zip x y ! i)) [0..<length (zip x y)])"
    using len by (auto simp: indices_def intro!: map_cong filter_cong)
  also have "\<dots> = filter (\<lambda>(a, b). inside a b) (zip x y)"
    by (rule map_nth_filter)
  finally show ?thesis .
qed

lemma zip_remaining:
  "length x = length y \<Longrightarrow>
   zip (remaining (indices x y) x) (remaining (indices x y) y) =
     filter (\<lambda>(a, b). \<not> inside a b) (zip x y)"
proof -
  assume len: "length x = length y"
  have "zip (remaining (indices x y) x) (remaining (indices x y) y) =
        map (\<lambda>i. (x ! i, y ! i)) (filter (\<lambda>i. i \<notin> set (indices x y)) [0..<length x])"
    using len by (simp add: remaining_def zip_map_map) (simp add: zip_same_conv_map)
  also have "\<dots> = map (\<lambda>i. zip x y ! i) (filter (\<lambda>i. (\<lambda>(a, b). \<not> inside a b) (zip x y ! i)) [0..<length (zip x y)])"
    using len by (auto simp: set_indices intro!: map_cong filter_cong)
  also have "\<dots> = filter (\<lambda>(a, b). \<not> inside a b) (zip x y)"
    by (rule map_nth_filter)
  finally show ?thesis .
qed

lemma length_meshgrid: "length (fst (meshgrid xs ys)) = length (snd (meshgrid xs ys))"
  by (induction ys) (simp_all add: meshgrid_def)

lemma length_grid: "length (grid_y ax ay) = length (grid_x ax ay)"
  by (simp add: grid_x_def grid_y_def length_meshgrid)

subsection \<open>The run of the statements in closed form\<close>

lemma run_append:
  "run (a @ b) s = (case run a s of Inl e \<Rightarrow> Inl e | Inr t \<Rightarrow> run b t)"
  by (induction a arbitrary: s) (simp_all split: sum.splits)

lemma run_add_properties:
  assumes "list_all (\<lambda>k. properties F k = None) fluid_extras"
    and "list_all (\<lambda>k. properties S k = None) solid_extras"
    and "properties F ''rho'' = Some rho" and "length rho = num_particles F"
  shows "run add_properties \<lparr>fluid = Some F, solid = Some S\<rparr> =
           Inr \<lparr>fluid = Some (fluid_added F rho), solid = Some (solid_added S)\<rparr>"
  using assms
  by (simp add: fluid_extras_def solid_extras_def add_properties_def on_fluid_def on_solid_def
        add_property_def assign_from_def get_attr_def set_slice_def fluid_added_def
        solid_added_def zeros_def)

lemma map_const_replicate: "length xs = n \<Longrightarrow> map (\<lambda>_. c) xs = replicate n c"
  by (simp add: map_replicate_const)

lemma run_set_values:
  assumes "consistent F" "consistent S"
    and "properties F ''rho'' = Some rho"
    and "properties F ''m'' \<noteq> None" "properties F ''V'' \<noteq> None" "properties F ''h'' \<noteq> None"
    and "properties S ''V'' \<noteq> None" "properties S ''h'' \<noteq> None"
  shows "run set_values \<lparr>fluid = Some F, solid = Some S\<rparr> =
           Inr \<lparr>fluid = Some (fluid_valued F rho), solid = Some (solid_valued S)\<rparr>"
  using assms
  by (auto simp: consistent_def set_values_def on_fluid_def on_solid_def Let_def
        assign_from_def get_attr_def set_slice_def fill_slice_def fluid_valued_def
        solid_valued_def map_const_replicate)

lemma run_make_sets_True:
  "run (make_sets base ax ay True) init =
     Inr \<lparr>fluid = Some (empty_set base ''fluid''), solid = Some (empty_set base ''solid'')\<rparr>"
proof -
  have e: "replicate 0 = (\<lambda>d::real. [])"
    by (rule ext) simp
  show ?thesis
    by (simp add: make_sets_def init_def new_fluid_def new_solid_def get_particle_array_def empty_set_def e)
qed

lemma get_orig_solid:
  "get_particle_array base ''solid'' [(''x'', grid_x ax ay), (''y'', grid_y ax ay)] = Inr (orig_solid base ax ay)"
  by (simp add: get_particle_array_def orig_solid_def length_grid Let_def)

lemma extract_orig_solid:
  "extract_particles (indices (grid_x ax ay) (grid_y ax ay)) (orig_solid base ax ay) = Inr (extracted base ax ay)"
  using indices_in_range [of "grid_x ax ay" "grid_y ax ay"]
  by (simp add: extract_particles_def extracted_def to_extract_def orig_solid_def)

lemma remove_orig_solid:
  "remove_particles (indices (grid_x ax ay) (grid_y ax ay)) (orig_solid base ax ay) = Inr (made_solid base ax ay)"
  using indices_in_range [of "grid_x ax ay" "grid_y ax ay"]
  by (simp add: remove_particles_def made_solid_def to_extract_def orig_solid_def)

lemma run_take1:
  "run (take 1 (make_sets base ax ay False)) init = Inr \<lparr>fluid = None, solid = Some (orig_solid base ax ay)\<rparr>"
  by (simp add: make_sets_def init_def new_solid_def get_orig_solid)

lemma run_take2:
  "run (take 2 (make_sets base ax ay False)) init =
     Inr \<lparr>fluid = Some (extracted base ax ay), solid = Some (orig_solid base ax ay)\<rparr>"
  by (simp add: make_sets_def init_def new_solid_def get_orig_solid fluid_from_solid_def extract_orig_solid)

lemma run_take3:
  "run (take 3 (make_sets base ax ay False)) init =
     Inr \<lparr>fluid = Some ((extracted base ax ay)\<lparr>name := ''fluid''\<rparr>), solid = Some (orig_solid base ax ay)\<rparr>"
  by (simp add: make_sets_def init_def new_solid_def get_orig_solid fluid_from_solid_def extract_orig_solid
      on_fluid_def set_name_def)

lemma run_take4:
  "run (take 4 (make_sets base ax ay False)) init =
     Inr \<lparr>fluid = Some ((extracted base ax ay)\<lparr>name := ''fluid''\<rparr>), solid = Some (made_solid base ax ay)\<rparr>"
  by (simp add: make_sets_def init_def new_solid_def get_orig_solid fluid_from_solid_def extract_orig_solid
      on_fluid_def set_name_def on_solid_def remove_orig_solid)

lemma length_to_extract: "length (filter (\<lambda>(a, b). inside a b) (zip (grid_x ax ay) (grid_y ax ay))) = length (to_extract ax ay)"
proof -
  have "length (zip (map (\<lambda>i. grid_x ax ay ! i) (to_extract ax ay)) (map (\<lambda>i. grid_y ax ay ! i) (to_extract ax ay))) = length (to_extract ax ay)"
    by simp
  then show ?thesis
    by (simp only: to_extract_def zip_extracted [OF length_grid [symmetric]])
qed

lemma seed_extracted:
  assumes "map_of base ''rho'' \<noteq> None"
  shows "seed_density ((extracted base ax ay)\<lparr>name := ''fluid''\<rparr>) = Inr (made_fluid base ax ay)"
proof -
  from assms obtain d where d: "map_of base ''rho'' = Some d" by auto
  let ?fx = "map (\<lambda>i. grid_x ax ay ! i) (to_extract ax ay)" and ?fy = "map (\<lambda>i. grid_y ax ay ! i) (to_extract ax ay)"
  let ?n = "length (to_extract ax ay)"
  have "seed_loop [0..<?n] ?fx ?fy (map (\<lambda>i. replicate (length (grid_x ax ay)) d ! i) (to_extract ax ay)) =
        map (\<lambda>i. if heavy (?fx ! i) (?fy ! i) then rho1 else rho2) [0..<?n]"
    by (simp add: seed_loop_upt)
  also have "\<dots> = map (\<lambda>(a, b). if heavy a b then rho1 else rho2) (zip ?fx ?fy)"
    by (rule map_upt_zip) simp_all
  also have "\<dots> = (seeded ax ay)"
    by (simp only: seeded_def to_extract_def zip_extracted [OF length_grid [symmetric]])
  finally show ?thesis
    using d by (simp add: seed_density_def get_number_of_particles_def extracted_def orig_solid_def
        made_fluid_def map_add_def)
qed

lemma run_make_sets_False:
  assumes "map_of base ''rho'' \<noteq> None"
  shows "run (make_sets base ax ay False) init = Inr \<lparr>fluid = Some (made_fluid base ax ay), solid = Some (made_solid base ax ay)\<rparr>"
  by (simp add: make_sets_def init_def new_solid_def get_orig_solid fluid_from_solid_def extract_orig_solid
      on_fluid_def set_name_def on_solid_def remove_orig_solid seed_extracted [OF assms])

lemma run_consistent:
  "list_all keeps_frame sts \<Longrightarrow> frame_consistent s \<Longrightarrow> run sts s = Inr t \<Longrightarrow> frame_consistent t"
proof (induction sts arbitrary: s)
  case Nil
  then show ?case by simp
next
  case (Cons st sts)
  then show ?case
    by (cases "st s") (auto simp: keeps_frame_def)
qed

lemma frame_consistent_init: "frame_consistent init"
  by (simp add: frame_consistent_def init_def)

lemma base_okD:
  assumes "base_ok base"
  shows "map_of base ''rho'' \<noteq> None" "map_of base ''m'' \<noteq> None" "map_of base ''h'' \<noteq> None"
    "map_of base ''V'' = None" "map_of base ''uhat'' = None" "map_of base ''vhat'' = None"
    "map_of base ''auhat'' = None" "map_of base ''avhat'' = None" "map_of base ''au'' = None"
    "map_of base ''av'' = None" "map_of base ''aw'' = None" "map_of base ''rho0'' = None"
    "map_of base ''p0'' = None" "map_of base ''wij'' = None" "map_of base ''u0'' = None"
    "map_of base ''v0'' = None"
  using assms by (simp_all add: base_ok_def fluid_extras_def solid_extras_def)

lemma length_seeded: "length (seeded ax ay) = length (to_extract ax ay)"
  by (simp add: seeded_def length_to_extract)

lemma run_added_False:
  assumes "base_ok base"
  shows "run (make_sets base ax ay False @ add_properties) init =
           Inr \<lparr>fluid = Some (fluid_added (made_fluid base ax ay) (seeded ax ay)),
                solid = Some (solid_added (made_solid base ax ay))\<rparr>"
proof -
  note b = base_okD [OF assms]
  have 1: "list_all (\<lambda>k. properties (made_fluid base ax ay) k = None) fluid_extras"
    using b by (simp add: fluid_extras_def made_fluid_def extracted_def orig_solid_def map_add_def)
  have 2: "list_all (\<lambda>k. properties (made_solid base ax ay) k = None) solid_extras"
    using b by (simp add: solid_extras_def made_solid_def orig_solid_def map_add_def)
  have 3: "properties (made_fluid base ax ay) ''rho'' = Some (seeded ax ay)"
    by (simp add: made_fluid_def)
  have 4: "length (seeded ax ay) = num_particles (made_fluid base ax ay)"
    by (simp add: made_fluid_def extracted_def length_seeded)
  show ?thesis
    by (simp add: run_append run_make_sets_False [OF b(1)] run_add_properties [OF 1 2 3 4])
qed

lemma run_program_False:
  assumes "base_ok base"
  shows "run (program base ax ay False) init =
           Inr \<lparr>fluid = Some (final_fluid base ax ay), solid = Some (final_solid base ax ay)\<rparr>"
proof -
  note b = base_okD [OF assms]
  let ?F = "fluid_added (made_fluid base ax ay) (seeded ax ay)" and ?S = "solid_added (made_solid base ax ay)"
  have "list_all keeps_frame (make_sets base ax ay False @ add_properties)"
    using program_keeps_frame [of base ax ay False] by (simp add: program_def)
  from run_consistent [OF this frame_consistent_init run_added_False [OF assms]]
  have c: "consistent ?F" "consistent ?S"
    by (simp_all add: frame_consistent_def)
  have r: "properties ?F ''rho'' = Some (seeded ax ay)"
    by (simp add: fluid_added_def made_fluid_def)
  have p: "properties ?F ''m'' \<noteq> None" "properties ?F ''V'' \<noteq> None" "properties ?F ''h'' \<noteq> None"
    "properties ?S ''V'' \<noteq> None" "properties ?S ''h'' \<noteq> None"
    using b by (auto simp: fluid_added_def solid_added_def made_fluid_def made_solid_def extracted_def
        orig_solid_def map_add_def)
  have "run (program base ax ay False) init =
        (case run (make_sets base ax ay False @ add_properties) init of Inl e \<Rightarrow> Inl e | Inr t \<Rightarrow> run set_values t)"
    by (simp add: program_def run_append split: sum.splits)
  then show ?thesis
    by (simp add: run_added_False [OF assms] run_set_values [OF c r p] final_fluid_def final_solid_def)
qed

lemma create_particles_False:
  "base_ok base \<Longrightarrow> create_particles base ax ay False = Inr [final_fluid base ax ay, final_solid base ax ay]"
  using run_program_False [of base] by (simp add: create_particles_def)

lemma run_program_True:
  assumes "base_ok base"
  shows "run (program base ax ay True) init =
           Inr \<lparr>fluid = Some (fluid_added (empty_set base ''fluid'') []),
                solid = Some (solid_added (empty_set base ''solid''))\<rparr>"
proof -
  note b = base_okD [OF assms]
  have 1: "list_all (\<lambda>k. properties (empty_set base ''fluid'') k = None) fluid_extras"
    using b by (simp add: fluid_extras_def empty_set_def)
  have 2: "list_all (\<lambda>k. properties (empty_set base ''solid'') k = None) solid_extras"
    using b by (simp add: solid_extras_def empty_set_def)
  have 3: "properties (empty_set base ''fluid'') ''rho'' = Some []"
    using b by (auto simp add: empty_set_def)
  have 4: "length ([]::real list) = num_particles (empty_set base ''fluid'')"
    by (simp add: empty_set_def)
  show ?thesis
    by (simp add: program_def run_append run_make_sets_True run_add_properties [OF 1 2 3 4])
qed

lemma create_particles_True:
  "base_ok base \<Longrightarrow>
   create_particles base ax ay True =
     Inr [fluid_added (empty_set base ''fluid'') [], solid_added (empty_set base ''solid'')]"
  using run_program_True [of base] by (simp add: create_particles_def)

subsection \<open>The grid has points inside and outside the domain\<close>

lemma zip_meshgrid_set:
  "set (zip (fst (meshgrid xs ys)) (snd (meshgrid xs ys))) = set xs \<times> set ys"
proof (induction ys)
  case Nil
  then show ?case by (simp add: meshgrid_def)
next
  case (Cons yv ys)
  have "set (zip xs (map (\<lambda>xv. yv) xs)) = set xs \<times> {yv}"
    by (induction xs) auto
  with Cons show ?case
    by (auto simp: meshgrid_def)
qed

lemma grid_point:
  assumes "xv \<in> set ax" and "yv \<in> set ay"
  shows "(xv, yv) \<in> set (zip (grid_x ax ay) (grid_y ax ay))"
  using assms by (simp add: grid_x_def grid_y_def zip_meshgrid_set)

lemma to_extract_nonempty:
  assumes "xv \<in> set ax" and "yv \<in> set ay" and "inside xv yv"
  shows "0 < length (to_extract ax ay)"
proof -
  from assms have "(xv, yv) \<in> set (filter (\<lambda>(a, b). inside a b) (zip (grid_x ax ay) (grid_y ax ay)))"
    by (simp add: grid_point)
  then have "filter (\<lambda>(a, b). inside a b) (zip (grid_x ax ay) (grid_y ax ay)) \<noteq> []"
    by (metis empty_iff empty_set)
  then show ?thesis by (simp flip: length_to_extract)
qed

subsection \<open>The arrays of the sets returned\<close>

lemma final_fluid_xy:
  "properties (final_fluid base ax ay) ''x'' = Some (map (\<lambda>i. grid_x ax ay ! i) (to_extract ax ay))"
  "properties (final_fluid base ax ay) ''y'' = Some (map (\<lambda>i. grid_y ax ay ! i) (to_extract ax ay))"
  by (simp_all add: final_fluid_def fluid_valued_def fluid_added_def made_fluid_def extracted_def
      orig_solid_def map_add_def)

lemma final_solid_xy:
  "properties (final_solid base ax ay) ''x'' = Some (remaining (to_extract ax ay) (grid_x ax ay))"
  "properties (final_solid base ax ay) ''y'' = Some (remaining (to_extract ax ay) (grid_y ax ay))"
  by (simp_all add: final_solid_def solid_valued_def solid_added_def made_solid_def
      orig_solid_def map_add_def)

lemma final_fluid_rho: "properties (final_fluid base ax ay) ''rho'' = Some (seeded ax ay)"
  by (simp add: final_fluid_def fluid_valued_def fluid_added_def made_fluid_def)

lemma num_final_fluid: "num_particles (final_fluid base ax ay) = length (to_extract ax ay)"
  by (simp add: final_fluid_def fluid_valued_def fluid_added_def made_fluid_def extracted_def)

lemma num_final_solid:
  "num_particles (final_solid base ax ay) = length (filter (\<lambda>i. i \<notin> set (to_extract ax ay)) [0..<length (grid_x ax ay)])"
  by (simp add: final_solid_def solid_valued_def solid_added_def made_solid_def orig_solid_def)

lemma fluid_points:
  "zip (map (\<lambda>i. grid_x ax ay ! i) (to_extract ax ay)) (map (\<lambda>i. grid_y ax ay ! i) (to_extract ax ay)) =
     filter (\<lambda>(a, b). inside a b) (zip (grid_x ax ay) (grid_y ax ay))"
  unfolding to_extract_def by (rule zip_extracted) (simp add: length_grid)

lemma solid_points:
  "zip (remaining (to_extract ax ay) (grid_x ax ay)) (remaining (to_extract ax ay) (grid_y ax ay)) =
     filter (\<lambda>(a, b). \<not> inside a b) (zip (grid_x ax ay) (grid_y ax ay))"
  unfolding to_extract_def by (rule zip_remaining) (simp add: length_grid)

lemma inside_concrete: "inside a b \<longleftrightarrow> 0 < a \<and> a < 1 \<and> 0 < b \<and> b < 2"
  by (auto simp: inside_def Lx_def Ly_def)

lemma base_ok_zero_base: "base_ok zero_base"
  by (simp add: base_ok_def zero_base_def fluid_extras_def solid_extras_def)

lemma final_fluid_props:
  "properties (final_fluid base ax ay) ''m'' = Some (map (\<lambda>r. dx * dx * r) (seeded ax ay))"
  "properties (final_fluid base ax ay) ''h'' = Some (replicate (length (to_extract ax ay)) (hdx * dx))"
  "properties (final_fluid base ax ay) ''V'' = Some (replicate (length (to_extract ax ay)) (1 / (dx * dx)))"
  "properties (final_fluid base ax ay) ''rho0'' = Some (seeded ax ay)"
  "properties (final_fluid base ax ay) ''p0'' = Some (map (\<lambda>r. c0 ^ 2 / r) (seeded ax ay))"
  by (simp_all add: final_fluid_def fluid_valued_def fluid_added_def made_fluid_def extracted_def)

lemma final_solid_props:
  "properties (final_solid base ax ay) ''h'' =
     Some (replicate (length (filter (\<lambda>i. i \<notin> set (to_extract ax ay)) [0..<length (grid_x ax ay)])) (hdx * dx))"
  "properties (final_solid base ax ay) ''V'' =
     Some (replicate (length (filter (\<lambda>i. i \<notin> set (to_extract ax ay)) [0..<length (grid_x ax ay)])) (1 / (dx * dx)))"
  by (simp_all add: final_solid_def solid_valued_def solid_added_def made_solid_def orig_solid_def)

lemma seeded_nonzero: "r \<in> set (seeded ax ay) \<Longrightarrow> r \<noteq> 0"
  by (auto simp: seeded_def rho1_def rho2_def split: if_splits)

lemma Umax_eq: "Umax = 2"
  by (simp add: Umax_def gy_def Ly_def)

lemma c0_sq: "c0 ^ 2 = 400"
  by (simp add: c0_def Umax_eq)

lemma num_final_solid_points:
  "num_particles (final_solid base ax ay) =
     length (filter (\<lambda>(a, b). \<not> inside a b) (zip (grid_x ax ay) (grid_y ax ay)))"
proof -
  have "length (zip (remaining (to_extract ax ay) (grid_x ax ay)) (remaining (to_extract ax ay) (grid_y ax ay))) =
        num_particles (final_solid base ax ay)"
    by (simp add: num_final_solid length_remaining length_grid)
  then show ?thesis by (simp only: solid_points)
qed

lemma final_solid_nonempty:
  assumes "xv \<in> set ax" and "yv \<in> set ay" and "\<not> inside xv yv"
  shows "0 < num_particles (final_solid base ax ay)"
proof -
  from assms have "(xv, yv) \<in> set (filter (\<lambda>(a, b). \<not> inside a b) (zip (grid_x ax ay) (grid_y ax ay)))"
    by (simp add: grid_point)
  then have "filter (\<lambda>(a, b). \<not> inside a b) (zip (grid_x ax ay) (grid_y ax ay)) \<noteq> []"
    by (metis empty_iff empty_set)
  then show ?thesis by (simp add: num_final_solid_points)
qed

lemma final_fluid_zero:
  "list_all (\<lambda>k. properties (final_fluid base ax ay) k = Some (replicate (num_particles (final_fluid base ax ay)) 0))
     [''uhat'', ''vhat'', ''au'', ''av'', ''aw'', ''auhat'', ''avhat'']"
  by (simp add: final_fluid_def fluid_valued_def fluid_added_def made_fluid_def extracted_def zeros_def)

lemma final_solid_zero:
  "list_all (\<lambda>k. properties (final_solid base ax ay) k = Some (replicate (num_particles (final_solid base ax ay)) 0))
     [''uhat'', ''vhat'', ''wij'', ''u0'', ''v0'']"
  by (simp add: final_solid_def solid_valued_def solid_added_def made_solid_def orig_solid_def zeros_def)

lemma run_declare_properties:
  assumes "list_all (\<lambda>k. properties F k = None) fluid_extras"
    and "list_all (\<lambda>k. properties S k = None) solid_extras"
    and "num_particles F = 0"
  shows "run declare_properties \<lparr>fluid = Some F, solid = Some S\<rparr> =
           Inr \<lparr>fluid = Some (fluid_added F []), solid = Some (solid_added S)\<rparr>"
  using assms
  by (simp add: fluid_extras_def solid_extras_def declare_properties_def on_fluid_def on_solid_def
        add_property_def fluid_added_def solid_added_def zeros_def)

lemma run_declare_True:
  assumes "base_ok base"
  shows "run (make_sets base ax ay True @ declare_properties) init =
           Inr \<lparr>fluid = Some (fluid_added (empty_set base ''fluid'') []),
                solid = Some (solid_added (empty_set base ''solid''))\<rparr>"
proof -
  note b = base_okD [OF assms]
  have 1: "list_all (\<lambda>k. properties (empty_set base ''fluid'') k = None) fluid_extras"
    using b by (simp add: fluid_extras_def empty_set_def)
  have 2: "list_all (\<lambda>k. properties (empty_set base ''solid'') k = None) solid_extras"
    using b by (simp add: solid_extras_def empty_set_def)
  have 3: "num_particles (empty_set base ''fluid'') = 0"
    by (simp add: empty_set_def)
  show ?thesis
    by (simp add: run_append run_make_sets_True run_declare_properties [OF 1 2 3])
qed

lemma empty_fluid_props:
  "properties (fluid_added (empty_set base ''fluid'') []) =
     (\<lambda>k. if map_of base k = None \<and>
              k \<notin> set [''V'', ''uhat'', ''vhat'', ''auhat'', ''avhat'', ''au'', ''av'', ''aw'', ''rho0'', ''p0'']
           then None else Some [])"
  by (rule ext) (auto simp: fluid_added_def empty_set_def zeros_def)

lemma empty_solid_props:
  "properties (solid_added (empty_set base ''solid'')) =
     (\<lambda>k. if map_of base k = None \<and> k \<notin> set [''V'', ''uhat'', ''vhat'', ''wij'', ''u0'', ''v0'']
           then None else Some [])"
  by (rule ext) (auto simp: solid_added_def empty_set_def zeros_def)

lemma final_fluid_extras:
  "list_all (\<lambda>k. properties (final_fluid base ax ay) k \<noteq> None)
     [''V'', ''uhat'', ''vhat'', ''auhat'', ''avhat'', ''au'', ''av'', ''aw'', ''rho0'', ''p0'']"
  by (simp add: final_fluid_def fluid_valued_def fluid_added_def)

lemma final_solid_extras:
  "list_all (\<lambda>k. properties (final_solid base ax ay) k \<noteq> None)
     [''V'', ''uhat'', ''vhat'', ''wij'', ''u0'', ''v0'']"
  by (simp add: final_solid_def solid_valued_def solid_added_def)

subsection \<open>Extracting and removing rows\<close>

lemma mset_in_range:
  assumes "distinct idx" and "list_all (\<lambda>i. i < n) idx"
  shows "mset idx = mset (filter (\<lambda>i. i \<in> set idx) [0..<n])"
proof -
  have "set idx = set (filter (\<lambda>i. i \<in> set idx) [0..<n])"
    using assms(2) by (auto simp: list_all_iff)
  moreover have "distinct (filter (\<lambda>i. i \<in> set idx) [0..<n])" by simp
  ultimately show ?thesis
    using assms(1) by (simp only: set_eq_iff_mset_eq_distinct)
qed

lemma mset_extract_remaining:
  assumes "distinct idx" and "list_all (\<lambda>i. i < length arr) idx"
  shows "mset (map (\<lambda>i. arr ! i) idx) + mset (remaining idx arr) = mset arr"
proof -
  let ?U = "[0..<length arr]"
  have "mset (map (\<lambda>i. arr ! i) idx) + mset (remaining idx arr) =
        image_mset (\<lambda>i. arr ! i) (mset (filter (\<lambda>i. i \<in> set idx) ?U) + mset (filter (\<lambda>i. i \<notin> set idx) ?U))"
    by (simp add: remaining_def mset_in_range [OF assms])
  also have "\<dots> = image_mset (\<lambda>i. arr ! i) (mset ?U)"
    by (simp only: mset_filter multiset_partition [symmetric])
  also have "\<dots> = mset arr"
    by (simp only: mset_map [symmetric] map_nth)
  finally show ?thesis .
qed

lemma length_extract_remaining:
  assumes "distinct idx" and "list_all (\<lambda>i. i < n) idx"
  shows "length idx + length (filter (\<lambda>i. i \<notin> set idx) [0..<n]) = n"
proof -
  have "length idx = length (filter (\<lambda>i. i \<in> set idx) [0..<n])"
    using mset_in_range [OF assms] by (rule mset_eq_length)
  then show ?thesis
    using sum_length_filter_compl [of "\<lambda>i. i \<in> set idx" "[0..<n]"] by simp
qed

lemma sum_extract_remaining:
  fixes arr :: "real list"
  assumes "distinct idx" and "list_all (\<lambda>i. i < length arr) idx"
  shows "sum_list (map (\<lambda>i. arr ! i) idx) + sum_list (remaining idx arr) = sum_list arr"
proof -
  have "sum_mset (mset (map (\<lambda>i. arr ! i) idx) + mset (remaining idx arr)) = sum_mset (mset arr)"
    by (simp only: mset_extract_remaining [OF assms])
  then show ?thesis by (simp only: sum_mset.union sum_mset_sum_list)
qed

lemma take_program:
  "take 1 (program base ax ay False) = take 1 (make_sets base ax ay False)"
  "take 2 (program base ax ay False) = take 2 (make_sets base ax ay False)"
  "take 3 (program base ax ay False) = take 3 (make_sets base ax ay False)"
  "take 4 (program base ax ay False) = take 4 (make_sets base ax ay False)"
  by (simp_all add: program_def make_sets_def)

lemma run_program_take:
  "run (take 1 (program base ax ay False)) init = Inr \<lparr>fluid = None, solid = Some (orig_solid base ax ay)\<rparr>"
  "run (take 2 (program base ax ay False)) init =
     Inr \<lparr>fluid = Some (extracted base ax ay), solid = Some (orig_solid base ax ay)\<rparr>"
  "run (take 3 (program base ax ay False)) init =
     Inr \<lparr>fluid = Some ((extracted base ax ay)\<lparr>name := ''fluid''\<rparr>), solid = Some (orig_solid base ax ay)\<rparr>"
  "run (take 4 (program base ax ay False)) init =
     Inr \<lparr>fluid = Some ((extracted base ax ay)\<lparr>name := ''fluid''\<rparr>), solid = Some (made_solid base ax ay)\<rparr>"
  by (simp_all only: take_program run_take1 run_take2 run_take3 run_take4)

lemma orig_solid_m:
  "map_of base ''m'' = Some d \<Longrightarrow> properties (orig_solid base ax ay) ''m'' = Some (replicate (length (grid_x ax ay)) d)"
  by (simp add: orig_solid_def map_add_def)

lemma extracted_m:
  "map_of base ''m'' = Some d \<Longrightarrow>
   properties (extracted base ax ay) ''m'' = Some (map (\<lambda>i. replicate (length (grid_x ax ay)) d ! i) (to_extract ax ay))"
  by (simp add: extracted_def orig_solid_m)

lemma made_solid_m:
  "map_of base ''m'' = Some d \<Longrightarrow>
   properties (made_solid base ax ay) ''m'' = Some (remaining (to_extract ax ay) (replicate (length (grid_x ax ay)) d))"
  by (simp add: made_solid_def orig_solid_m)

lemma final_solid_m:
  "map_of base ''m'' = Some d \<Longrightarrow>
   properties (final_solid base ax ay) ''m'' = Some (remaining (to_extract ax ay) (replicate (length (grid_x ax ay)) d))"
  by (simp add: final_solid_def solid_valued_def solid_added_def made_solid_m)

subsection \<open>Masses\<close>

lemma sum_list_pos:
  fixes xs :: "real list"
  shows "xs \<noteq> [] \<Longrightarrow> (\<And>x. x \<in> set xs \<Longrightarrow> 0 < x) \<Longrightarrow> 0 < sum_list xs"
proof (induction xs)
  case Nil
  then show ?case by simp
next
  case (Cons a xs)
  have "0 < a" using Cons.prems(2) [of a] by simp
  moreover have "0 \<le> sum_list xs"
  proof (rule sum_list_nonneg)
    fix x assume "x \<in> set xs"
    then have "0 < x" using Cons.prems(2) [of x] by simp
    then show "0 \<le> x" by simp
  qed
  ultimately show ?case by simp
qed

lemma fluid_mass_positive:
  assumes "xv \<in> set ax" and "yv \<in> set ay" and "inside xv yv"
  shows "0 < sum_list (map (\<lambda>r. dx * dx * r) (seeded ax ay))"
proof (rule sum_list_pos)
  have "0 < length (seeded ax ay)"
    using to_extract_nonempty [OF assms] by (simp only: length_seeded)
  then show "map (\<lambda>r. dx * dx * r) (seeded ax ay) \<noteq> []"
    by auto
next
  fix x
  assume "x \<in> set (map (\<lambda>r. dx * dx * r) (seeded ax ay))"
  then obtain r where r: "r \<in> set (seeded ax ay)" and x: "x = dx * dx * r" by auto
  from r have "r = rho1 \<or> r = rho2"
    by (auto simp: seeded_def split: if_splits)
  then have "0 < r" by (auto simp: rho1_def rho2_def)
  moreover have "0 < dx * dx" by (simp add: dx_def Lx_def nx_def)
  ultimately show "0 < x" unfolding x by (rule mult_pos_pos [rotated])
qed

lemma remaining_zero: "sum_list (remaining idx (replicate n (0::real))) = 0"
proof -
  have "set (remaining idx (replicate n (0::real))) \<subseteq> {0}"
    by (auto simp: remaining_def)
  then have "remaining idx (replicate n (0::real)) =
      replicate (length (remaining idx (replicate n (0::real)))) 0"
    by (intro replicate_eqI) auto
  then have "sum_list (remaining idx (replicate n (0::real))) =
      sum_list (replicate (length (remaining idx (replicate n (0::real)))) (0::real))"
    by simp
  then show ?thesis by (simp add: sum_list_replicate)
qed

lemma made_solid_smaller:
  assumes "xv \<in> set ax" and "yv \<in> set ay" and "inside xv yv"
  shows "num_particles (made_solid base ax ay) < num_particles (orig_solid base ax ay)"
proof -
  have "length (to_extract ax ay) + length (filter (\<lambda>i. i \<notin> set (to_extract ax ay)) [0..<length (grid_x ax ay)]) = length (grid_x ax ay)"
    unfolding to_extract_def
    by (rule length_extract_remaining [OF distinct_indices indices_in_range])
  with to_extract_nonempty [OF assms]
  have "length (filter (\<lambda>i. i \<notin> set (to_extract ax ay)) [0..<length (grid_x ax ay)]) < length (grid_x ax ay)"
    by linarith
  then show ?thesis
    by (simp add: made_solid_def orig_solid_def)
qed

subsection \<open>Runs and their traces\<close>

lemma trace_of_run:
  "run sts s = Inr t \<Longrightarrow> length (trace sts s) = Suc (length sts) \<and> last (trace sts s) = t"
proof (induction sts arbitrary: s)
  case Nil
  then show ?case by simp
next
  case (Cons st sts)
  show ?case
  proof (cases "st s")
    case (Inl err)
    with Cons.prems show ?thesis by simp
  next
    case (Inr s')
    with Cons.prems have "run sts s' = Inr t" by simp
    from Cons.IH [OF this] have "length (trace sts s') = Suc (length sts)"
      "last (trace sts s') = t" "trace sts s' \<noteq> []"
      by auto
    with Inr show ?thesis by simp
  qed
qed

lemma run_program_total:
  assumes "base_ok base"
  shows "\<exists>t. run (program base ax ay is_empty) init = Inr t"
proof (cases is_empty)
  case True
  with run_program_True [OF assms] show ?thesis by simp
next
  case False
  with run_program_False [OF assms] show ?thesis by simp
qed

lemma nu_eq: "nu = 1 / 105"
  by (simp add: nu_def Umax_eq Ly_def Re_number_def)

subsection \<open>The total mass when the sets are returned\<close>

lemma sum_list_bounds:
  fixes xs :: "real list"
  assumes "\<And>x. x \<in> set xs \<Longrightarrow> a \<le> x \<and> x \<le> b"
  shows "real (length xs) * a \<le> sum_list xs \<and> sum_list xs \<le> real (length xs) * b"
  using assms
proof (induction xs)
  case Nil
  then show ?case by simp
next
  case (Cons x xs)
  have "a \<le> x \<and> x \<le> b" using Cons.prems [of x] by simp
  moreover have "real (length xs) * a \<le> sum_list xs \<and> sum_list xs \<le> real (length xs) * b"
    by (rule Cons.IH) (simp add: Cons.prems)
  ultimately show ?case by (simp add: algebra_simps)
qed

lemma remaining_replicate:
  "list_all (\<lambda>i. i < n) idx \<Longrightarrow>
   remaining idx (replicate n d) = replicate (length (filter (\<lambda>i. i \<notin> set idx) [0..<n])) d"
  by (intro replicate_eqI) (auto simp: remaining_def)

lemma fluid_mass_bounds:
  "real (length (to_extract ax ay)) * 0.0004 \<le> sum_list (map (\<lambda>r. dx * dx * r) (seeded ax ay)) \<and>
   sum_list (map (\<lambda>r. dx * dx * r) (seeded ax ay)) \<le> real (length (to_extract ax ay)) * 0.00072"
proof -
  have "real (length (map (\<lambda>r. dx * dx * r) (seeded ax ay))) * 0.0004 \<le> sum_list (map (\<lambda>r. dx * dx * r) (seeded ax ay)) \<and>
        sum_list (map (\<lambda>r. dx * dx * r) (seeded ax ay)) \<le> real (length (map (\<lambda>r. dx * dx * r) (seeded ax ay))) * 0.00072"
  proof (rule sum_list_bounds)
    fix x
    assume "x \<in> set (map (\<lambda>r. dx * dx * r) (seeded ax ay))"
    then obtain r where r: "r \<in> set (seeded ax ay)" and x: "x = dx * dx * r" by auto
    from r have "r = rho1 \<or> r = rho2"
      by (auto simp: seeded_def split: if_splits)
    then show "0.0004 \<le> x \<and> x \<le> 0.00072"
      unfolding x by (auto simp: rho1_def rho2_def dx_def Lx_def nx_def)
  qed
  then show ?thesis by (simp add: length_seeded)
qed

text \<open>
  When \<open>create_particles\<close> returns, the fluid masses are those of line 115 and the solid
  masses are still the fill value \<open>d\<close> of the base table. Their sum is the total mass of the
  set of line 59 only if \<open>d\<close> is the mean mass of the fluid particles, which lies between
  \<open>dx\<^sup>2 * rho2\<close> and \<open>dx\<^sup>2 * rho1\<close>.
\<close>
lemma final_mass_differs:
  assumes "base_ok base" and "map_of base ''m'' = Some d" and "d < 0.0004 \<or> 0.00072 < d"
    and "xv \<in> set ax" and "yv \<in> set ay" and "inside xv yv"
  shows "\<exists>orig f s mo mf ms.
     get_particle_array base ''solid'' [(''x'', grid_x ax ay), (''y'', grid_y ax ay)] = Inr orig \<and>
     create_particles base ax ay False = Inr [f, s] \<and>
     properties orig ''m'' = Some mo \<and> properties f ''m'' = Some mf \<and>
     properties s ''m'' = Some ms \<and>
     sum_list mf + sum_list ms \<noteq> sum_list mo"
proof -
  let ?N = "length (grid_x ax ay)" and ?n = "length (to_extract ax ay)"
  let ?k = "length (filter (\<lambda>i. i \<notin> set (to_extract ax ay)) [0..<length (grid_x ax ay)])"
  let ?S = "sum_list (map (\<lambda>r. dx * dx * r) (seeded ax ay))"
  have r: "remaining (to_extract ax ay) (replicate ?N d) = replicate ?k d"
    unfolding to_extract_def by (rule remaining_replicate) (rule indices_in_range)
  have "?n + ?k = ?N"
    unfolding to_extract_def by (rule length_extract_remaining [OF distinct_indices indices_in_range])
  then have N: "real ?N = real ?n + real ?k" by linarith
  have n: "0 < real ?n" using to_extract_nonempty [OF assms(4-6)] by simp
  have "?S \<noteq> real ?n * d"
  proof (cases "d < 0.0004")
    case True
    with n have "real ?n * d < real ?n * 0.0004" by simp
    with fluid_mass_bounds [of ax ay] show ?thesis by linarith
  next
    case False
    with assms(3) have "0.00072 < d" by simp
    with n have "real ?n * 0.00072 < real ?n * d" by simp
    with fluid_mass_bounds [of ax ay] show ?thesis by linarith
  qed
  then have ne: "?S + sum_list (replicate ?k d) \<noteq> sum_list (replicate ?N d)"
    by (simp add: sum_list_replicate N algebra_simps)
  show ?thesis
    apply (rule exI [of _ "orig_solid base ax ay"], rule exI [of _ "final_fluid base ax ay"])
    apply (rule exI [of _ "final_solid base ax ay"], rule exI [of _ "replicate ?N d"])
    apply (rule exI [of _ "map (\<lambda>r. dx * dx * r) (seeded ax ay)"])
    apply (rule exI [of _ "replicate ?k d"])
    using ne
    by (simp add: get_orig_solid create_particles_False [OF assms(1)] orig_solid_m [OF assms(2)]
        final_solid_m [OF assms(2)] final_fluid_props r)
qed

subsection \<open>Two fluid particles\<close>

lemma zip_map_self: "zip ps (map g ps) = map (\<lambda>p. (p, g p)) ps"
  by (induction ps) simp_all

lemma heavy_bounds: "1.15 < yv \<Longrightarrow> heavy xv yv" "yv < 0.85 \<Longrightarrow> \<not> heavy xv yv"
proof -
  have "0.85 \<le> 1 - 0.15 * c \<and> 1 - 0.15 * c \<le> 1.15" if "- 1 \<le> c" "c \<le> 1" for c :: real
    using that by simp
  from this [of "sin (2 * pi * xv)"]
  have b: "0.85 \<le> 1 - 0.15 * sin (2 * pi * xv)" "1 - 0.15 * sin (2 * pi * xv) \<le> 1.15"
    by (simp_all only: sin_ge_minus_one sin_le_one)
  show "1.15 < yv \<Longrightarrow> heavy xv yv" unfolding heavy_def using b(2) by linarith
  show "yv < 0.85 \<Longrightarrow> \<not> heavy xv yv" unfolding heavy_def using b(1) by linarith
qed

lemma final_fluid_points:
  assumes "create_particles zero_base ax ay False = Inr [f, s]"
    and "properties f ''x'' = Some fx" and "properties f ''y'' = Some fy"
    and "xv \<in> set ax" and "yv \<in> set ay" and "inside xv yv"
  shows "(xv, yv) \<in> set (zip fx fy)"
proof -
  from assms(1) have f: "f = final_fluid zero_base ax ay"
    by (simp add: create_particles_False [OF base_ok_zero_base])
  from assms(2,3) have "fx = map (\<lambda>i. grid_x ax ay ! i) (to_extract ax ay)" "fy = map (\<lambda>i. grid_y ax ay ! i) (to_extract ax ay)"
    unfolding f by (simp_all add: final_fluid_xy)
  then have "zip fx fy = filter (\<lambda>(a, b). inside a b) (zip (grid_x ax ay) (grid_y ax ay))"
    by (simp only: fluid_points)
  then show ?thesis
    using grid_point [OF assms(4,5)] assms(6) by simp
qed

subsection \<open>The arrays of the run\<close>

lemma length_axis: "length axis_x = 62" "length axis_y = 111"
  by (simp_all add: axis_x_def axis_y_def)

lemma axis_x_values:
  "axis_x ! 0 = - 63410682753376584 / 2 ^ 59"
  "axis_x ! 6 = 5764607523034248 / 2 ^ 59"
  "axis_x ! 18 = 144115188075855936 / 2 ^ 59"
  "axis_x ! 43 = 432345564227567744 / 2 ^ 59"
  "axis_x ! 55 = 570696144780389440 / 2 ^ 59"
  "axis_x ! 61 = 639871435056800128 / 2 ^ 59"
  by (simp_all add: axis_x_def)

lemma axis_y_values:
  "axis_y ! 0 = - 63410682753376584 / 2 ^ 59"
  "axis_y ! 6 = 5764607523034248 / 2 ^ 59"
  "axis_y ! 48 = 489991639457910080 / 2 ^ 59"
  "axis_y ! 63 = 662929865148937088 / 2 ^ 59"
  "axis_y ! 105 = 1147156897083812992 / 2 ^ 59"
  by (simp_all add: axis_y_def)

lemma filter_axis:
  "length (filter (\<lambda>a. 0 < a \<and> a < 1) axis_x) = 50"
  "length (filter (\<lambda>a. 0 < a \<and> a < 2) axis_y) = 100"
  by (simp_all add: axis_x_def axis_y_def)

lemma axis_x_close: "list_all (\<lambda>i. \<bar>axis_x ! i - (- 0.11 + 0.02 * real i)\<bar> < 1 / 10 ^ 15) [0..<62]"
  by (simp add: axis_x_def upt_rec numeral_eq_Suc)

lemma heavy_near_crest:
  assumes "0.85 + 0.3 * (4 * (1 / 4 - xv))\<^sup>2 < yv"
  shows "heavy xv yv"
proof -
  define u where "u = pi * (1 / 4 - xv)"
  have "pi / 2 - 2 * pi * xv = 2 * u"
    by (simp add: u_def algebra_simps)
  then have s: "sin (2 * pi * xv) = cos (2 * u)"
    by (simp add: sin_cos_eq [of "2 * pi * xv"])
  have "\<bar>sin u\<bar> \<le> \<bar>u\<bar>" by (rule abs_sin_x_le_abs_x)
  moreover have "\<bar>u\<bar> \<le> \<bar>4 * (1 / 4 - xv)\<bar>"
    unfolding u_def abs_mult using pi_less_4 pi_gt_zero
    by (intro mult_right_mono) simp_all
  ultimately have "\<bar>sin u\<bar> \<le> \<bar>4 * (1 / 4 - xv)\<bar>" by (rule order_trans)
  then have "(sin u)\<^sup>2 \<le> (4 * (1 / 4 - xv))\<^sup>2"
    by (simp only: abs_le_square_iff)
  then have "1 - 2 * (4 * (1 / 4 - xv))\<^sup>2 \<le> cos (2 * u)"
    by (simp add: cos_double_sin)
  then have "1 - 0.15 * sin (2 * pi * xv) \<le> 0.85 + 0.3 * (4 * (1 / 4 - xv))\<^sup>2"
    unfolding s by simp
  with assms show ?thesis unfolding heavy_def by linarith
qed

lemma run_points:
  "inside (axis_x ! 6) (axis_y ! 6)" "\<not> heavy (axis_x ! 6) (axis_y ! 6)"
  "inside (axis_x ! 55) (axis_y ! 105)" "heavy (axis_x ! 55) (axis_y ! 105)"
  "inside (axis_x ! 18) (axis_y ! 48)" "heavy (axis_x ! 18) (axis_y ! 48)"
  "inside (axis_x ! 43) (axis_y ! 63)" "heavy (axis_x ! 43) (axis_y ! 63)"
  "\<not> inside (axis_x ! 0) (axis_y ! 0)" "\<not> inside (axis_x ! 61) (axis_y ! 6)"
proof -
  show "inside (axis_x ! 6) (axis_y ! 6)" "inside (axis_x ! 55) (axis_y ! 105)"
    "inside (axis_x ! 18) (axis_y ! 48)" "inside (axis_x ! 43) (axis_y ! 63)"
    "\<not> inside (axis_x ! 0) (axis_y ! 0)" "\<not> inside (axis_x ! 61) (axis_y ! 6)"
    by (simp_all add: inside_def Lx_def Ly_def axis_x_values axis_y_values)
  show "\<not> heavy (axis_x ! 6) (axis_y ! 6)"
    by (rule heavy_bounds(2)) (simp add: axis_y_values)
  show "heavy (axis_x ! 55) (axis_y ! 105)"
    by (rule heavy_bounds(1)) (simp add: axis_y_values)
  show "heavy (axis_x ! 43) (axis_y ! 63)"
    by (rule heavy_bounds(1)) (simp add: axis_y_values)
  show "heavy (axis_x ! 18) (axis_y ! 48)"
    by (rule heavy_near_crest) (simp add: axis_x_values axis_y_values power2_eq_square)
qed

lemma axis_near:
  "\<bar>axis_x ! 18 - 0.25\<bar> < 1 / 10 ^ 15" "\<bar>axis_y ! 48 - 0.85\<bar> < 1 / 10 ^ 15"
  "\<bar>axis_x ! 43 - 0.75\<bar> < 1 / 10 ^ 15" "\<bar>axis_y ! 63 - 1.15\<bar> < 1 / 10 ^ 15"
  "\<bar>axis_x ! 61 - 1.11\<bar> < 1 / 10 ^ 15"
  by (simp_all add: axis_x_values axis_y_values)

lemma run_outside: "axis_x ! 0 < 0" "1 < axis_x ! 61"
  by (simp_all add: axis_x_values)

lemma axis_mem:
  "axis_x ! 0 \<in> set axis_x" "axis_x ! 6 \<in> set axis_x" "axis_x ! 18 \<in> set axis_x"
  "axis_x ! 43 \<in> set axis_x" "axis_x ! 55 \<in> set axis_x" "axis_x ! 61 \<in> set axis_x"
  "axis_y ! 0 \<in> set axis_y" "axis_y ! 6 \<in> set axis_y" "axis_y ! 48 \<in> set axis_y"
  "axis_y ! 63 \<in> set axis_y" "axis_y ! 105 \<in> set axis_y"
  by (simp_all add: length_axis)

lemma axis_y_close: "list_all (\<lambda>i. \<bar>axis_y ! i - (- 0.11 + 0.02 * real i)\<bar> < 1 / 10 ^ 15) [0..<111]"
  by (simp add: axis_y_def upt_rec numeral_eq_Suc)

lemma length_filter_grid:
  "length (filter (\<lambda>(a, b). P a \<and> Q b) (zip (grid_x ax ay) (grid_y ax ay))) =
     length (filter P ax) * length (filter Q ay)"
proof -
  have 1: "length (filter (\<lambda>(a, b). P a \<and> Q b) (zip ax (map (\<lambda>xv. yv) ax))) =
      (if Q yv then length (filter P ax) else 0)" for yv
    by (induction ax) simp_all
  show ?thesis
    unfolding grid_x_def grid_y_def meshgrid_def fst_conv snd_conv
    by (induction ay) (simp_all add: 1)
qed

lemma length_grid_x: "length (grid_x ax ay) = length ax * length ay"
  unfolding grid_x_def meshgrid_def fst_conv by (induction ay) simp_all

lemma run_counts:
  "length (grid_x axis_x axis_y) = 6882"
  "length (to_extract axis_x axis_y) = 5000"
  "num_particles (final_fluid base axis_x axis_y) = 5000"
  "num_particles (final_solid base axis_x axis_y) = 1882"
proof -
  show N: "length (grid_x axis_x axis_y) = 6882"
    by (simp add: length_grid_x length_axis)
  have "length (filter (\<lambda>(a, b). (a > 0.0 \<and> a < Lx) \<and> (b > 0.0 \<and> b < Ly))
      (zip (grid_x axis_x axis_y) (grid_y axis_x axis_y))) = 5000"
    by (simp only: length_filter_grid) (simp add: Lx_def Ly_def filter_axis)
  then show n: "length (to_extract axis_x axis_y) = 5000"
    by (simp add: inside_def flip: length_to_extract)
  then show "num_particles (final_fluid base axis_x axis_y) = 5000"
    by (simp only: num_final_fluid)
  have "length (to_extract axis_x axis_y) +
      length (filter (\<lambda>i. i \<notin> set (to_extract axis_x axis_y)) [0..<length (grid_x axis_x axis_y)]) =
      length (grid_x axis_x axis_y)"
    unfolding to_extract_def
    by (rule length_extract_remaining [OF distinct_indices indices_in_range])
  with N n show "num_particles (final_solid base axis_x axis_y) = 1882"
    by (simp only: num_final_solid)
qed

lemma zip_map_mem: "p \<in> set ps \<Longrightarrow> (p, g p) \<in> set (zip ps (map g ps))"
  by (simp add: zip_map_self)

subsection \<open>Runs that fail\<close>

text \<open>A base table without a density: the loop of lines 67-71 fails at \<^verbatim>\<open>fluid.rho\<close>.\<close>
lemma create_particles_no_rho:
  assumes "map_of base ''rho'' = None"
  shows "create_particles base ax ay False = Inl AttributeError"
proof -
  have "properties ((extracted base ax ay)\<lparr>name := ''fluid''\<rparr>) ''rho'' = None"
    using assms by (simp add: extracted_def orig_solid_def map_add_def)
  then have "seed_density ((extracted base ax ay)\<lparr>name := ''fluid''\<rparr>) = Inl AttributeError"
    by (simp add: seed_density_def extracted_def orig_solid_def map_add_def)
  then have "run (make_sets base ax ay False) init = Inl AttributeError"
    by (simp add: make_sets_def init_def new_solid_def get_orig_solid fluid_from_solid_def
        extract_orig_solid on_fluid_def set_name_def on_solid_def remove_orig_solid)
  then show ?thesis
    by (simp add: create_particles_def program_def run_append)
qed

text \<open>A base table that already has the property \<open>V\<close>: line 79 fails.\<close>
lemma create_particles_duplicate:
  assumes "map_of base ''rho'' \<noteq> None" and "map_of base ''V'' \<noteq> None"
  shows "create_particles base ax ay False = Inl DuplicatePropertyError"
proof -
  have "properties (made_fluid base ax ay) ''V'' \<noteq> None"
    using assms(2) by (auto simp: made_fluid_def extracted_def orig_solid_def map_add_def)
  then have "run add_properties \<lparr>fluid = Some (made_fluid base ax ay), solid = Some (made_solid base ax ay)\<rparr> =
      Inl DuplicatePropertyError"
    by (auto simp: add_properties_def on_fluid_def add_property_def)
  then show ?thesis
    by (simp add: create_particles_def program_def run_append run_make_sets_False [OF assms(1)])
qed

subsection \<open>Objects and arrays in the store\<close>

lemma store_okD:
  assumes "store_ok st" and "r < length (objects st)"
  shows "distinct (map fst (obj_arrays (objects st ! r)))"
    and "(k, a) \<in> set (obj_arrays (objects st ! r)) \<Longrightarrow> a < length (arrays st)"
    and "distinct (map snd (obj_arrays (objects st ! r)))"
proof -
  from assms have ob: "distinct (map fst (obj_arrays (objects st ! r)))"
    "list_all (\<lambda>a. a < length (arrays st)) (map snd (obj_arrays (objects st ! r)))"
    by (simp_all add: store_ok_def list_all_length)
  show "distinct (map fst (obj_arrays (objects st ! r)))" by (rule ob(1))
  show "(k, a) \<in> set (obj_arrays (objects st ! r)) \<Longrightarrow> a < length (arrays st)"
    using ob(2) by (force simp: list_all_iff)
  from assms have "map snd (obj_arrays (objects st ! r)) \<in>
      set (map (\<lambda>ob. map snd (obj_arrays ob)) (objects st))"
    by simp
  with assms(1) show "distinct (map snd (obj_arrays (objects st ! r)))"
    unfolding store_ok_def by (meson distinct_concat_iff)
qed


lemma distinct_concat_nth:
  "distinct (concat xss) \<Longrightarrow> i < length xss \<Longrightarrow> j < length xss \<Longrightarrow> i \<noteq> j \<Longrightarrow>
   set (xss ! i) \<inter> set (xss ! j) = {}"
proof (induction xss arbitrary: i j)
  case Nil
  then show ?case by simp
next
  case (Cons xs xss)
  from Cons.prems(1) have d: "distinct (concat xss)" "set xs \<inter> (\<Union>ys\<in>set xss. set ys) = {}"
    by auto
  show ?case
  proof (cases i)
    case 0
    with Cons.prems obtain j' where j: "j = Suc j'" "j' < length xss"
      by (cases j) auto
    then have "set (xss ! j') \<subseteq> (\<Union>ys\<in>set xss. set ys)"
      using nth_mem [of j' xss] by blast
    with d(2) 0 j show ?thesis by auto
  next
    case (Suc i')
    show ?thesis
    proof (cases j)
      case 0
      from Suc Cons.prems have "i' < length xss" by simp
      then have "set (xss ! i') \<subseteq> (\<Union>ys\<in>set xss. set ys)"
        using nth_mem [of i' xss] by blast
      with d(2) 0 Suc show ?thesis by auto
    next
      case (Suc j')
      with \<open>i = Suc i'\<close> Cons.prems Cons.IH [OF d(1), of i' j'] show ?thesis by simp
    qed
  qed
qed

lemma store_ok_disjoint:
  assumes "store_ok st" and "r < length (objects st)" and "r' < length (objects st)" and "r \<noteq> r'"
    and "(k, a) \<in> set (obj_arrays (objects st ! r))"
  shows "(k', a) \<notin> set (obj_arrays (objects st ! r'))"
proof
  assume k': "(k', a) \<in> set (obj_arrays (objects st ! r'))"
  let ?f = "\<lambda>ob. map snd (obj_arrays ob)"
  have "distinct (concat (map ?f (objects st)))"
    using assms(1) by (simp add: store_ok_def)
  from distinct_concat_nth [OF this, of r r'] assms(2,3,4)
  have "set (?f (objects st ! r)) \<inter> set (?f (objects st ! r')) = {}"
    by simp
  moreover have "a \<in> set (?f (objects st ! r))" "a \<in> set (?f (objects st ! r'))"
    using assms(5) k' by force+
  ultimately show False by blast
qed

lemma deref_alloc_old:
  assumes "store_ok st" and "r < length (objects st)"
  shows "deref (snd (alloc ks p st)) r = deref st r"
proof -
  have "map_option (\<lambda>a. (arrays st @ xs) ! a) (map_of (obj_arrays (objects st ! r)) k) =
        map_option (\<lambda>a. arrays st ! a) (map_of (obj_arrays (objects st ! r)) k)" for k xs
  proof (cases "map_of (obj_arrays (objects st ! r)) k")
    case None
    then show ?thesis by simp
  next
    case (Some a)
    then have "(k, a) \<in> set (obj_arrays (objects st ! r))" by (rule map_of_SomeD)
    from store_okD(2) [OF assms this] Some show ?thesis by (simp add: nth_append)
  qed
  with assms(2) show ?thesis
    by (simp add: deref_def alloc_def nth_append)
qed

lemma map_of_zip_upt:
  assumes "distinct ks"
  shows "map_option (\<lambda>a. (xs @ map g ks) ! a) (map_of (zip ks [length xs..<length xs + length ks]) k) =
         (if k \<in> set ks then Some (g k) else None)"
proof (cases "k \<in> set ks")
  case False
  then have "map_of (zip ks [length xs..<length xs + length ks]) k = None"
    by (simp add: map_of_zip_is_None)
  with False show ?thesis by simp
next
  case True
  then obtain i where i: "i < length ks" "ks ! i = k"
    by (auto simp: in_set_conv_nth)
  have "map_of (zip ks [length xs..<length xs + length ks]) (ks ! i) =
        Some ([length xs..<length xs + length ks] ! i)"
    using assms i(1) by (intro map_of_zip_nth) simp_all
  with i True show ?thesis by (simp add: nth_append)
qed

lemma deref_alloc_new:
  assumes "distinct ks" and "\<And>k. properties p k \<noteq> None \<longleftrightarrow> k \<in> set ks"
  shows "deref (snd (alloc ks p st)) (length (objects st)) = p"
proof -
  let ?g = "\<lambda>k. case properties p k of None \<Rightarrow> [] | Some arr \<Rightarrow> arr"
  have "(if k \<in> set ks then Some (?g k) else None) = properties p k" for k
    using assms(2) [of k] by (cases "properties p k") auto
  then have "(\<lambda>k. map_option (\<lambda>a. (arrays st @ map ?g ks) ! a)
        (map_of (zip ks [length (arrays st)..<length (arrays st) + length ks]) k)) = properties p"
    by (simp only: map_of_zip_upt [OF assms(1)])
  then show ?thesis
    by (simp add: deref_def alloc_def)
qed

lemma store_ok_alloc:
  assumes "store_ok st" and "distinct ks"
  shows "store_ok (snd (alloc ks p st))"
proof -
  let ?n = "length (arrays st)"
  let ?f = "\<lambda>ob. map snd (obj_arrays ob)"
  have old: "list_all (\<lambda>ob. distinct (map fst (obj_arrays ob)) \<and>
      list_all (\<lambda>a. a < ?n + length ks) (map snd (obj_arrays ob))) (objects st)"
    using assms(1) by (fastforce simp: store_ok_def list_all_iff)
  have s: "map snd (zip ks [?n..<?n + length ks]) = [?n..<?n + length ks]"
    "map fst (zip ks [?n..<?n + length ks]) = ks"
    by simp_all
  have "a < ?n" if "a \<in> set (concat (map ?f (objects st)))" for a
    using that assms(1) by (fastforce simp: store_ok_def list_all_iff)
  then have "set (concat (map ?f (objects st))) \<inter> set [?n..<?n + length ks] = {}"
    by fastforce
  moreover have "distinct (concat (map ?f (objects st)))"
    using assms(1) by (simp add: store_ok_def)
  ultimately have d: "distinct (concat (map ?f (objects st)) @ [?n..<?n + length ks])"
    by (simp only: distinct_append distinct_upt)
  have new: "list_all (\<lambda>a. a < ?n + length ks) [?n..<?n + length ks]"
    by (simp add: list_all_iff)
  from old new d assms(2) show ?thesis
    by (simp add: store_ok_def alloc_def s)
qed

lemma length_fold_write:
  "length (fold (\<lambda>(k, a) arrs. case g k of None \<Rightarrow> arrs | Some arr \<Rightarrow> arrs[a := arr]) kas arrs) =
     length arrs"
  by (induction kas arbitrary: arrs) (auto split: option.splits)

lemma fold_write_other:
  "b \<notin> snd ` set kas \<Longrightarrow>
   fold (\<lambda>(k, a) arrs. case g k of None \<Rightarrow> arrs | Some arr \<Rightarrow> arrs[a := arr]) kas arrs ! b = arrs ! b"
  by (induction kas arbitrary: arrs) (auto split: option.splits)

lemma fold_write_same:
  assumes "distinct (map snd kas)" and "(k, a) \<in> set kas" and "g k = Some arr" and "a < length arrs"
  shows "fold (\<lambda>(k, a) arrs. case g k of None \<Rightarrow> arrs | Some arr \<Rightarrow> arrs[a := arr]) kas arrs ! a = arr"
  using assms
proof (induction kas arbitrary: arrs)
  case Nil
  then show ?case by simp
next
  case (Cons ka kas)
  obtain k0 a0 where ka: "ka = (k0, a0)" by (cases ka)
  show ?case
  proof (cases "(k, a) \<in> set kas")
    case True
    from Cons.prems(1) have "distinct (map snd kas)" by simp
    from Cons.IH [OF this True Cons.prems(3)] Cons.prems(4)
    show ?thesis by (simp add: ka split: option.splits)
  next
    case False
    with Cons.prems(2) have e: "k0 = k" "a0 = a" by (simp_all add: ka)
    from Cons.prems(1) have "a \<notin> snd ` set kas" by (simp add: ka e)
    from fold_write_other [OF this, of g "arrs[a := arr]"] Cons.prems(3,4)
    show ?thesis by (simp add: ka e)
  qed
qed

lemma deref_store_back_same:
  assumes "store_ok st" and "r < length (objects st)" and "same_keys (deref st r) q"
  shows "deref (store_back r q st) r = q"
proof -
  let ?ob = "objects st ! r"
  let ?w = "fold (\<lambda>(k, a) arrs. case properties q k of None \<Rightarrow> arrs | Some arr \<Rightarrow> arrs[a := arr])
      (obj_arrays ?ob) (arrays st)"
  have "map_option (\<lambda>a. ?w ! a) (map_of (obj_arrays ?ob) k) = properties q k" for k
  proof (cases "map_of (obj_arrays ?ob) k")
    case None
    from assms(3) have "properties q k = None \<longleftrightarrow> map_of (obj_arrays ?ob) k = None"
      by (simp add: same_keys_def deref_def Let_def)
    with None show ?thesis by simp
  next
    case (Some a)
    from assms(3) have "properties q k = None \<longleftrightarrow> map_of (obj_arrays ?ob) k = None"
      by (simp add: same_keys_def deref_def Let_def)
    with Some obtain arr where arr: "properties q k = Some arr"
      by (cases "properties q k") simp_all
    from Some have m: "(k, a) \<in> set (obj_arrays ?ob)" by (rule map_of_SomeD)
    from fold_write_same [OF store_okD(3) [OF assms(1,2)] m, of "properties q", OF arr
        store_okD(2) [OF assms(1,2) m]]
    show ?thesis by (simp add: Some arr)
  qed
  then have "(\<lambda>k. map_option (\<lambda>a. ?w ! a) (map_of (obj_arrays ?ob) k)) = properties q"
    by (rule ext)
  with assms(2) show ?thesis
    by (simp add: deref_def store_back_def Let_def)
qed

lemma deref_store_back_other:
  assumes "store_ok st" and "r < length (objects st)" and "r' < length (objects st)" and "r \<noteq> r'"
  shows "deref (store_back r q st) r' = deref st r'"
proof -
  let ?ob = "objects st ! r"
  let ?w = "fold (\<lambda>(k, a) arrs. case properties q k of None \<Rightarrow> arrs | Some arr \<Rightarrow> arrs[a := arr])
      (obj_arrays ?ob) (arrays st)"
  have "map_option (\<lambda>a. ?w ! a) (map_of (obj_arrays (objects st ! r')) k) =
        map_option (\<lambda>a. arrays st ! a) (map_of (obj_arrays (objects st ! r')) k)" for k
  proof (cases "map_of (obj_arrays (objects st ! r')) k")
    case None
    then show ?thesis by simp
  next
    case (Some a)
    then have m: "(k, a) \<in> set (obj_arrays (objects st ! r'))" by (rule map_of_SomeD)
    have "a \<notin> snd ` set (obj_arrays ?ob)"
      using store_ok_disjoint [OF assms(1,3,2) assms(4) [symmetric] m] by force
    from fold_write_other [OF this] Some show ?thesis by simp
  qed
  with assms(4) show ?thesis
    by (simp add: deref_def store_back_def Let_def)
qed

lemma store_ok_store_back:
  assumes "store_ok st" and "r < length (objects st)"
  shows "store_ok (store_back r q st)"
proof -
  let ?ob = "(objects st ! r)\<lparr>obj_name := name q, obj_count := num_particles q\<rparr>"
  let ?P = "\<lambda>ob. distinct (map fst (obj_arrays ob)) \<and>
      list_all (\<lambda>a. a < length (arrays st)) (map snd (obj_arrays ob))"
  have "map (\<lambda>ob. map snd (obj_arrays ob)) ((objects st)[r := ?ob]) =
      (map (\<lambda>ob. map snd (obj_arrays ob)) (objects st))[r := map snd (obj_arrays (objects st ! r))]"
    by (simp add: map_update)
  also have "\<dots> = map (\<lambda>ob. map snd (obj_arrays ob)) (objects st)"
    using assms(2) by (simp add: list_update_same_conv)
  finally have 1: "map (\<lambda>ob. map snd (obj_arrays ob)) ((objects st)[r := ?ob]) =
      map (\<lambda>ob. map snd (obj_arrays ob)) (objects st)" .
  from assms(1) have P: "list_all ?P (objects st)"
    by (simp add: store_ok_def)
  have 2: "list_all ?P ((objects st)[r := ?ob])"
    unfolding list_all_length [of ?P]
  proof (intro allI impI)
    fix n
    assume "n < length ((objects st)[r := ?ob])"
    then have n: "n < length (objects st)" by simp
    with P have "?P (objects st ! n)" by (simp add: list_all_length [of ?P])
    moreover have "obj_arrays ((objects st)[r := ?ob] ! n) = obj_arrays (objects st ! n)"
      using n by (cases "n = r") simp_all
    ultimately show "?P ((objects st)[r := ?ob] ! n)" by simp
  qed
  from assms(1) have 3: "distinct (concat (map (\<lambda>ob. map snd (obj_arrays ob)) (objects st)))"
    by (simp add: store_ok_def)
  show ?thesis
    unfolding store_ok_def store_back_def Let_def store.simps length_fold_write 1
    using 2 3 by simp
qed

lemma extract_particles_obj_alloc:
  assumes "store_ok st" and "r < length (objects st)"
    and "extract_particles_obj idx r st = Inr (r', st')"
  obtains q where "extract_particles idx (deref st r) = Inr q"
    and "(r', st') = alloc (map fst (obj_arrays (objects st ! r))) q st"
    and "deref st' r' = q" and "store_ok st'"
    and "\<And>r0. r0 < length (objects st) \<Longrightarrow> deref st' r0 = deref st r0"
proof -
  let ?ks = "map fst (obj_arrays (objects st ! r))"
  from assms(3) obtain q where q: "extract_particles idx (deref st r) = Inr q"
    and a: "(r', st') = alloc ?ks q st"
    by (auto simp: extract_particles_obj_def split: sum.splits)
  from a have st': "st' = snd (alloc ?ks q st)" and r': "r' = length (objects st)"
    by (simp_all add: alloc_def)
  note d = store_okD(1) [OF assms(1,2)]
  from q have "properties q = (\<lambda>k. map_option (\<lambda>arr. map (\<lambda>i. arr ! i) idx) (properties (deref st r) k))"
    by (auto simp: extract_particles_def split: if_splits)
  then have "properties q k \<noteq> None \<longleftrightarrow> k \<in> set ?ks" for k
    by (simp add: deref_def Let_def map_of_eq_None_iff)
  from deref_alloc_new [OF d this] have 1: "deref st' r' = q"
    unfolding st' r' .
  have 2: "store_ok st'"
    unfolding st' by (rule store_ok_alloc [OF assms(1) d])
  have 3: "deref st' r0 = deref st r0" if "r0 < length (objects st)" for r0
    unfolding st' by (rule deref_alloc_old [OF assms(1) that])
  from q a 1 2 3 show ?thesis by (rule that)
qed

lemma orig_solid_keys:
  "properties (orig_solid base ax ay) k \<noteq> None \<longleftrightarrow> k \<in> set (remdups (''x'' # ''y'' # map fst base))"
  using map_of_eq_None_iff [of base k] by (auto simp: orig_solid_def map_add_def)

lemma heap1_facts:
  "store_ok (heap1 base ax ay)" "length (objects (heap1 base ax ay)) = 1"
  "deref (heap1 base ax ay) 0 = orig_solid base ax ay"
  "map fst (obj_arrays (objects (heap1 base ax ay) ! 0)) = remdups (''x'' # ''y'' # map fst base)"
proof -
  let ?st = "\<lparr>objects = [], arrays = []\<rparr>"
  have ok: "store_ok ?st" by (simp add: store_ok_def)
  show "store_ok (heap1 base ax ay)"
    unfolding heap1_def by (rule store_ok_alloc [OF ok distinct_remdups])
  show "length (objects (heap1 base ax ay)) = 1"
    by (simp add: heap1_def alloc_def)
  have "deref (snd (alloc (remdups (''x'' # ''y'' # map fst base)) (orig_solid base ax ay) ?st))
      (length (objects ?st)) = orig_solid base ax ay"
    by (rule deref_alloc_new [OF distinct_remdups orig_solid_keys])
  then show "deref (heap1 base ax ay) 0 = orig_solid base ax ay"
    by (simp add: heap1_def)
  show "map fst (obj_arrays (objects (heap1 base ax ay) ! 0)) = remdups (''x'' # ''y'' # map fst base)"
    by (simp add: heap1_def alloc_def)
qed

lemma get_particle_array_obj_solid:
  "get_particle_array_obj base ''solid'' [(''x'', grid_x ax ay), (''y'', grid_y ax ay)]
     \<lparr>objects = [], arrays = []\<rparr> = Inr (0, heap1 base ax ay)"
  by (simp add: get_particle_array_obj_def get_orig_solid heap1_def alloc_def)

lemma extract_particles_obj_solid:
  "extract_particles_obj (indices (grid_x ax ay) (grid_y ax ay)) 0 (heap1 base ax ay) =
     Inr (1, heap2 base ax ay)"
  by (simp add: extract_particles_obj_def heap1_facts extract_orig_solid heap2_def)
     (simp add: alloc_def heap1_facts)

lemma heap2_facts:
  "store_ok (heap2 base ax ay)" "length (objects (heap2 base ax ay)) = 2"
  "deref (heap2 base ax ay) 0 = orig_solid base ax ay"
  "deref (heap2 base ax ay) 1 = extracted base ax ay"
proof -
  have r: "0 < length (objects (heap1 base ax ay))" by (simp add: heap1_facts)
  from extract_particles_obj_alloc [OF heap1_facts(1) r extract_particles_obj_solid]
  obtain q where q: "extract_particles (indices (grid_x ax ay) (grid_y ax ay)) (deref (heap1 base ax ay) 0) = Inr q"
    and d: "deref (heap2 base ax ay) 1 = q" and ok: "store_ok (heap2 base ax ay)"
    and old: "\<And>r0. r0 < length (objects (heap1 base ax ay)) \<Longrightarrow>
        deref (heap2 base ax ay) r0 = deref (heap1 base ax ay) r0"
    by blast
  show "store_ok (heap2 base ax ay)" by (rule ok)
  show "length (objects (heap2 base ax ay)) = 2"
    by (simp add: heap2_def alloc_def heap1_facts)
  show "deref (heap2 base ax ay) 0 = orig_solid base ax ay"
    using old [OF r] by (simp add: heap1_facts)
  show "deref (heap2 base ax ay) 1 = extracted base ax ay"
    using q d by (simp add: heap1_facts extract_orig_solid)
qed

lemma heap3_facts:
  "store_ok (heap3 base ax ay)" "length (objects (heap3 base ax ay)) = 2"
  "deref (heap3 base ax ay) 0 = orig_solid base ax ay"
  "deref (heap3 base ax ay) 1 = (extracted base ax ay)\<lparr>name := ''fluid''\<rparr>"
proof -
  have r: "1 < length (objects (heap2 base ax ay))" "0 < length (objects (heap2 base ax ay))"
    by (simp_all add: heap2_facts)
  show "store_ok (heap3 base ax ay)"
    unfolding heap3_def by (rule store_ok_store_back [OF heap2_facts(1) r(1)])
  show "length (objects (heap3 base ax ay)) = 2"
    by (simp add: heap3_def store_back_def Let_def heap2_facts)
  show "deref (heap3 base ax ay) 0 = orig_solid base ax ay"
    unfolding heap3_def using deref_store_back_other [OF heap2_facts(1) r(1) r(2)]
    by (simp add: heap2_facts)
  have "same_keys (deref (heap2 base ax ay) 1) ((extracted base ax ay)\<lparr>name := ''fluid''\<rparr>)"
    by (simp add: same_keys_def heap2_facts del: One_nat_def)
  from deref_store_back_same [OF heap2_facts(1) r(1) this]
  show "deref (heap3 base ax ay) 1 = (extracted base ax ay)\<lparr>name := ''fluid''\<rparr>"
    by (simp only: heap3_def)
qed

lemma heap4_facts:
  "store_ok (heap4 base ax ay)" "length (objects (heap4 base ax ay)) = 2"
  "deref (heap4 base ax ay) 0 = made_solid base ax ay"
  "deref (heap4 base ax ay) 1 = (extracted base ax ay)\<lparr>name := ''fluid''\<rparr>"
proof -
  have r: "0 < length (objects (heap3 base ax ay))" "1 < length (objects (heap3 base ax ay))"
    by (simp_all add: heap3_facts)
  show "store_ok (heap4 base ax ay)"
    unfolding heap4_def by (rule store_ok_store_back [OF heap3_facts(1) r(1)])
  show "length (objects (heap4 base ax ay)) = 2"
    by (simp add: heap4_def store_back_def Let_def heap3_facts)
  show "deref (heap4 base ax ay) 1 = (extracted base ax ay)\<lparr>name := ''fluid''\<rparr>"
    unfolding heap4_def using deref_store_back_other [OF heap3_facts(1) r(1) r(2)]
    by (simp add: heap3_facts del: One_nat_def)
  have "same_keys (deref (heap3 base ax ay) 0) (made_solid base ax ay)"
    by (simp add: same_keys_def heap3_facts made_solid_def)
  from deref_store_back_same [OF heap3_facts(1) r(1) this]
  show "deref (heap4 base ax ay) 0 = made_solid base ax ay"
    by (simp only: heap4_def)
qed

lemma heap5_facts:
  assumes "map_of base ''rho'' \<noteq> None"
  shows "store_ok (heap5 base ax ay)" "length (objects (heap5 base ax ay)) = 2"
  "deref (heap5 base ax ay) 0 = made_solid base ax ay"
  "deref (heap5 base ax ay) 1 = made_fluid base ax ay"
proof -
  have r: "1 < length (objects (heap4 base ax ay))" "0 < length (objects (heap4 base ax ay))"
    by (simp_all add: heap4_facts)
  show "store_ok (heap5 base ax ay)"
    unfolding heap5_def by (rule store_ok_store_back [OF heap4_facts(1) r(1)])
  show "length (objects (heap5 base ax ay)) = 2"
    by (simp add: heap5_def store_back_def Let_def heap4_facts)
  show "deref (heap5 base ax ay) 0 = made_solid base ax ay"
    unfolding heap5_def using deref_store_back_other [OF heap4_facts(1) r(1) r(2)]
    by (simp add: heap4_facts)
  have "same_keys (deref (heap4 base ax ay) 1) (made_fluid base ax ay)"
    using assms
    by (auto simp: same_keys_def heap4_facts made_fluid_def extracted_def orig_solid_def map_add_def
        simp del: One_nat_def)
  from deref_store_back_same [OF heap4_facts(1) r(1) this]
  show "deref (heap5 base ax ay) 1 = made_fluid base ax ay"
    by (simp only: heap5_def)
qed

lemma take_make_sets_obj:
  "take 1 (make_sets_obj base ax ay) =
     [bind_solid (get_particle_array_obj base ''solid'' [(''x'', grid_x ax ay), (''y'', grid_y ax ay)])]"
  "take 2 (make_sets_obj base ax ay) = take 1 (make_sets_obj base ax ay) @
     [bind_fluid_from_solid (extract_particles_obj (indices (grid_x ax ay) (grid_y ax ay)))]"
  "take 3 (make_sets_obj base ax ay) = take 2 (make_sets_obj base ax ay) @
     [call_fluid (in_place (set_name ''fluid''))]"
  "take 4 (make_sets_obj base ax ay) = take 3 (make_sets_obj base ax ay) @
     [call_solid (remove_particles_obj (indices (grid_x ax ay) (grid_y ax ay)))]"
  "make_sets_obj base ax ay = take 4 (make_sets_obj base ax ay) @ [call_fluid (in_place seed_density)]"
  by (simp_all add: make_sets_obj_def)

lemma run_obj_snoc:
  "run_obj (sts @ [st]) e = (case run_obj sts e of Inl err \<Rightarrow> Inl err | Inr e' \<Rightarrow> st e')"
  by (induction sts arbitrary: e) (auto split: sum.splits)

lemma run_obj_take:
  "run_obj (take 1 (make_sets_obj base ax ay)) init_obj =
     Inr \<lparr>fluid_var = None, solid_var = Some 0, heap = heap1 base ax ay\<rparr>"
  "run_obj (take 2 (make_sets_obj base ax ay)) init_obj =
     Inr \<lparr>fluid_var = Some 1, solid_var = Some 0, heap = heap2 base ax ay\<rparr>"
  "run_obj (take 3 (make_sets_obj base ax ay)) init_obj =
     Inr \<lparr>fluid_var = Some 1, solid_var = Some 0, heap = heap3 base ax ay\<rparr>"
  "run_obj (take 4 (make_sets_obj base ax ay)) init_obj =
     Inr \<lparr>fluid_var = Some 1, solid_var = Some 0, heap = heap4 base ax ay\<rparr>"
proof -
  show 1: "run_obj (take 1 (make_sets_obj base ax ay)) init_obj =
     Inr \<lparr>fluid_var = None, solid_var = Some 0, heap = heap1 base ax ay\<rparr>"
    by (simp add: take_make_sets_obj(1) bind_solid_def init_obj_def get_particle_array_obj_solid
        del: One_nat_def)
  show 2: "run_obj (take 2 (make_sets_obj base ax ay)) init_obj =
     Inr \<lparr>fluid_var = Some 1, solid_var = Some 0, heap = heap2 base ax ay\<rparr>"
    by (simp only: take_make_sets_obj(2) run_obj_snoc 1)
       (simp add: bind_fluid_from_solid_def extract_particles_obj_solid)
  show 3: "run_obj (take 3 (make_sets_obj base ax ay)) init_obj =
     Inr \<lparr>fluid_var = Some 1, solid_var = Some 0, heap = heap3 base ax ay\<rparr>"
    by (simp only: take_make_sets_obj(3) run_obj_snoc 2)
       (simp add: call_fluid_def in_place_def heap2_facts set_name_def heap3_def del: One_nat_def)
  show "run_obj (take 4 (make_sets_obj base ax ay)) init_obj =
     Inr \<lparr>fluid_var = Some 1, solid_var = Some 0, heap = heap4 base ax ay\<rparr>"
    by (simp only: take_make_sets_obj(4) run_obj_snoc 3)
       (simp add: call_solid_def remove_particles_obj_def in_place_def heap3_facts
          remove_orig_solid heap4_def)
qed

lemma run_obj_make_sets:
  assumes "map_of base ''rho'' \<noteq> None"
  shows "run_obj (make_sets_obj base ax ay) init_obj =
     Inr \<lparr>fluid_var = Some 1, solid_var = Some 0, heap = heap5 base ax ay\<rparr>"
  by (subst take_make_sets_obj(5), simp only: run_obj_snoc run_obj_take)
     (simp add: call_fluid_def in_place_def heap4_facts seed_extracted [OF assms] heap5_def
        del: One_nat_def)

text \<open>The frames of the by-value run are the views of the object-level run.\<close>
lemma view_make_sets_obj:
  assumes "map_of base ''rho'' \<noteq> None"
  shows "map_sum id view (run_obj (make_sets_obj base ax ay) init_obj) =
     run (make_sets base ax ay False) init"
  by (simp add: run_obj_make_sets [OF assms] run_make_sets_False [OF assms] view_def
      heap5_facts [OF assms] del: One_nat_def)

lemma heap2_old:
  "objects (heap2 base ax ay) ! 0 = objects (heap1 base ax ay) ! 0"
  "take (length (arrays (heap1 base ax ay))) (arrays (heap2 base ax ay)) = arrays (heap1 base ax ay)"
  using heap1_facts(2) [of base ax ay]
  by (simp_all add: heap2_def alloc_def nth_append)

lemma made_solid_count:
  "num_particles (made_solid base ax ay) + length (indices (grid_x ax ay) (grid_y ax ay)) =
     num_particles (orig_solid base ax ay)"
  using length_extract_remaining [OF distinct_indices indices_in_range, of "grid_x ax ay" "grid_y ax ay"]
  by (simp add: made_solid_def orig_solid_def to_extract_def)

lemma view_take:
  "run (take 1 (program base ax ay False)) init =
     Inr (view \<lparr>fluid_var = None, solid_var = Some 0, heap = heap1 base ax ay\<rparr>)"
  "run (take 2 (program base ax ay False)) init =
     Inr (view \<lparr>fluid_var = Some 1, solid_var = Some 0, heap = heap2 base ax ay\<rparr>)"
  "run (take 3 (program base ax ay False)) init =
     Inr (view \<lparr>fluid_var = Some 1, solid_var = Some 0, heap = heap3 base ax ay\<rparr>)"
  "run (take 4 (program base ax ay False)) init =
     Inr (view \<lparr>fluid_var = Some 1, solid_var = Some 0, heap = heap4 base ax ay\<rparr>)"
  by (simp_all add: run_program_take view_def heap1_facts heap2_facts heap3_facts heap4_facts
      del: One_nat_def)

section \<open>The claims\<close>

text \<open>
  C1. With the constants of the example (\<open>Lx = 1\<close>, \<open>Ly = 2\<close>, \<open>rho1 = 1.8\<close>, \<open>rho2 = 1.0\<close>),
  \<open>create_particles\<close> with \<open>empty = False\<close> returns a fluid set whose points are exactly the
  points of the padded grid strictly inside \<open>(0, 1) \<times> (0, 2)\<close>, in grid order, and a solid
  set whose points are exactly the other grid points; the density of a fluid particle at
  \<open>(x, y)\<close> is \<open>1.8\<close> if \<open>y > 1 - 0.15 * sin (2 * pi * x)\<close> and \<open>1.0\<close> otherwise. This holds for
  the grid of any two arrays \<open>ax\<close> and \<open>ay\<close>. For the arrays of the run, with \<open>nx = 50\<close> and
  \<open>dx = 0.02\<close>, the grid has 62 by 111 points, of which 5000 are fluid and 1882 solid; the
  column at \<open>x = 1.11\<close> is solid, and the fluid particles next to the interface at
  \<open>(0.25, 0.85)\<close> and \<open>(0.75, 1.15)\<close> have the density \<open>1.8\<close>.
\<close>
theorem C1_fluid_solid_split:
  assumes "base_ok base"
  shows "\<exists>f s fx fy sx sy.
     create_particles base ax ay False = Inr [f, s] \<and>
     properties f ''x'' = Some fx \<and> properties f ''y'' = Some fy \<and>
     properties s ''x'' = Some sx \<and> properties s ''y'' = Some sy \<and>
     length fx = num_particles f \<and> length fy = num_particles f \<and>
     length sx = num_particles s \<and> length sy = num_particles s \<and>
     zip fx fy = filter (\<lambda>(xv, yv). 0 < xv \<and> xv < 1 \<and> 0 < yv \<and> yv < 2) (zip (grid_x ax ay) (grid_y ax ay)) \<and>
     zip sx sy = filter (\<lambda>(xv, yv). \<not> (0 < xv \<and> xv < 1 \<and> 0 < yv \<and> yv < 2)) (zip (grid_x ax ay) (grid_y ax ay)) \<and>
     properties f ''rho'' =
       Some (map (\<lambda>(xv, yv). if yv > 1 - 0.15 * sin (2 * pi * xv) then 1.8 else 1.0) (zip fx fy))"
proof -
  have rho: "seeded ax ay = map (\<lambda>(xv, yv). if yv > 1 - 0.15 * sin (2 * pi * xv) then 1.8 else 1.0)
      (zip (map (\<lambda>i. grid_x ax ay ! i) (to_extract ax ay)) (map (\<lambda>i. grid_y ax ay ! i) (to_extract ax ay)))"
    by (simp add: seeded_def fluid_points heavy_def rho1_def rho2_def)
  have fp: "zip (map (\<lambda>i. grid_x ax ay ! i) (to_extract ax ay)) (map (\<lambda>i. grid_y ax ay ! i) (to_extract ax ay)) =
      filter (\<lambda>(xv, yv). 0 < xv \<and> xv < 1 \<and> 0 < yv \<and> yv < 2) (zip (grid_x ax ay) (grid_y ax ay))"
    by (simp add: fluid_points inside_concrete)
  have sp: "zip (remaining (to_extract ax ay) (grid_x ax ay)) (remaining (to_extract ax ay) (grid_y ax ay)) =
      filter (\<lambda>(xv, yv). \<not> (0 < xv \<and> xv < 1 \<and> 0 < yv \<and> yv < 2)) (zip (grid_x ax ay) (grid_y ax ay))"
    by (simp add: solid_points inside_concrete)
  show ?thesis
    apply (rule exI [of _ "final_fluid base ax ay"], rule exI [of _ "final_solid base ax ay"])
    apply (rule exI [of _ "map (\<lambda>i. grid_x ax ay ! i) (to_extract ax ay)"], rule exI [of _ "map (\<lambda>i. grid_y ax ay ! i) (to_extract ax ay)"])
    apply (rule exI [of _ "remaining (to_extract ax ay) (grid_x ax ay)"], rule exI [of _ "remaining (to_extract ax ay) (grid_y ax ay)"])
    using rho fp sp
    by (simp add: create_particles_False [OF assms] final_fluid_xy final_solid_xy final_fluid_rho
        num_final_fluid num_final_solid length_remaining length_grid)
qed

theorem C1_fluid_solid_split_witness:
  "base_ok zero_base \<and>
   (\<exists>f s fx fy sx sy rho.
     create_particles zero_base axis_x axis_y False = Inr [f, s] \<and>
     properties f ''x'' = Some fx \<and> properties f ''y'' = Some fy \<and>
     properties s ''x'' = Some sx \<and> properties s ''y'' = Some sy \<and>
     properties f ''rho'' = Some rho \<and>
     num_particles f = 5000 \<and> num_particles s = 1882 \<and>
     length axis_x = 62 \<and> length axis_y = 111 \<and>
     \<bar>axis_x ! 18 - 0.25\<bar> < 1 / 10 ^ 15 \<and> \<bar>axis_y ! 48 - 0.85\<bar> < 1 / 10 ^ 15 \<and>
     \<bar>axis_x ! 43 - 0.75\<bar> < 1 / 10 ^ 15 \<and> \<bar>axis_y ! 63 - 1.15\<bar> < 1 / 10 ^ 15 \<and>
     \<bar>axis_x ! 61 - 1.11\<bar> < 1 / 10 ^ 15 \<and>
     ((axis_x ! 6, axis_y ! 6), 1.0) \<in> set (zip (zip fx fy) rho) \<and>
     ((axis_x ! 55, axis_y ! 105), 1.8) \<in> set (zip (zip fx fy) rho) \<and>
     ((axis_x ! 18, axis_y ! 48), 1.8) \<in> set (zip (zip fx fy) rho) \<and>
     ((axis_x ! 43, axis_y ! 63), 1.8) \<in> set (zip (zip fx fy) rho) \<and>
     (axis_x ! 0, axis_y ! 0) \<in> set (zip sx sy) \<and>
     (axis_x ! 61, axis_y ! 6) \<in> set (zip sx sy) \<and>
     (axis_x ! 6, axis_y ! 6) \<notin> set (zip sx sy))"
proof -
  from C1_fluid_solid_split [OF base_ok_zero_base, of axis_x axis_y] obtain f s fx fy sx sy where
    c: "create_particles zero_base axis_x axis_y False = Inr [f, s]"
    and p: "properties f ''x'' = Some fx" "properties f ''y'' = Some fy"
      "properties s ''x'' = Some sx" "properties s ''y'' = Some sy"
    and fl: "zip fx fy = filter (\<lambda>(xv, yv). 0 < xv \<and> xv < 1 \<and> 0 < yv \<and> yv < 2) (zip (grid_x axis_x axis_y) (grid_y axis_x axis_y))"
    and so: "zip sx sy = filter (\<lambda>(xv, yv). \<not> (0 < xv \<and> xv < 1 \<and> 0 < yv \<and> yv < 2)) (zip (grid_x axis_x axis_y) (grid_y axis_x axis_y))"
    and rho: "properties f ''rho'' =
       Some (map (\<lambda>(xv, yv). if yv > 1 - 0.15 * sin (2 * pi * xv) then 1.8 else 1.0) (zip fx fy))"
    by blast
  let ?g = "\<lambda>(xv, yv). if yv > 1 - 0.15 * sin (2 * pi * xv) then 1.8 else (1.0::real)"
  note io = run_points(1,3,5,7) [unfolded inside_concrete]
  have n: "num_particles f = 5000" "num_particles s = 1882"
    using c run_counts(3,4) [of zero_base]
    by (auto simp: create_particles_False [OF base_ok_zero_base])
  have in1: "(axis_x ! 6, axis_y ! 6) \<in> set (zip fx fy)"
    and in2: "(axis_x ! 55, axis_y ! 105) \<in> set (zip fx fy)"
    and in3: "(axis_x ! 18, axis_y ! 48) \<in> set (zip fx fy)"
    and in4: "(axis_x ! 43, axis_y ! 63) \<in> set (zip fx fy)"
    unfolding fl using io by (simp_all add: grid_point axis_mem)
  have g: "?g (axis_x ! 6, axis_y ! 6) = 1.0" "?g (axis_x ! 55, axis_y ! 105) = 1.8"
    "?g (axis_x ! 18, axis_y ! 48) = 1.8" "?g (axis_x ! 43, axis_y ! 63) = 1.8"
    using run_points(2,4,6,8) by (simp_all add: heavy_def)
  have r1: "((axis_x ! 6, axis_y ! 6), 1.0) \<in> set (zip (zip fx fy) (map ?g (zip fx fy)))"
    using zip_map_mem [OF in1, of ?g] by (simp only: g)
  have r2: "((axis_x ! 55, axis_y ! 105), 1.8) \<in> set (zip (zip fx fy) (map ?g (zip fx fy)))"
    using zip_map_mem [OF in2, of ?g] by (simp only: g)
  have r3: "((axis_x ! 18, axis_y ! 48), 1.8) \<in> set (zip (zip fx fy) (map ?g (zip fx fy)))"
    using zip_map_mem [OF in3, of ?g] by (simp only: g)
  have r4: "((axis_x ! 43, axis_y ! 63), 1.8) \<in> set (zip (zip fx fy) (map ?g (zip fx fy)))"
    using zip_map_mem [OF in4, of ?g] by (simp only: g)
  have s1: "(axis_x ! 0, axis_y ! 0) \<in> set (zip sx sy)"
    and s2: "(axis_x ! 61, axis_y ! 6) \<in> set (zip sx sy)"
    and s3: "(axis_x ! 6, axis_y ! 6) \<notin> set (zip sx sy)"
    unfolding so using io(1) run_outside by (auto simp: grid_point axis_mem)
  note a = length_axis axis_near
  show ?thesis
    using base_ok_zero_base c p rho n a r1 r2 r3 r4 s1 s2 s3 by blast
qed

text \<open>
  C2, as amended. Mass is conserved by the extraction itself: right after lines 59-63,
  the masses of the fluid set and of the solid set sum to the sum of the masses of the
  set that line 59 built.
\<close>
theorem C2_mass_conserved_by_extraction:
  assumes "map_of base ''m'' = Some d"
  shows "\<exists>orig f s mo mf ms.
     run (take 1 (program base ax ay False)) init = Inr \<lparr>fluid = None, solid = Some orig\<rparr> \<and>
     run (take 4 (program base ax ay False)) init = Inr \<lparr>fluid = Some f, solid = Some s\<rparr> \<and>
     properties orig ''m'' = Some mo \<and> properties f ''m'' = Some mf \<and>
     properties s ''m'' = Some ms \<and>
     sum_list mf + sum_list ms = sum_list mo"
proof -
  let ?mo = "replicate (length (grid_x ax ay)) d"
  have c: "sum_list (map (\<lambda>i. ?mo ! i) (to_extract ax ay)) + sum_list (remaining (to_extract ax ay) ?mo) = sum_list ?mo"
    unfolding to_extract_def
    using distinct_indices [of "grid_x ax ay" "grid_y ax ay"] indices_in_range [of "grid_x ax ay" "grid_y ax ay"]
    by (intro sum_extract_remaining) simp_all
  show ?thesis
    apply (rule exI [of _ "orig_solid base ax ay"])
    apply (rule exI [of _ "(extracted base ax ay)\<lparr>name := ''fluid''\<rparr>"])
    apply (rule exI [of _ "made_solid base ax ay"], rule exI [of _ ?mo])
    apply (rule exI [of _ "map (\<lambda>i. ?mo ! i) (to_extract ax ay)"])
    apply (rule exI [of _ "remaining (to_extract ax ay) ?mo"])
    using c
    by (simp add: run_program_take orig_solid_m [OF assms] extracted_m [OF assms]
        made_solid_m [OF assms] del: One_nat_def)
qed

theorem C2_mass_conserved_by_extraction_witness:
  "map_of zero_base ''m'' = Some 0 \<and>
   (\<exists>orig f s mo mf ms.
     run (take 1 (program zero_base axis_x axis_y False)) init = Inr \<lparr>fluid = None, solid = Some orig\<rparr> \<and>
     run (take 4 (program zero_base axis_x axis_y False)) init = Inr \<lparr>fluid = Some f, solid = Some s\<rparr> \<and>
     properties orig ''m'' = Some mo \<and> properties f ''m'' = Some mf \<and>
     properties s ''m'' = Some ms \<and>
     sum_list mf + sum_list ms = sum_list mo)"
proof -
  have m: "map_of zero_base ''m'' = Some 0" by (simp add: zero_base_def)
  from C2_mass_conserved_by_extraction [OF m] m show ?thesis by blast
qed

text \<open>
  C2, as stated, fails: with a base table that fills \<open>m\<close> with zero, the set that line 59
  builds has total mass zero, the solid set returned has total mass zero as well, and the
  fluid set returned has positive total mass, because line 115 has given each fluid
  particle the mass \<open>dx * dx * rho\<close>.
\<close>
theorem C2_mass_not_conserved_counterexample:
  "\<exists>orig f s mo mf ms.
     get_particle_array zero_base ''solid'' [(''x'', grid_x axis_x axis_y), (''y'', grid_y axis_x axis_y)] = Inr orig \<and>
     create_particles zero_base axis_x axis_y False = Inr [f, s] \<and>
     properties orig ''m'' = Some mo \<and> properties f ''m'' = Some mf \<and>
     properties s ''m'' = Some ms \<and>
     sum_list mo = 0 \<and> sum_list ms = 0 \<and> 0 < sum_list mf \<and>
     sum_list mf + sum_list ms \<noteq> sum_list mo"
proof -
  have m: "map_of zero_base ''m'' = Some 0" by (simp add: zero_base_def)
  show ?thesis
    apply (rule exI [of _ "orig_solid zero_base axis_x axis_y"], rule exI [of _ "final_fluid zero_base axis_x axis_y"])
    apply (rule exI [of _ "final_solid zero_base axis_x axis_y"], rule exI [of _ "replicate (length (grid_x axis_x axis_y)) 0"])
    apply (rule exI [of _ "map (\<lambda>r. dx * dx * r) (seeded axis_x axis_y)"])
    apply (rule exI [of _ "remaining (to_extract axis_x axis_y) (replicate (length (grid_x axis_x axis_y)) 0)"])
    using fluid_mass_positive [OF axis_mem(2) axis_mem(8) run_points(1)]
    by (simp add: get_orig_solid create_particles_False [OF base_ok_zero_base] orig_solid_m [OF m]
        final_solid_m [OF m] final_fluid_props remaining_zero sum_list_replicate)
qed

text \<open>
  C3. For the two sets returned by \<open>create_particles\<close> with \<open>empty = False\<close>: the mass of
  each fluid particle is its density times the cell volume \<open>dx * dx\<close>; every smoothing
  length, fluid and solid, is \<open>hdx * dx\<close>; and the reference density \<open>rho0\<close> of each fluid
  particle is that particle's density.
\<close>
theorem C3_mass_smoothing_length_rho0:
  assumes "base_ok base"
  shows "\<exists>f s rho.
     create_particles base ax ay False = Inr [f, s] \<and>
     properties f ''rho'' = Some rho \<and> length rho = num_particles f \<and>
     properties f ''m'' = Some (map (\<lambda>r. r * (dx * dx)) rho) \<and>
     properties f ''h'' = Some (replicate (num_particles f) (hdx * dx)) \<and>
     properties s ''h'' = Some (replicate (num_particles s) (hdx * dx)) \<and>
     properties f ''rho0'' = Some rho \<and>
     dx * dx = 0.0004 \<and> hdx * dx = 0.024"
proof -
  have "map (\<lambda>r. dx * dx * r) (seeded ax ay) = map (\<lambda>r. r * (dx * dx)) (seeded ax ay)"
    by (simp add: mult.commute)
  moreover have "dx * dx = 0.0004" "hdx * dx = 0.024"
    by (simp_all add: dx_def hdx_def Lx_def nx_def)
  ultimately show ?thesis
    by (intro exI [of _ "final_fluid base ax ay"] exI [of _ "final_solid base ax ay"] exI [of _ "seeded ax ay"])
       (simp add: create_particles_False [OF assms] final_fluid_rho final_fluid_props
          final_solid_props num_final_fluid num_final_solid length_seeded)
qed

theorem C3_mass_smoothing_length_rho0_witness:
  "base_ok zero_base \<and>
   (\<exists>f s rho.
     create_particles zero_base axis_x axis_y False = Inr [f, s] \<and>
     properties f ''rho'' = Some rho \<and> length rho = num_particles f \<and>
     properties f ''m'' = Some (map (\<lambda>r. r * (dx * dx)) rho) \<and>
     properties f ''h'' = Some (replicate (num_particles f) (hdx * dx)) \<and>
     properties s ''h'' = Some (replicate (num_particles s) (hdx * dx)) \<and>
     properties f ''rho0'' = Some rho \<and>
     dx * dx = 0.0004 \<and> hdx * dx = 0.024)"
  using C3_mass_smoothing_length_rho0 [OF base_ok_zero_base] base_ok_zero_base by blast

text \<open>
  C4. The equation list has exactly three groups, in this order: a group with the one rule
  for summation density, whose destination is the fluid and whose sources are the fluid
  and the solid; a group with the one rule for the solid wall, whose destination is the
  solid and whose source is the fluid, with the reference pressure \<open>p0\<close> and the gravity \<open>gy\<close>
  as parameters; and a group for the momentum of the fluid, with a body force of \<open>fy = gy\<close>
  and the momentum equation, whose sources are the fluid and the solid.
\<close>
theorem C4_equation_groups:
  "length equations = 3 \<and>
   map group_equations equations =
     [ [TransportVelocitySummationDensity ''fluid'' (Some [''fluid'', ''solid'']) c0],
       [TransportVelocitySolidWall ''solid'' (Some [''fluid'']) p0 gy],
       [BodyForce ''fluid'' None gy,
        TransportVelocityMomentumEquation ''fluid'' (Some [''fluid'', ''solid'']) nu p0] ] \<and>
   map (map dest \<circ> group_equations) equations = [[''fluid''], [''solid''], [''fluid'', ''fluid'']] \<and>
   map (map sources \<circ> group_equations) equations =
     [[Some [''fluid'', ''solid'']], [Some [''fluid'']], [None, Some [''fluid'', ''solid'']]] \<and>
   arg_p0 (hd (group_equations (equations ! 1))) = 400 \<and>
   arg_gy (hd (group_equations (equations ! 1))) = - 1 \<and>
   arg_fy (hd (group_equations (equations ! 2))) = - 1 \<and>
   c0 = 20 \<and> p0 = 400 \<and> gy = - 1 \<and> nu = 1 / 105"
  by (simp add: equations_def p0_def c0_sq gy_def nu_eq c0_def Umax_eq)

text \<open>
  C5. For a duplicate-free list of in-range indices, extracting the rows at these indices
  and removing them conserves the particle count: the extracted set and the set that
  remains have together as many particles as the original. In \<open>create_particles\<close> every point
  of the grid ends up in exactly one of the two sets returned: the fluid points and the
  solid points together are the grid points, each as often as the grid has it.
\<close>
theorem C5_count_conserved:
  assumes "distinct idx" and "list_all (\<lambda>i. i < num_particles p) idx" and "base_ok base"
  shows "(\<exists>e r. extract_particles idx p = Inr e \<and> remove_particles idx p = Inr r \<and>
            num_particles e + num_particles r = num_particles p) \<and>
         (\<exists>f s fx fy sx sy.
            create_particles base ax ay False = Inr [f, s] \<and>
            properties f ''x'' = Some fx \<and> properties f ''y'' = Some fy \<and>
            properties s ''x'' = Some sx \<and> properties s ''y'' = Some sy \<and>
            length fx = num_particles f \<and> length fy = num_particles f \<and>
            length sx = num_particles s \<and> length sy = num_particles s \<and>
            num_particles f + num_particles s = length (zip (grid_x ax ay) (grid_y ax ay)) \<and>
            mset (zip fx fy) + mset (zip sx sy) = mset (zip (grid_x ax ay) (grid_y ax ay)))"
proof -
  have 1: "\<exists>e r. extract_particles idx p = Inr e \<and> remove_particles idx p = Inr r \<and>
            num_particles e + num_particles r = num_particles p"
    using assms(2) length_extract_remaining [OF assms(1,2)]
    by (simp add: extract_particles_def remove_particles_def)
  have n: "num_particles (final_fluid base ax ay) + num_particles (final_solid base ax ay) = length (zip (grid_x ax ay) (grid_y ax ay))"
    using length_extract_remaining [OF distinct_indices indices_in_range, of "grid_x ax ay" "grid_y ax ay"]
    by (simp add: num_final_fluid num_final_solid to_extract_def length_grid)
  have m: "mset (zip (map (\<lambda>i. grid_x ax ay ! i) (to_extract ax ay)) (map (\<lambda>i. grid_y ax ay ! i) (to_extract ax ay))) +
        mset (zip (remaining (to_extract ax ay) (grid_x ax ay)) (remaining (to_extract ax ay) (grid_y ax ay))) = mset (zip (grid_x ax ay) (grid_y ax ay))"
    by (simp only: fluid_points solid_points mset_filter) (simp add: case_prod_unfold)
  have 2: "\<exists>f s fx fy sx sy.
            create_particles base ax ay False = Inr [f, s] \<and>
            properties f ''x'' = Some fx \<and> properties f ''y'' = Some fy \<and>
            properties s ''x'' = Some sx \<and> properties s ''y'' = Some sy \<and>
            length fx = num_particles f \<and> length fy = num_particles f \<and>
            length sx = num_particles s \<and> length sy = num_particles s \<and>
            num_particles f + num_particles s = length (zip (grid_x ax ay) (grid_y ax ay)) \<and>
            mset (zip fx fy) + mset (zip sx sy) = mset (zip (grid_x ax ay) (grid_y ax ay))"
    apply (rule exI [of _ "final_fluid base ax ay"], rule exI [of _ "final_solid base ax ay"])
    apply (rule exI [of _ "map (\<lambda>i. grid_x ax ay ! i) (to_extract ax ay)"], rule exI [of _ "map (\<lambda>i. grid_y ax ay ! i) (to_extract ax ay)"])
    apply (rule exI [of _ "remaining (to_extract ax ay) (grid_x ax ay)"], rule exI [of _ "remaining (to_extract ax ay) (grid_y ax ay)"])
    using n m
    by (simp add: create_particles_False [OF assms(3)] final_fluid_xy final_solid_xy
        num_final_fluid num_final_solid length_remaining length_grid)
  from 1 2 show ?thesis ..
qed

theorem C5_count_conserved_witness:
  "distinct [1, 3::nat] \<and>
   list_all (\<lambda>i. i < num_particles \<lparr>name = ''t'', num_particles = 4, properties = [''x'' \<mapsto> [1, 2, 3, 4]]\<rparr>) [1, 3] \<and>
   base_ok zero_base \<and>
   (\<exists>e r. extract_particles [1, 3] \<lparr>name = ''t'', num_particles = 4, properties = [''x'' \<mapsto> [1, 2, 3, 4]]\<rparr> = Inr e \<and>
          remove_particles [1, 3] \<lparr>name = ''t'', num_particles = 4, properties = [''x'' \<mapsto> [1, 2, 3, 4]]\<rparr> = Inr r \<and>
          num_particles e + num_particles r = 4) \<and>
   (\<exists>f s fx fy sx sy.
            create_particles zero_base axis_x axis_y False = Inr [f, s] \<and>
            properties f ''x'' = Some fx \<and> properties f ''y'' = Some fy \<and>
            properties s ''x'' = Some sx \<and> properties s ''y'' = Some sy \<and>
            length fx = num_particles f \<and> length fy = num_particles f \<and>
            length sx = num_particles s \<and> length sy = num_particles s \<and>
            num_particles f + num_particles s = length (zip (grid_x axis_x axis_y) (grid_y axis_x axis_y)) \<and>
            mset (zip fx fy) + mset (zip sx sy) = mset (zip (grid_x axis_x axis_y) (grid_y axis_x axis_y))) \<and>
   length (zip (grid_x axis_x axis_y) (grid_y axis_x axis_y)) = 6882"
proof -
  let ?p = "\<lparr>name = ''t'', num_particles = 4, properties = [''x'' \<mapsto> [1, 2, 3, 4::real]]\<rparr>"
  have d: "distinct [1, 3::nat]" by simp
  have r: "list_all (\<lambda>i. i < num_particles ?p) [1, 3]" by simp
  have n: "length (zip (grid_x axis_x axis_y) (grid_y axis_x axis_y)) = 6882"
    by (simp add: length_grid run_counts(1))
  from C5_count_conserved [OF d r base_ok_zero_base, of axis_x axis_y] d r base_ok_zero_base n
  show ?thesis by simp
qed

text \<open>
  C6. \<open>extract_particles\<close> returns a new set that holds copies of the rows at the given
  indices and leaves its source as it is. In a well-formed store, a call on the object \<open>r\<close>
  that succeeds returns a reference \<open>r'\<close> that no object had before; every object and every
  array of the store is after the call what it was before, so the source has the same
  name, particle count, properties and arrays; the new object has the rows at the indices,
  in arrays that no object had before, so that writing to the new object afterwards
  leaves the source as it is. In \<open>create_particles\<close>, which runs the same by value and on
  references, the solid object is after the two statements of line 62 what it was after
  line 59; \<open>remove_particles\<close> of line 63 is what changes it, taking away as many particles
  as there are indices, and leaves the fluid object as it is.
\<close>
theorem C6_extract_leaves_source:
  assumes "store_ok st" and "r < length (objects st)"
    and "extract_particles_obj idx r st = Inr (r', st')"
  shows "r' = length (objects st) \<and> r' \<noteq> r \<and>
     objects st' ! r = objects st ! r \<and>
     take (length (objects st)) (objects st') = objects st \<and>
     take (length (arrays st)) (arrays st') = arrays st \<and>
     list_all (\<lambda>a. length (arrays st) \<le> a) (map snd (obj_arrays (objects st' ! r'))) \<and>
     deref st' r = deref st r \<and>
     (\<forall>q. deref (store_back r' q st') r = deref st r) \<and>
     extract_particles idx (deref st r) = Inr (deref st' r') \<and>
     num_particles (deref st' r') = length idx \<and>
     properties (deref st' r') =
       (\<lambda>k. map_option (\<lambda>arr. map (\<lambda>i. arr ! i) idx) (properties (deref st r) k)) \<and>
     store_ok st' \<and>
     (\<exists>e1 e2 e3 e4 rs rf.
        run_obj (take 1 (make_sets_obj base ax ay)) init_obj = Inr e1 \<and>
        run_obj (take 2 (make_sets_obj base ax ay)) init_obj = Inr e2 \<and>
        run_obj (take 3 (make_sets_obj base ax ay)) init_obj = Inr e3 \<and>
        run_obj (take 4 (make_sets_obj base ax ay)) init_obj = Inr e4 \<and>
        run (take 1 (program base ax ay False)) init = Inr (view e1) \<and>
        run (take 2 (program base ax ay False)) init = Inr (view e2) \<and>
        run (take 3 (program base ax ay False)) init = Inr (view e3) \<and>
        run (take 4 (program base ax ay False)) init = Inr (view e4) \<and>
        map solid_var [e1, e2, e3, e4] = [Some rs, Some rs, Some rs, Some rs] \<and>
        map fluid_var [e1, e2, e3, e4] = [None, Some rf, Some rf, Some rf] \<and>
        rf \<noteq> rs \<and>
        objects (heap e2) ! rs = objects (heap e1) ! rs \<and>
        take (length (arrays (heap e1))) (arrays (heap e2)) = arrays (heap e1) \<and>
        deref (heap e2) rs = deref (heap e1) rs \<and>
        deref (heap e3) rs = deref (heap e1) rs \<and>
        deref (heap e4) rf = deref (heap e3) rf \<and>
        num_particles (deref (heap e4) rs) + length (indices (grid_x ax ay) (grid_y ax ay)) =
          num_particles (deref (heap e1) rs))"
proof -
  let ?ks = "map fst (obj_arrays (objects st ! r))"
  from extract_particles_obj_alloc [OF assms]
  obtain q where q: "extract_particles idx (deref st r) = Inr q"
    and a: "(r', st') = alloc ?ks q st"
    and new: "deref st' r' = q" and ok: "store_ok st'"
    and old: "\<And>r0. r0 < length (objects st) \<Longrightarrow> deref st' r0 = deref st r0"
    by blast
  from a have r': "r' = length (objects st)"
    and o: "objects st' = objects st @
        [\<lparr>obj_name = name q, obj_count = num_particles q,
          obj_arrays = zip ?ks [length (arrays st)..<length (arrays st) + length ?ks]\<rparr>]"
    and ar: "arrays st' = arrays st @ map (\<lambda>k. case properties q k of None \<Rightarrow> [] | Some arr \<Rightarrow> arr) ?ks"
    by (simp_all add: alloc_def)
  from r' assms(2) have ne: "r' \<noteq> r" by simp
  from o assms(2) have 1: "objects st' ! r = objects st ! r"
    "take (length (objects st)) (objects st') = objects st"
    by (simp_all add: nth_append)
  from ar have 2: "take (length (arrays st)) (arrays st') = arrays st" by simp
  have 3: "list_all (\<lambda>a. length (arrays st) \<le> a) (map snd (obj_arrays (objects st' ! r')))"
    by (simp add: o r' list_all_iff)
  have len: "r < length (objects st')" "r' < length (objects st')"
    using assms(2) by (simp_all add: o r')
  have 4: "deref (store_back r' q' st') r = deref st r" for q'
    using deref_store_back_other [OF ok len(2) len(1) ne, of q'] old [OF assms(2)] by simp
  from q have 5: "num_particles q = length idx"
    "properties q = (\<lambda>k. map_option (\<lambda>arr. map (\<lambda>i. arr ! i) idx) (properties (deref st r) k))"
    by (auto simp: extract_particles_def split: if_splits)
  let ?e1 = "\<lparr>fluid_var = None, solid_var = Some 0, heap = heap1 base ax ay\<rparr>"
  let ?e2 = "\<lparr>fluid_var = Some 1, solid_var = Some 0, heap = heap2 base ax ay\<rparr>"
  let ?e3 = "\<lparr>fluid_var = Some 1, solid_var = Some 0, heap = heap3 base ax ay\<rparr>"
  let ?e4 = "\<lparr>fluid_var = Some 1, solid_var = Some 0, heap = heap4 base ax ay\<rparr>"
  have 6: "\<exists>e1 e2 e3 e4 rs rf.
        run_obj (take 1 (make_sets_obj base ax ay)) init_obj = Inr e1 \<and>
        run_obj (take 2 (make_sets_obj base ax ay)) init_obj = Inr e2 \<and>
        run_obj (take 3 (make_sets_obj base ax ay)) init_obj = Inr e3 \<and>
        run_obj (take 4 (make_sets_obj base ax ay)) init_obj = Inr e4 \<and>
        run (take 1 (program base ax ay False)) init = Inr (view e1) \<and>
        run (take 2 (program base ax ay False)) init = Inr (view e2) \<and>
        run (take 3 (program base ax ay False)) init = Inr (view e3) \<and>
        run (take 4 (program base ax ay False)) init = Inr (view e4) \<and>
        map solid_var [e1, e2, e3, e4] = [Some rs, Some rs, Some rs, Some rs] \<and>
        map fluid_var [e1, e2, e3, e4] = [None, Some rf, Some rf, Some rf] \<and>
        rf \<noteq> rs \<and>
        objects (heap e2) ! rs = objects (heap e1) ! rs \<and>
        take (length (arrays (heap e1))) (arrays (heap e2)) = arrays (heap e1) \<and>
        deref (heap e2) rs = deref (heap e1) rs \<and>
        deref (heap e3) rs = deref (heap e1) rs \<and>
        deref (heap e4) rf = deref (heap e3) rf \<and>
        num_particles (deref (heap e4) rs) + length (indices (grid_x ax ay) (grid_y ax ay)) =
          num_particles (deref (heap e1) rs)"
    apply (rule exI [of _ ?e1], rule exI [of _ ?e2], rule exI [of _ ?e3], rule exI [of _ ?e4])
    apply (rule exI [of _ 0], rule exI [of _ 1])
    by (simp add: run_obj_take view_take heap1_facts heap2_facts heap3_facts heap4_facts
        heap2_old made_solid_count del: One_nat_def)
  from r' ne 1 2 3 old [OF assms(2)] 4 q 5 ok 6 show ?thesis
    unfolding new by blast
qed

theorem C6_extract_leaves_source_witness:
  "store_ok \<lparr>objects = [\<lparr>obj_name = ''t'', obj_count = 3, obj_arrays = [(''x'', 0)]\<rparr>],
            arrays = [[5, 6, 7]]\<rparr> \<and>
   (0::nat) < length (objects \<lparr>objects = [\<lparr>obj_name = ''t'', obj_count = 3, obj_arrays = [(''x'', 0)]\<rparr>],
            arrays = [[5, 6, 7]]\<rparr>) \<and>
   extract_particles_obj [2, 0] 0
       \<lparr>objects = [\<lparr>obj_name = ''t'', obj_count = 3, obj_arrays = [(''x'', 0)]\<rparr>],
        arrays = [[5, 6, 7]]\<rparr> =
     Inr (1, \<lparr>objects = [\<lparr>obj_name = ''t'', obj_count = 3, obj_arrays = [(''x'', 0)]\<rparr>,
                         \<lparr>obj_name = [], obj_count = 2, obj_arrays = [(''x'', 1)]\<rparr>],
              arrays = [[5, 6, 7], [7, 5]]\<rparr>) \<and>
   deref \<lparr>objects = [\<lparr>obj_name = ''t'', obj_count = 3, obj_arrays = [(''x'', 0)]\<rparr>,
                     \<lparr>obj_name = [], obj_count = 2, obj_arrays = [(''x'', 1)]\<rparr>],
          arrays = [[5, 6, 7], [7, 5]]\<rparr> 0 =
     deref \<lparr>objects = [\<lparr>obj_name = ''t'', obj_count = 3, obj_arrays = [(''x'', 0)]\<rparr>],
            arrays = [[5, 6, 7]]\<rparr> 0 \<and>
   properties (deref \<lparr>objects = [\<lparr>obj_name = ''t'', obj_count = 3, obj_arrays = [(''x'', 0)]\<rparr>],
                      arrays = [[5, 6, 7]]\<rparr> 0) ''x'' = Some [5, 6, 7] \<and>
   properties (deref \<lparr>objects = [\<lparr>obj_name = ''t'', obj_count = 3, obj_arrays = [(''x'', 0)]\<rparr>,
                     \<lparr>obj_name = [], obj_count = 2, obj_arrays = [(''x'', 1)]\<rparr>],
          arrays = [[5, 6, 7], [7, 5]]\<rparr> 1) ''x'' = Some [7, 5] \<and>
   remove_particles_obj [2, 0] 0
       \<lparr>objects = [\<lparr>obj_name = ''t'', obj_count = 3, obj_arrays = [(''x'', 0)]\<rparr>],
        arrays = [[5, 6, 7]]\<rparr> =
     Inr \<lparr>objects = [\<lparr>obj_name = ''t'', obj_count = 1, obj_arrays = [(''x'', 0)]\<rparr>],
          arrays = [[6]]\<rparr> \<and>
   (\<exists>e1 e2 e3 e4 rs rf.
      run_obj (take 1 (make_sets_obj zero_base axis_x axis_y)) init_obj = Inr e1 \<and>
      run_obj (take 2 (make_sets_obj zero_base axis_x axis_y)) init_obj = Inr e2 \<and>
      run_obj (take 3 (make_sets_obj zero_base axis_x axis_y)) init_obj = Inr e3 \<and>
      run_obj (take 4 (make_sets_obj zero_base axis_x axis_y)) init_obj = Inr e4 \<and>
      solid_var e4 = Some rs \<and> fluid_var e4 = Some rf \<and> rf \<noteq> rs \<and>
      num_particles (deref (heap e1) rs) = 6882 \<and>
      num_particles (deref (heap e2) rs) = 6882 \<and>
      num_particles (deref (heap e3) rs) = 6882 \<and>
      num_particles (deref (heap e4) rs) = 1882 \<and>
      num_particles (deref (heap e2) rf) = 5000 \<and>
      num_particles (deref (heap e4) rf) = 5000)"
proof -
  let ?ob = "\<lparr>obj_name = ''t'', obj_count = 3, obj_arrays = [(''x'', 0::nat)]\<rparr>"
  let ?st = "\<lparr>objects = [?ob], arrays = [[5, 6, 7::real]]\<rparr>"
  let ?st' = "\<lparr>objects = [?ob, \<lparr>obj_name = [], obj_count = 2, obj_arrays = [(''x'', 1)]\<rparr>],
              arrays = [[5, 6, 7::real], [7, 5]]\<rparr>"
  have ok: "store_ok ?st" by (simp add: store_ok_def)
  have r: "(0::nat) < length (objects ?st)" by simp
  have x: "properties (deref ?st 0) ''x'' = Some [5, 6, 7]"
    by (simp add: deref_def)
  have e: "extract_particles_obj [2, 0] 0 ?st = Inr (1, ?st')"
    by (simp add: extract_particles_obj_def extract_particles_def deref_def alloc_def)
  have "(\<lambda>k. map_option (remaining [2, 0]) (map_option (\<lambda>a. [[5, 6, 7::real]] ! a) (map_of [(''x'', 0::nat)] k))) ''x'' =
      Some [6]"
    by (simp add: remaining_def)
  then have m: "remove_particles_obj [2, 0] 0 ?st =
      Inr \<lparr>objects = [\<lparr>obj_name = ''t'', obj_count = 1, obj_arrays = [(''x'', 0)]\<rparr>], arrays = [[6]]\<rparr>"
    by (simp add: remove_particles_obj_def in_place_def remove_particles_def deref_def
        store_back_def numeral_3_eq_3)
  note c = C6_extract_leaves_source [OF ok r e, of zero_base axis_x axis_y]
  from c have d: "deref ?st' 0 = deref ?st 0"
    and p: "properties (deref ?st' 1) =
       (\<lambda>k. map_option (\<lambda>arr. map (\<lambda>i. arr ! i) [2, 0]) (properties (deref ?st 0) k))"
    by blast+
  from p x have y: "properties (deref ?st' 1) ''x'' = Some [7, 5]"
    by simp
  note b = c [THEN conjunct2, THEN conjunct2, THEN conjunct2, THEN conjunct2, THEN conjunct2,
      THEN conjunct2, THEN conjunct2, THEN conjunct2, THEN conjunct2, THEN conjunct2,
      THEN conjunct2, THEN conjunct2]
  from b obtain e1 e2 e3 e4 rs rf where
    ro: "run_obj (take 1 (make_sets_obj zero_base axis_x axis_y)) init_obj = Inr e1"
      "run_obj (take 2 (make_sets_obj zero_base axis_x axis_y)) init_obj = Inr e2"
      "run_obj (take 3 (make_sets_obj zero_base axis_x axis_y)) init_obj = Inr e3"
      "run_obj (take 4 (make_sets_obj zero_base axis_x axis_y)) init_obj = Inr e4"
    and v: "run (take 1 (program zero_base axis_x axis_y False)) init = Inr (view e1)"
      "run (take 2 (program zero_base axis_x axis_y False)) init = Inr (view e2)"
      "run (take 3 (program zero_base axis_x axis_y False)) init = Inr (view e3)"
    and sv: "map solid_var [e1, e2, e3, e4] = [Some rs, Some rs, Some rs, Some rs]"
    and fv: "map fluid_var [e1, e2, e3, e4] = [None, Some rf, Some rf, Some rf]"
    and ne: "rf \<noteq> rs"
    and s: "deref (heap e2) rs = deref (heap e1) rs" "deref (heap e3) rs = deref (heap e1) rs"
    and f: "deref (heap e4) rf = deref (heap e3) rf"
    and n: "num_particles (deref (heap e4) rs) +
        length (indices (grid_x axis_x axis_y) (grid_y axis_x axis_y)) =
        num_particles (deref (heap e1) rs)"
    by (elim exE conjE) (rule that; assumption)
  from v(1) sv have "deref (heap e1) rs = orig_solid zero_base axis_x axis_y"
    by (simp add: run_program_take view_def del: One_nat_def)
  then have n1: "num_particles (deref (heap e1) rs) = 6882"
    by (simp add: orig_solid_def run_counts)
  from v(2) fv have "deref (heap e2) rf = extracted zero_base axis_x axis_y"
    by (simp add: run_program_take view_def)
  then have n2: "num_particles (deref (heap e2) rf) = 5000"
    by (simp add: extracted_def run_counts)
  from v(3) fv have "deref (heap e3) rf = (extracted zero_base axis_x axis_y)\<lparr>name := ''fluid''\<rparr>"
    by (simp add: run_program_take view_def)
  then have n3: "num_particles (deref (heap e4) rf) = 5000"
    by (simp add: f extracted_def run_counts)
  from n n1 have n4: "num_particles (deref (heap e4) rs) = 1882"
    by (simp add: run_counts(2) [unfolded to_extract_def])
  from sv fv have var: "solid_var e4 = Some rs" "fluid_var e4 = Some rf"
    by simp_all
  have B: "\<exists>e1 e2 e3 e4 rs rf.
      run_obj (take 1 (make_sets_obj zero_base axis_x axis_y)) init_obj = Inr e1 \<and>
      run_obj (take 2 (make_sets_obj zero_base axis_x axis_y)) init_obj = Inr e2 \<and>
      run_obj (take 3 (make_sets_obj zero_base axis_x axis_y)) init_obj = Inr e3 \<and>
      run_obj (take 4 (make_sets_obj zero_base axis_x axis_y)) init_obj = Inr e4 \<and>
      solid_var e4 = Some rs \<and> fluid_var e4 = Some rf \<and> rf \<noteq> rs \<and>
      num_particles (deref (heap e1) rs) = 6882 \<and>
      num_particles (deref (heap e2) rs) = 6882 \<and>
      num_particles (deref (heap e3) rs) = 6882 \<and>
      num_particles (deref (heap e4) rs) = 1882 \<and>
      num_particles (deref (heap e2) rf) = 5000 \<and>
      num_particles (deref (heap e4) rf) = 5000"
    apply (rule exI [of _ e1], rule exI [of _ e2], rule exI [of _ e3], rule exI [of _ e4])
    apply (rule exI [of _ rs], rule exI [of _ rf])
    using ro var ne n1 n2 n3 n4 by (simp only: s) simp
  from ok r e d x y m B show ?thesis
    by (intro conjI)
qed

text \<open>
  C7. Every frame that \<open>create_particles\<close> goes through, from entry to return and in both
  branches, holds only sets in which every property array has exactly as many entries as
  the set has particles; with a base table that fits, every statement is reached, so that
  these are the frames after each statement. Each of \<open>add_property\<close> and
  \<open>remove_particles\<close> keeps the invariant, and \<open>extract_particles\<close> returns a set that has it.
\<close>
theorem C7_arrays_have_particle_count:
  assumes "base_ok base" and "consistent p" and "add_property k p = Inr q"
    and "remove_particles idx p = Inr r" and "extract_particles idx p = Inr e"
  shows "list_all frame_consistent (trace (program base ax ay is_empty) init) \<and>
     length (trace (program base ax ay is_empty) init) = Suc (length (program base ax ay is_empty)) \<and>
     (\<exists>f s. create_particles base ax ay is_empty = Inr [f, s] \<and> consistent f \<and> consistent s) \<and>
     consistent q \<and> consistent r \<and> consistent e"
proof -
  have 1: "list_all frame_consistent (trace (program base ax ay is_empty) init)"
    by (rule trace_consistent [OF program_keeps_frame frame_consistent_init])
  from run_program_total [OF assms(1)] obtain t
    where t: "run (program base ax ay is_empty) init = Inr t" by blast
  from trace_of_run [OF t]
  have 2: "length (trace (program base ax ay is_empty) init) = Suc (length (program base ax ay is_empty))"
    by simp
  have "frame_consistent t"
    by (rule run_consistent [OF program_keeps_frame frame_consistent_init t])
  moreover have "\<exists>f s. t = \<lparr>fluid = Some f, solid = Some s\<rparr>"
  proof (cases is_empty)
    case True
    with t run_program_True [OF assms(1)]
    have "t = \<lparr>fluid = Some (fluid_added (empty_set base ''fluid'') []),
                solid = Some (solid_added (empty_set base ''solid''))\<rparr>"
      by simp
    then show ?thesis by (intro exI)
  next
    case False
    with t run_program_False [OF assms(1)]
    have "t = \<lparr>fluid = Some (final_fluid base ax ay), solid = Some (final_solid base ax ay)\<rparr>"
      by simp
    then show ?thesis by (intro exI)
  qed
  ultimately obtain f s where fs: "t = \<lparr>fluid = Some f, solid = Some s\<rparr>"
    "consistent f" "consistent s"
    unfolding frame_consistent_def by fastforce
  with t have "create_particles base ax ay is_empty = Inr [f, s]"
    by (simp add: create_particles_def)
  with fs have 3: "\<exists>f s. create_particles base ax ay is_empty = Inr [f, s] \<and> consistent f \<and> consistent s"
    by blast
  have 4: "consistent q"
    using assms(2,3) consistent_add_property [of k] unfolding keeps_consistent_def by blast
  have 6: "consistent r"
    using assms(2,4) consistent_remove_particles [of idx] unfolding keeps_consistent_def by blast
  have 5: "consistent e"
    by (rule consistent_extract_particles [OF assms(5)])
  from 1 2 3 4 6 5 show ?thesis by (intro conjI)
qed

theorem C7_arrays_have_particle_count_witness:
  "base_ok zero_base \<and>
   consistent \<lparr>name = ''t'', num_particles = 3, properties = [''x'' \<mapsto> [5, 6, 7]]\<rparr> \<and>
   add_property ''V'' \<lparr>name = ''t'', num_particles = 3, properties = [''x'' \<mapsto> [5, 6, 7]]\<rparr> =
     Inr \<lparr>name = ''t'', num_particles = 3, properties = [''x'' \<mapsto> [5, 6, 7], ''V'' \<mapsto> [0, 0, 0]]\<rparr> \<and>
   remove_particles [2, 0] \<lparr>name = ''t'', num_particles = 3, properties = [''x'' \<mapsto> [5, 6, 7]]\<rparr> =
     Inr \<lparr>name = ''t'', num_particles = 1, properties = [''x'' \<mapsto> [6]]\<rparr> \<and>
   extract_particles [2, 0] \<lparr>name = ''t'', num_particles = 3, properties = [''x'' \<mapsto> [5, 6, 7]]\<rparr> =
     Inr \<lparr>name = [], num_particles = 2, properties = [''x'' \<mapsto> [7, 5]]\<rparr> \<and>
   list_all frame_consistent (trace (program zero_base axis_x axis_y True) init) \<and>
   length (trace (program zero_base axis_x axis_y True) init) = 21 \<and>
   (\<exists>f s. create_particles zero_base axis_x axis_y True = Inr [f, s] \<and> consistent f \<and> consistent s) \<and>
   consistent \<lparr>name = ''t'', num_particles = 3, properties = [''x'' \<mapsto> [5, 6, 7], ''V'' \<mapsto> [0, 0, 0]]\<rparr> \<and>
   consistent \<lparr>name = ''t'', num_particles = 1, properties = [''x'' \<mapsto> [6]]\<rparr> \<and>
   consistent \<lparr>name = [], num_particles = 2, properties = [''x'' \<mapsto> [7, 5]]\<rparr>"
proof -
  let ?p = "\<lparr>name = ''t'', num_particles = 3, properties = [''x'' \<mapsto> [5, 6, 7::real]]\<rparr>"
  let ?q = "\<lparr>name = ''t'', num_particles = 3, properties = [''x'' \<mapsto> [5, 6, 7::real], ''V'' \<mapsto> [0, 0, 0]]\<rparr>"
  let ?r = "\<lparr>name = ''t'', num_particles = 1, properties = [''x'' \<mapsto> [6::real]]\<rparr>"
  let ?e = "\<lparr>name = [], num_particles = 2, properties = [''x'' \<mapsto> [7, 5::real]]\<rparr>"
  have c: "consistent ?p"
    by (auto simp: consistent_def split: if_splits)
  have a: "add_property ''V'' ?p = Inr ?q"
    by (simp add: add_property_def numeral_3_eq_3)
  have "(\<lambda>k. map_option (remaining [2, 0]) ([''x'' \<mapsto> [5, 6, 7::real]] k)) = [''x'' \<mapsto> [6]]"
    by (rule ext) (simp add: remaining_def)
  then have r: "remove_particles [2, 0] ?p = Inr ?r"
    by (simp add: remove_particles_def numeral_3_eq_3)
  have "(\<lambda>k. map_option (\<lambda>arr. map (\<lambda>i. arr ! i) [2, 0]) ([''x'' \<mapsto> [5, 6, 7::real]] k)) =
        [''x'' \<mapsto> [7, 5]]"
    by (rule ext) simp
  then have e: "extract_particles [2, 0] ?p = Inr ?e"
    by (simp add: extract_particles_def)
  have n: "length (program zero_base axis_x axis_y True) = 20"
    by (simp add: program_def make_sets_def add_properties_def)
  from C7_arrays_have_particle_count [OF base_ok_zero_base c a r e, of axis_x axis_y True]
    base_ok_zero_base c a r e n
  show ?thesis by simp
qed

text \<open>
  C8. \<open>add_property\<close> on a set that holds particles gives every one of them the value zero
  in the new array and leaves the particle count as it is; and in the sets returned by
  \<open>create_particles\<close> with \<open>empty = False\<close> the properties that are added and never assigned
  (\<open>uhat\<close>, \<open>vhat\<close>, \<open>au\<close>, \<open>av\<close>, \<open>aw\<close>, \<open>auhat\<close>, \<open>avhat\<close> of the fluid; \<open>uhat\<close>, \<open>vhat\<close>, \<open>wij\<close>,
  \<open>u0\<close>, \<open>v0\<close> of the solid) are zero for every particle. This holds for the grid of any two
  arrays; with the arrays of the run both sets hold particles, 5000 and 1882 of them.
\<close>
theorem C8_added_properties_zero:
  assumes "add_property k p = Inr q" and "base_ok base"
  shows "properties q k = Some (replicate (num_particles p) 0) \<and>
     num_particles q = num_particles p \<and>
     (\<exists>f s.
        create_particles base ax ay False = Inr [f, s] \<and>
        list_all (\<lambda>k. properties f k = Some (replicate (num_particles f) 0))
          [''uhat'', ''vhat'', ''au'', ''av'', ''aw'', ''auhat'', ''avhat''] \<and>
        list_all (\<lambda>k. properties s k = Some (replicate (num_particles s) 0))
          [''uhat'', ''vhat'', ''wij'', ''u0'', ''v0'']) \<and>
     (\<exists>f s.
        create_particles base axis_x axis_y False = Inr [f, s] \<and>
        0 < num_particles f \<and> 0 < num_particles s \<and>
        num_particles f = 5000 \<and> num_particles s = 1882 \<and>
        list_all (\<lambda>k. properties f k = Some (replicate (num_particles f) 0))
          [''uhat'', ''vhat'', ''au'', ''av'', ''aw'', ''auhat'', ''avhat''] \<and>
        list_all (\<lambda>k. properties s k = Some (replicate (num_particles s) 0))
          [''uhat'', ''vhat'', ''wij'', ''u0'', ''v0''])"
proof -
  from assms(1) have 1: "properties q k = Some (replicate (num_particles p) 0) \<and>
      num_particles q = num_particles p"
    by (auto simp: add_property_def split: option.splits)
  have 2: "\<exists>f s.
        create_particles base ax ay False = Inr [f, s] \<and>
        list_all (\<lambda>k. properties f k = Some (replicate (num_particles f) 0))
          [''uhat'', ''vhat'', ''au'', ''av'', ''aw'', ''auhat'', ''avhat''] \<and>
        list_all (\<lambda>k. properties s k = Some (replicate (num_particles s) 0))
          [''uhat'', ''vhat'', ''wij'', ''u0'', ''v0'']" for ax ay
    using final_fluid_zero [of base ax ay] final_solid_zero [of base ax ay]
    by (simp add: create_particles_False [OF assms(2)])
  have 3: "\<exists>f s.
        create_particles base axis_x axis_y False = Inr [f, s] \<and>
        0 < num_particles f \<and> 0 < num_particles s \<and>
        num_particles f = 5000 \<and> num_particles s = 1882 \<and>
        list_all (\<lambda>k. properties f k = Some (replicate (num_particles f) 0))
          [''uhat'', ''vhat'', ''au'', ''av'', ''aw'', ''auhat'', ''avhat''] \<and>
        list_all (\<lambda>k. properties s k = Some (replicate (num_particles s) 0))
          [''uhat'', ''vhat'', ''wij'', ''u0'', ''v0'']"
    using final_fluid_zero [of base axis_x axis_y] final_solid_zero [of base axis_x axis_y]
      run_counts(3,4) [of base]
    by (simp add: create_particles_False [OF assms(2)])
  from 1 2 [of ax ay] 3 show ?thesis by (intro conjI) simp_all
qed

theorem C8_added_properties_zero_witness:
  "add_property ''V'' \<lparr>name = ''t'', num_particles = 2, properties = [''x'' \<mapsto> [1, 2]]\<rparr> =
     Inr \<lparr>name = ''t'', num_particles = 2, properties = [''x'' \<mapsto> [1, 2], ''V'' \<mapsto> [0, 0]]\<rparr> \<and>
   base_ok zero_base \<and>
   [''x'' \<mapsto> [1, 2], ''V'' \<mapsto> [0, 0::real]] ''V'' = Some (replicate 2 0) \<and>
   (\<exists>f s.
        create_particles zero_base axis_x axis_y False = Inr [f, s] \<and>
        0 < num_particles f \<and> 0 < num_particles s \<and>
        num_particles f = 5000 \<and> num_particles s = 1882 \<and>
        list_all (\<lambda>k. properties f k = Some (replicate (num_particles f) 0))
          [''uhat'', ''vhat'', ''au'', ''av'', ''aw'', ''auhat'', ''avhat''] \<and>
        list_all (\<lambda>k. properties s k = Some (replicate (num_particles s) 0))
          [''uhat'', ''vhat'', ''wij'', ''u0'', ''v0''])"
proof -
  have a: "add_property ''V'' \<lparr>name = ''t'', num_particles = 2, properties = [''x'' \<mapsto> [1, 2]]\<rparr> =
     Inr \<lparr>name = ''t'', num_particles = 2, properties = [''x'' \<mapsto> [1, 2], ''V'' \<mapsto> [0, 0]]\<rparr>"
    by (simp add: add_property_def numeral_2_eq_2)
  from C8_added_properties_zero [OF a base_ok_zero_base, of axis_x axis_y] a base_ok_zero_base
  show ?thesis by simp
qed

text \<open>
  C9. After \<open>create_particles\<close> with \<open>empty = False\<close> the reference pressure of each fluid
  particle is \<open>c0\<^sup>2\<close> divided by its density, so that \<open>p0[i] * rho0[i] = c0\<^sup>2\<close>: a particle
  of the heavy phase carries \<open>c0\<^sup>2 / rho1\<close>, a particle of the light phase \<open>c0\<^sup>2 / rho2\<close>, and
  the former is smaller than the latter and than the module constant \<open>p0 = c0\<^sup>2\<close>.
\<close>
theorem C9_reference_pressure:
  assumes "base_ok base"
  shows "\<exists>f s fx fy rho rho0 pp.
     create_particles base ax ay False = Inr [f, s] \<and>
     properties f ''x'' = Some fx \<and> properties f ''y'' = Some fy \<and>
     properties f ''rho'' = Some rho \<and> properties f ''rho0'' = Some rho0 \<and>
     properties f ''p0'' = Some pp \<and>
     length rho = num_particles f \<and>
     pp = map (\<lambda>r. c0 ^ 2 / r) rho \<and>
     map (\<lambda>(p, r). p * r) (zip pp rho0) = replicate (num_particles f) (c0 ^ 2) \<and>
     pp = map (\<lambda>(xv, yv). if heavy xv yv then c0 ^ 2 / rho1 else c0 ^ 2 / rho2) (zip fx fy) \<and>
     c0 ^ 2 / rho1 < c0 ^ 2 / rho2 \<and> c0 ^ 2 / rho1 < p0"
proof -
  have 1: "map (\<lambda>(p, r). p * r) (zip (map (\<lambda>r. c0 ^ 2 / r) (seeded ax ay)) (seeded ax ay)) =
        replicate (length (to_extract ax ay)) (c0 ^ 2)"
  proof (rule nth_equalityI)
    show "length (map (\<lambda>(p, r). p * r) (zip (map (\<lambda>r. c0 ^ 2 / r) (seeded ax ay)) (seeded ax ay))) =
          length (replicate (length (to_extract ax ay)) (c0 ^ 2))"
      by (simp add: length_seeded)
  next
    fix i
    assume "i < length (map (\<lambda>(p, r). p * r) (zip (map (\<lambda>r. c0 ^ 2 / r) (seeded ax ay)) (seeded ax ay)))"
    then have i: "i < length (seeded ax ay)" by simp
    then have "seeded ax ay ! i \<noteq> 0" using seeded_nonzero [of "seeded ax ay ! i" ax ay] by simp
    with i show "map (\<lambda>(p, r). p * r) (zip (map (\<lambda>r. c0 ^ 2 / r) (seeded ax ay)) (seeded ax ay)) ! i =
          replicate (length (to_extract ax ay)) (c0 ^ 2) ! i"
      by (simp add: length_seeded)
  qed
  have 2: "map (\<lambda>r. c0 ^ 2 / r) (seeded ax ay) =
        map (\<lambda>(xv, yv). if heavy xv yv then c0 ^ 2 / rho1 else c0 ^ 2 / rho2)
          (zip (map (\<lambda>i. grid_x ax ay ! i) (to_extract ax ay)) (map (\<lambda>i. grid_y ax ay ! i) (to_extract ax ay)))"
    by (simp add: seeded_def fluid_points)
  have 3: "c0 ^ 2 / rho1 < c0 ^ 2 / rho2" "c0 ^ 2 / rho1 < p0"
    by (simp_all add: p0_def c0_sq rho1_def rho2_def)
  show ?thesis
    apply (rule exI [of _ "final_fluid base ax ay"], rule exI [of _ "final_solid base ax ay"])
    apply (rule exI [of _ "map (\<lambda>i. grid_x ax ay ! i) (to_extract ax ay)"], rule exI [of _ "map (\<lambda>i. grid_y ax ay ! i) (to_extract ax ay)"])
    apply (rule exI [of _ "seeded ax ay"], rule exI [of _ "seeded ax ay"], rule exI [of _ "map (\<lambda>r. c0 ^ 2 / r) (seeded ax ay)"])
    using 1 2 3
    by (simp add: create_particles_False [OF assms] final_fluid_rho final_fluid_props
          final_fluid_xy num_final_fluid length_seeded)
qed

theorem C9_reference_pressure_witness:
  "base_ok zero_base \<and>
   (\<exists>f s fx fy pp.
     create_particles zero_base axis_x axis_y False = Inr [f, s] \<and>
     properties f ''x'' = Some fx \<and> properties f ''y'' = Some fy \<and>
     properties f ''p0'' = Some pp \<and>
     ((axis_x ! 6, axis_y ! 6), 400) \<in> set (zip (zip fx fy) pp) \<and>
     ((axis_x ! 55, axis_y ! 105), 2000 / 9) \<in> set (zip (zip fx fy) pp)) \<and>
   p0 = 400"
proof -
  let ?g = "\<lambda>(xv, yv). if heavy xv yv then c0 ^ 2 / rho1 else c0 ^ 2 / rho2"
  from C9_reference_pressure [OF base_ok_zero_base, of axis_x axis_y] obtain f s fx fy pp where
    c: "create_particles zero_base axis_x axis_y False = Inr [f, s]"
    and p: "properties f ''x'' = Some fx" "properties f ''y'' = Some fy"
      "properties f ''p0'' = Some pp"
    and pp: "pp = map ?g (zip fx fy)"
    by blast
  note pt1 = final_fluid_points [OF c p(1,2) axis_mem(2) axis_mem(8) run_points(1)]
  note pt2 = final_fluid_points [OF c p(1,2) axis_mem(5) axis_mem(11) run_points(3)]
  have g: "?g (axis_x ! 6, axis_y ! 6) = 400" "?g (axis_x ! 55, axis_y ! 105) = 2000 / 9"
    using run_points(2,4) by (simp_all add: c0_sq rho1_def rho2_def)
  have r1: "((axis_x ! 6, axis_y ! 6), 400) \<in> set (zip (zip fx fy) pp)"
    unfolding pp using zip_map_mem [OF pt1, of ?g] by (simp only: g)
  have r2: "((axis_x ! 55, axis_y ! 105), 2000 / 9) \<in> set (zip (zip fx fy) pp)"
    unfolding pp using zip_map_mem [OF pt2, of ?g] by (simp only: g)
  have "p0 = 400" by (simp add: p0_def c0_sq)
  then show ?thesis
    using base_ok_zero_base c p r1 r2 by blast
qed

text \<open>
  C10, as stated, fails. The statements of lines 98 and 101, which seed the reference
  density and the reference pressure from the density, stand outside the test of line 111:
  they are the statements of index 14 and 16 of the run with \<open>empty = True\<close>, which runs
  its twenty statements to the end. They read \<^verbatim>\<open>fluid.rho\<close>: on sets without a density the
  run with \<open>empty = True\<close> fails at line 98, where creating the sets and declaring the
  properties alone succeeds. The statements skipped are those of lines 112-123, which the
  run with \<open>empty = True\<close> does not contain.
\<close>
theorem C10_seeding_not_skipped_counterexample:
  "program zero_base axis_x axis_y True ! 14 = on_fluid (assign_from ''rho0'' (\<lambda>r. r) ''rho'') \<and>
   program zero_base axis_x axis_y True ! 16 = on_fluid (assign_from ''p0'' (\<lambda>r. c0 ^ 2 / r) ''rho'') \<and>
   length (program zero_base axis_x axis_y True) = 20 \<and>
   length (trace (program zero_base axis_x axis_y True) init) = 21 \<and>
   (\<exists>t. run (take 14 (program [] axis_x axis_y True)) init = Inr t) \<and>
   run (take 15 (program [] axis_x axis_y True)) init = Inl AttributeError \<and>
   create_particles [] axis_x axis_y True = Inl AttributeError \<and>
   (\<exists>t. run (make_sets [] axis_x axis_y True @ declare_properties) init = Inr t)"
proof -
  have p: "program zero_base axis_x axis_y True ! 14 = on_fluid (assign_from ''rho0'' (\<lambda>r. r) ''rho'')"
    "program zero_base axis_x axis_y True ! 16 = on_fluid (assign_from ''p0'' (\<lambda>r. c0 ^ 2 / r) ''rho'')"
    "length (program zero_base axis_x axis_y True) = 20"
    by (simp_all add: program_def make_sets_def add_properties_def)
  from run_program_total [OF base_ok_zero_base, of axis_x axis_y True] obtain t
    where "run (program zero_base axis_x axis_y True) init = Inr t" by blast
  from trace_of_run [OF this] p(3)
  have t: "length (trace (program zero_base axis_x axis_y True) init) = 21"
    by simp
  have e: "replicate 0 = (\<lambda>d::real. [])" by (rule ext) simp
  have r14: "\<exists>t. run (take 14 (program [] axis_x axis_y True)) init = Inr t"
    by (simp add: program_def make_sets_def add_properties_def init_def new_fluid_def new_solid_def
        get_particle_array_def on_fluid_def on_solid_def add_property_def e)
  have r15: "run (take 15 (program [] axis_x axis_y True)) init = Inl AttributeError"
    by (simp add: program_def make_sets_def add_properties_def init_def new_fluid_def new_solid_def
        get_particle_array_def on_fluid_def on_solid_def add_property_def assign_from_def
        get_attr_def e)
  have c: "create_particles [] axis_x axis_y True = Inl AttributeError"
    by (simp add: create_particles_def program_def make_sets_def add_properties_def init_def
        new_fluid_def new_solid_def get_particle_array_def on_fluid_def on_solid_def
        add_property_def assign_from_def get_attr_def e)
  have d: "\<exists>t. run (make_sets [] axis_x axis_y True @ declare_properties) init = Inr t"
    by (simp add: make_sets_def declare_properties_def init_def new_fluid_def new_solid_def
        get_particle_array_def on_fluid_def on_solid_def add_property_def e)
  from p t r14 r15 c d show ?thesis by blast
qed

text \<open>
  C10, as amended. \<open>create_particles\<close> with \<open>empty = True\<close> returns a fluid set and a solid set
  with no particles. Their properties are the base properties and the added ones (\<open>V\<close>,
  \<open>uhat\<close>, \<open>vhat\<close>, \<open>auhat\<close>, \<open>avhat\<close>, \<open>au\<close>, \<open>av\<close>, \<open>aw\<close>, \<open>rho0\<close>, \<open>p0\<close> on the fluid; \<open>V\<close>,
  \<open>uhat\<close>, \<open>vhat\<close>, \<open>wij\<close>, \<open>u0\<close>, \<open>v0\<close> on the solid), each an empty array, and the added ones
  are those the sets of the non-empty case have as well. The statements skipped are the
  density loop of lines 66-71 and the assignments of \<open>m\<close>, \<open>V\<close> and \<open>h\<close> of lines 112-123, which
  are run only when \<open>empty\<close> is \<open>False\<close>. The slice assignments of lines 98 and 101 are run in
  both cases; when \<open>empty\<close> is \<open>True\<close> they meet arrays of length zero and assign no value:
  the frame reached is the one that creating the sets and declaring the properties alone
  gives.
\<close>
theorem C10_empty_sets:
  assumes "base_ok base"
  shows "\<exists>f s.
     create_particles base ax ay True = Inr [f, s] \<and>
     name f = ''fluid'' \<and> name s = ''solid'' \<and>
     num_particles f = 0 \<and> num_particles s = 0 \<and>
     properties f =
       (\<lambda>k. if map_of base k = None \<and>
                k \<notin> set [''V'', ''uhat'', ''vhat'', ''auhat'', ''avhat'', ''au'', ''av'', ''aw'', ''rho0'', ''p0'']
             then None else Some []) \<and>
     properties s =
       (\<lambda>k. if map_of base k = None \<and> k \<notin> set [''V'', ''uhat'', ''vhat'', ''wij'', ''u0'', ''v0'']
             then None else Some []) \<and>
     (\<exists>f' s'. create_particles base ax ay False = Inr [f', s'] \<and>
        list_all (\<lambda>k. properties f' k \<noteq> None)
          [''V'', ''uhat'', ''vhat'', ''auhat'', ''avhat'', ''au'', ''av'', ''aw'', ''rho0'', ''p0''] \<and>
        list_all (\<lambda>k. properties s' k \<noteq> None) [''V'', ''uhat'', ''vhat'', ''wij'', ''u0'', ''v0'']) \<and>
     program base ax ay True = make_sets base ax ay True @ add_properties \<and>
     program base ax ay False = make_sets base ax ay False @ add_properties @ set_values \<and>
     make_sets base ax ay True =
       [new_fluid (get_particle_array base ''fluid'' []), new_solid (get_particle_array base ''solid'' [])] \<and>
     last (make_sets base ax ay False) = on_fluid seed_density \<and>
     program base ax ay True ! 14 = on_fluid (assign_from ''rho0'' (\<lambda>r. r) ''rho'') \<and>
     program base ax ay True ! 16 = on_fluid (assign_from ''p0'' (\<lambda>r. c0 ^ 2 / r) ''rho'') \<and>
     program base ax ay False ! 17 = on_fluid (assign_from ''rho0'' (\<lambda>r. r) ''rho'') \<and>
     program base ax ay False ! 19 = on_fluid (assign_from ''p0'' (\<lambda>r. c0 ^ 2 / r) ''rho'') \<and>
     run (program base ax ay True) init = run (make_sets base ax ay True @ declare_properties) init \<and>
     run (program base ax ay True) init = Inr \<lparr>fluid = Some f, solid = Some s\<rparr>"
proof -
  let ?f = "fluid_added (empty_set base ''fluid'') []"
  let ?s = "solid_added (empty_set base ''solid'')"
  have 1: "name ?f = ''fluid''" "name ?s = ''solid''" "num_particles ?f = 0" "num_particles ?s = 0"
    by (simp_all add: fluid_added_def solid_added_def empty_set_def)
  have 2: "\<exists>f' s'. create_particles base ax ay False = Inr [f', s'] \<and>
        list_all (\<lambda>k. properties f' k \<noteq> None)
          [''V'', ''uhat'', ''vhat'', ''auhat'', ''avhat'', ''au'', ''av'', ''aw'', ''rho0'', ''p0''] \<and>
        list_all (\<lambda>k. properties s' k \<noteq> None) [''V'', ''uhat'', ''vhat'', ''wij'', ''u0'', ''v0'']"
    using final_fluid_extras [of base] final_solid_extras [of base]
      create_particles_False [OF assms] by blast
  have 3: "program base ax ay True = make_sets base ax ay True @ add_properties"
    "program base ax ay False = make_sets base ax ay False @ add_properties @ set_values"
    by (simp_all add: program_def)
  have 4: "run (program base ax ay True) init = run (make_sets base ax ay True @ declare_properties) init"
    by (simp only: run_program_True [OF assms] run_declare_True [OF assms])
  have 5: "make_sets base ax ay True =
       [new_fluid (get_particle_array base ''fluid'' []), new_solid (get_particle_array base ''solid'' [])]"
    "last (make_sets base ax ay False) = on_fluid seed_density"
    "program base ax ay True ! 14 = on_fluid (assign_from ''rho0'' (\<lambda>r. r) ''rho'')"
    "program base ax ay True ! 16 = on_fluid (assign_from ''p0'' (\<lambda>r. c0 ^ 2 / r) ''rho'')"
    "program base ax ay False ! 17 = on_fluid (assign_from ''rho0'' (\<lambda>r. r) ''rho'')"
    "program base ax ay False ! 19 = on_fluid (assign_from ''p0'' (\<lambda>r. c0 ^ 2 / r) ''rho'')"
    by (simp_all add: program_def make_sets_def add_properties_def)
  show ?thesis
    using create_particles_True [OF assms] 1 empty_fluid_props [of base]
      empty_solid_props [of base] 2 3 4 5 run_program_True [OF assms]
    by blast
qed

theorem C10_empty_sets_witness:
  "base_ok zero_base \<and>
   (\<exists>f s.
     create_particles zero_base axis_x axis_y True = Inr [f, s] \<and>
     name f = ''fluid'' \<and> name s = ''solid'' \<and>
     num_particles f = 0 \<and> num_particles s = 0 \<and>
     properties f ''x'' = Some [] \<and> properties f ''rho'' = Some [] \<and> properties f ''m'' = Some [] \<and>
     properties f ''V'' = Some [] \<and> properties f ''p0'' = Some [] \<and> properties f ''wij'' = None \<and>
     properties s ''h'' = Some [] \<and> properties s ''wij'' = Some [] \<and> properties s ''rho0'' = None \<and>
     program zero_base axis_x axis_y True ! 14 = on_fluid (assign_from ''rho0'' (\<lambda>r. r) ''rho'') \<and>
     program zero_base axis_x axis_y False ! 17 = on_fluid (assign_from ''rho0'' (\<lambda>r. r) ''rho'') \<and>
     run (program zero_base axis_x axis_y True) init = run (make_sets zero_base axis_x axis_y True @ declare_properties) init)"
proof -
  from C10_empty_sets [OF base_ok_zero_base, of axis_x axis_y] obtain f s where
    "create_particles zero_base axis_x axis_y True = Inr [f, s]" "name f = ''fluid''" "name s = ''solid''"
    "num_particles f = 0" "num_particles s = 0"
    "properties f =
       (\<lambda>k. if map_of zero_base k = None \<and>
                k \<notin> set [''V'', ''uhat'', ''vhat'', ''auhat'', ''avhat'', ''au'', ''av'', ''aw'', ''rho0'', ''p0'']
             then None else Some [])"
    "properties s =
       (\<lambda>k. if map_of zero_base k = None \<and> k \<notin> set [''V'', ''uhat'', ''vhat'', ''wij'', ''u0'', ''v0'']
             then None else Some [])"
    "program zero_base axis_x axis_y True ! 14 = on_fluid (assign_from ''rho0'' (\<lambda>r. r) ''rho'')"
    "program zero_base axis_x axis_y False ! 17 = on_fluid (assign_from ''rho0'' (\<lambda>r. r) ''rho'')"
    "run (program zero_base axis_x axis_y True) init = run (make_sets zero_base axis_x axis_y True @ declare_properties) init"
    by blast
  then show ?thesis
    using base_ok_zero_base
    by (intro conjI exI [of _ f] exI [of _ s]) (simp_all add: zero_base_def)
qed

end
